(* ===== verification/X86_Prelude.thy ===== *)
theory X86_Prelude
  imports Main "HOL-Library.Word" "HOL-Library.Monad_Syntax"
begin

text \<open>
  Shared vocabulary of the development: the names of Rust's integer types as HOL words,
  the standard-library integer operations the engine calls (\<^verbatim>\<open>checked_add\<close>,
  \<^verbatim>\<open>saturating_add\<close>, \<^verbatim>\<open>wrapping_shl\<close>, \<^verbatim>\<open>count_ones\<close>, ...), fallible list access (an
  out-of-range index is a panic of the source and the value \<open>None\<close> here), and the bit-level
  lemmas on which the component theories rest.
\<close>

unbundle bit_operations_syntax

section \<open>Integer types\<close>

type_synonym u8 = "8 word"
type_synonym u16 = "16 word"
type_synonym u32 = "32 word"
type_synonym u64 = "64 word"
type_synonym u128 = "128 word"

named_theorems bit_rules \<open>bitwise characterisations of the model's operations\<close>
named_theorems panic_free \<open>conditions under which an operation returns\<close>

section \<open>The standard library's integer operations\<close>

definition checked_add :: "u64 \<Rightarrow> u64 \<Rightarrow> u64 option" where
  "checked_add a b = (if unat a + unat b < 2 ^ 64 then Some (a + b) else None)"

definition saturating_add :: "u64 \<Rightarrow> u64 \<Rightarrow> u64" where
  "saturating_add a b = (if unat a + unat b < 2 ^ 64 then a + b else - 1)"

definition saturating_sub :: "u64 \<Rightarrow> u64 \<Rightarrow> u64" where
  "saturating_sub a b = (if b \<le> a then a - b else 0)"

definition wrapping_shl :: "u64 \<Rightarrow> nat \<Rightarrow> u64" where
  "wrapping_shl v n = push_bit (n mod 64) v"

definition wrapping_shr :: "u64 \<Rightarrow> nat \<Rightarrow> u64" where
  "wrapping_shr v n = drop_bit (n mod 64) v"

text \<open>\<^verbatim>\<open>count_ones\<close>, \<^verbatim>\<open>trailing_zeros\<close> and \<^verbatim>\<open>leading_zeros\<close>, bit by bit over the width.\<close>

definition count_ones :: "'a::len word \<Rightarrow> nat" where
  "count_ones v = length (filter (bit v) [0..<LENGTH('a)])"

fun tz_from :: "('a::len) word \<Rightarrow> nat \<Rightarrow> nat \<Rightarrow> nat" where
  "tz_from v i 0 = i"
| "tz_from v i (Suc k) = (if bit v i then i else tz_from v (Suc i) k)"

definition trailing_zeros :: "'a::len word \<Rightarrow> nat" where
  "trailing_zeros v = tz_from v 0 LENGTH('a)"

fun lz_from :: "('a::len) word \<Rightarrow> nat \<Rightarrow> nat \<Rightarrow> nat" where
  "lz_from v c 0 = c"
| "lz_from v c (Suc k) = (if bit v k then c else lz_from v (Suc c) k)"

definition leading_zeros :: "'a::len word \<Rightarrow> nat" where
  "leading_zeros v = lz_from v 0 LENGTH('a)"

text \<open>A Rust \<^verbatim>\<open>bool as u64\<close>.\<close>

definition of_flag :: "bool \<Rightarrow> 'a::len word" where
  "of_flag b = (if b then 1 else 0)"

section \<open>Slices\<close>

text \<open>Indexing panics out of range: \<open>None\<close> is the panic.\<close>

definition idx :: "'a list \<Rightarrow> nat \<Rightarrow> 'a option" where
  "idx xs i = (if i < length xs then Some (xs ! i) else None)"

definition set_idx :: "'a list \<Rightarrow> nat \<Rightarrow> 'a \<Rightarrow> 'a list option" where
  "set_idx xs i v = (if i < length xs then Some (xs[i := v]) else None)"

text \<open>\<^verbatim>\<open>iter().position(p)\<close>: the index of the first element that satisfies the predicate.\<close>

fun position :: "('a \<Rightarrow> bool) \<Rightarrow> 'a list \<Rightarrow> nat option" where
  "position p [] = None"
| "position p (x # xs) = (if p x then Some 0 else map_option Suc (position p xs))"

section \<open>Lemmas on the library operations\<close>

lemma idx_simps [simp]:
  "i < length xs \<Longrightarrow> idx xs i = Some (xs ! i)"
  "\<not> i < length xs \<Longrightarrow> idx xs i = None"
  by (simp_all add: idx_def)

lemma set_idx_simps [simp]:
  "i < length xs \<Longrightarrow> set_idx xs i v = Some (xs[i := v])"
  "\<not> i < length xs \<Longrightarrow> set_idx xs i v = None"
  by (simp_all add: set_idx_def)

lemma idx_SomeD: "idx xs i = Some v \<Longrightarrow> i < length xs \<and> v = xs ! i"
  by (auto simp: idx_def split: if_splits)

lemma set_idx_SomeD: "set_idx xs i v = Some ys \<Longrightarrow> i < length xs \<and> ys = xs[i := v]"
  by (auto simp: set_idx_def split: if_splits)

lemma position_Some_iff:
  "position p xs = Some i \<longleftrightarrow> i < length xs \<and> p (xs ! i) \<and> (\<forall>j<i. \<not> p (xs ! j))"
proof (induction xs arbitrary: i)
  case Nil
  show ?case by simp
next
  case (Cons x xs)
  show ?case
  proof (cases "p x")
    case True
    then show ?thesis by (cases i) auto
  next
    case False
    with Cons show ?thesis
      by (cases i) (auto simp: less_Suc_eq_0_disj nth_Cons split: nat.splits)
  qed
qed

lemma position_None_iff: "position p xs = None \<longleftrightarrow> (\<forall>x\<in>set xs. \<not> p x)"
  by (induction xs) auto

lemma bit_of_flag [simp]: "bit (of_flag b :: 'a::len word) n \<longleftrightarrow> b \<and> n = 0"
  by (cases n) (auto simp: of_flag_def bit_0)

lemma of_flag_eq_0 [simp]: "of_flag b = (0::'a::len word) \<longleftrightarrow> \<not> b"
  by (simp add: of_flag_def)

text \<open>The test \<^verbatim>\<open>x & (1 << n) != 0\<close> of the source is the bit \<open>n\<close>.\<close>

lemma and_exp_eq_0 [simp]:
  "(x AND 2 ^ n = 0) \<longleftrightarrow> \<not> bit x n" for x :: "'a::len word"
  using bit_iff_and_push_bit_not_eq_0 [of x n] by simp

lemma bit_exp_word [simp]:
  "bit (2 ^ m :: 'a::len word) n \<longleftrightarrow> n < LENGTH('a) \<and> n = m"
  by (auto simp: bit_exp_iff)

text \<open>The test \<^verbatim>\<open>(x >> n) & 1 != 0\<close> of the source is the bit \<open>n\<close>.\<close>

lemma drop_bit_and_1_eq_0 [simp]:
  "(drop_bit n x AND 1 = 0) \<longleftrightarrow> \<not> bit x n" for x :: "'a::len word"
proof -
  have "(drop_bit n x AND 1 = 0) \<longleftrightarrow> \<not> bit (drop_bit n x) 0"
    using bit_iff_and_push_bit_not_eq_0 [of "drop_bit n x" 0] by simp
  then show ?thesis by (simp add: bit_simps)
qed

lemma and_mask_word: "x AND mask n = take_bit n x" for x :: "'a::len word"
  by (simp add: take_bit_eq_mask)

lemma bit_word_ge_length: "LENGTH('a) \<le> n \<Longrightarrow> \<not> bit (w::'a::len word) n"
  using bit_imp_le_length [of w n] by auto

lemma saturating_add_ge: "a \<le> saturating_add a b"
proof (cases "unat a + unat b < 2 ^ 64")
  case True
  then have "unat (a + b) = unat a + unat b" by (subst unat_add_lem [symmetric]) simp
  with True show ?thesis by (simp add: saturating_add_def word_le_nat_alt)
next
  case False
  then show ?thesis by (simp add: saturating_add_def)
qed

lemma checked_add_Some:
  "checked_add a b = Some c \<longleftrightarrow> c = a + b \<and> unat c = unat a + unat b"
proof -
  have "unat a + unat b < 2 ^ 64 \<longleftrightarrow> unat (a + b) = unat a + unat b"
    using unat_add_lem [of a b] by simp
  then show ?thesis by (auto simp: checked_add_def)
qed

section \<open>Masks, single-bit tests and small indices\<close>

lemma exp_minus_1_eq_mask [simp]: "2 ^ n - 1 = (mask n :: 'a::len word)"
  by (simp add: mask_eq_exp_minus_1)

lemma and_mask_numerals:
  fixes x :: "'a::len word"
  shows "x AND 255 = take_bit 8 x" "x AND 65535 = take_bit 16 x" "x AND 4294967295 = take_bit 32 x"
  by (simp_all add: take_bit_eq_mask mask_eq_exp_minus_1)

lemma and_pow2_eq_0 [simp]:
  fixes x :: "'a::len word"
  shows "(x AND 1 = 0) \<longleftrightarrow> \<not> bit x 0" "(x AND 2 = 0) \<longleftrightarrow> \<not> bit x 1" "(x AND 4 = 0) \<longleftrightarrow> \<not> bit x 2"
    "(x AND 8 = 0) \<longleftrightarrow> \<not> bit x 3" "(x AND 16 = 0) \<longleftrightarrow> \<not> bit x 4" "(x AND 32 = 0) \<longleftrightarrow> \<not> bit x 5"
    "(x AND 64 = 0) \<longleftrightarrow> \<not> bit x 6" "(x AND 128 = 0) \<longleftrightarrow> \<not> bit x 7" "(x AND 256 = 0) \<longleftrightarrow> \<not> bit x 8"
    "(x AND 512 = 0) \<longleftrightarrow> \<not> bit x 9" "(x AND 1024 = 0) \<longleftrightarrow> \<not> bit x 10"
    "(x AND 2048 = 0) \<longleftrightarrow> \<not> bit x 11"
  using and_exp_eq_0 [of x 0] and_exp_eq_0 [of x 1] and_exp_eq_0 [of x 2] and_exp_eq_0 [of x 3]
    and_exp_eq_0 [of x 4] and_exp_eq_0 [of x 5] and_exp_eq_0 [of x 6] and_exp_eq_0 [of x 7]
    and_exp_eq_0 [of x 8] and_exp_eq_0 [of x 9] and_exp_eq_0 [of x 10] and_exp_eq_0 [of x 11]
  by (simp_all del: and_exp_eq_0)

lemma and_NOT_mask:
  fixes x :: "'a::len word"
  shows "x AND - 256 = x AND NOT (mask 8)" "x AND - 65536 = x AND NOT (mask 16)"
  by (simp_all add: mask_eq_exp_minus_1)

lemma less_16_cases:
  "i < (16::nat) \<Longrightarrow> i = 15 \<or> i = 14 \<or> i = 13 \<or> i = 12 \<or> i = 11 \<or> i = 10 \<or> i = 9 \<or> i = 8
    \<or> i = 7 \<or> i = 6 \<or> i = 5 \<or> i = 4 \<or> i = 3 \<or> i = 2 \<or> i = 1 \<or> i = 0"
  by (auto simp: less_Suc_eq eval_nat_numeral)

lemma less_4_cases: "(c :: nat) < 4 \<Longrightarrow> c = 0 \<or> c = 1 \<or> c = 2 \<or> c = 3"
  by (simp add: less_Suc_eq eval_nat_numeral)

lemma bit_push_of_flag: "bit (push_bit k (of_flag b) :: 'a::len word) n \<longleftrightarrow> n = k \<and> k < LENGTH('a) \<and> b"
  by (auto simp: bit_push_bit_iff)

definition valid_size :: "nat \<Rightarrow> bool" where
  "valid_size sz \<longleftrightarrow> sz = 1 \<or> sz = 2 \<or> sz = 4 \<or> sz = 8"

lemma find_fst_map_of: "map_option snd (find (\<lambda>(a, _). a = k) xs) = map_of xs k"
  by (induction xs) auto

section \<open>Arithmetic on words\<close>

lemma take_bit_down_arith:
  fixes k l :: int
  assumes "n \<le> m"
  shows "take_bit n (take_bit m k + take_bit m l) = take_bit n (k + l)"
    "take_bit n (take_bit m k - take_bit m l) = take_bit n (k - l)"
    "take_bit n (take_bit m k * take_bit m l) = take_bit n (k * l)"
proof -
  have "take_bit n (take_bit m k) = take_bit n k" "take_bit n (take_bit m l) = take_bit n l"
    using assms by (simp_all add: min_def)
  then show "take_bit n (take_bit m k + take_bit m l) = take_bit n (k + l)"
    "take_bit n (take_bit m k - take_bit m l) = take_bit n (k - l)"
    "take_bit n (take_bit m k * take_bit m l) = take_bit n (k * l)"
    by (metis take_bit_add, metis take_bit_diff, metis take_bit_mult)
qed

lemma ucast_down_arith:
  assumes "LENGTH('b::len) \<le> LENGTH('a::len)"
  shows "(ucast (x + y :: 'a word) :: 'b word) = ucast x + ucast y"
    "(ucast (x - y :: 'a word) :: 'b word) = ucast x - ucast y"
    "(ucast (x * y :: 'a word) :: 'b word) = ucast x * ucast y"
  using assms by (transfer; simp add: take_bit_down_arith min_def)+

lemma unat_u64_less: "unat (x :: u64) < 18446744073709551616"
proof -
  have "unat x < 2 ^ LENGTH(64)" by (rule unsigned_less)
  then show ?thesis by simp
qed

lemma checked_add_SomeD: "checked_add a b = Some c \<Longrightarrow> unat c = unat a + unat b"
  by (auto simp: checked_add_def unat_word_ariths split: if_splits)

lemma find_position: "find p xs = map_option ((!) xs) (position p xs)"
  by (induction xs) (auto simp: option.map_comp o_def)

lemma unat_window:
  fixes p q :: u64
  assumes "unat q + n \<le> 2 ^ 64"
  shows "unat q \<le> unat p \<and> unat p < unat q + n \<longleftrightarrow> unat (p - q) < n"
    "unat q \<le> unat p \<Longrightarrow> unat p - unat q = unat (p - q)"
proof -
  show *: "unat p - unat q = unat (p - q)" if "unat q \<le> unat p"
    using that by (simp add: unat_sub word_le_nat_alt)
  have "n \<le> unat (p - q)" if "\<not> unat q \<le> unat p"
  proof -
    have "unat (p - q) = unat p + (2 ^ 64 - unat q)"
      using that unat_u64_less [of q] by (simp add: unat_sub_if_size word_size)
    then show ?thesis using assms by simp
  qed
  with * show "unat q \<le> unat p \<and> unat p < unat q + n \<longleftrightarrow> unat (p - q) < n"
    by (metis leD less_diff_conv2 add.commute)
qed

lemma unat_sub_window:
  fixes x a g :: u64
  assumes "unat (a - g) + n \<le> 2 ^ 64"
  shows "unat (a - g) \<le> unat (x - g) \<and> unat (x - g) < unat (a - g) + n \<longleftrightarrow> unat (x - a) < n"
    "unat (a - g) \<le> unat (x - g) \<Longrightarrow> unat (x - g) - unat (a - g) = unat (x - a)"
  using unat_window [OF assms, of "x - g"] by simp_all

lemma unat_add_of_nat: "unat (p :: u64) + i < 2 ^ 64 \<Longrightarrow> unat (p + of_nat i) = unat p + i"
  by (simp add: unat_word_ariths unat_of_nat)

lemma mod_once:
  fixes x N :: int
  shows "0 \<le> x \<Longrightarrow> x < 2 * N \<Longrightarrow> x mod N = (if x < N then x else x - N)"
    "- N \<le> x \<Longrightarrow> x < N \<Longrightarrow> x mod N = (if 0 \<le> x then x else x + N)"
proof -
  show "x mod N = (if x < N then x else x - N)" if "0 \<le> x" "x < 2 * N"
  proof (cases "x < N")
    case False
    then have "(x - N) mod N = x - N" using that by (intro mod_pos_pos_trivial) auto
    with False show ?thesis by simp
  qed (use that in simp)
  show "x mod N = (if 0 \<le> x then x else x + N)" if "- N \<le> x" "x < N"
  proof (cases "0 \<le> x")
    case False
    then have "(x + N) mod N = x + N" using that by (intro mod_pos_pos_trivial) auto
    with False show ?thesis by simp
  qed (use that in simp)
qed

lemma take_bit_uint_arith:
  fixes x y :: u64
  assumes "n \<le> 64"
  shows "take_bit n (uint (x + y)) = take_bit n (uint x + uint y)"
    "take_bit n (uint (x - y)) = take_bit n (uint x - uint y)"
  using assms by (transfer; simp add: take_bit_down_arith min_def)+

lemma uint_of_flag [simp]: "uint (of_flag c :: 'a::len word) = of_bool c"
  by (simp add: of_flag_def)

lemma take_bit_arith3:
  fixes k l c :: int
  shows "take_bit n (take_bit n k + take_bit n l + c) = take_bit n (k + l + c)"
    "take_bit n (take_bit n k - take_bit n l - c) = take_bit n (k - l - c)"
  unfolding take_bit_eq_mod by (intro mod_add_cong mod_diff_cong; simp)+

lemma ucast_up_down [simp]: "(ucast (ucast (x :: u64) :: u128) :: u64) = x"
  by (rule bit_word_eqI) (simp add: bit_simps)

lemma take_bit_word_arith3:
  fixes a b c :: "'a::len word"
  shows "take_bit n (take_bit n a + take_bit n b + c) = take_bit n (a + b + c)"
  "take_bit n (take_bit n a - take_bit n b - c) = take_bit n (a - b - c)"
  by (transfer; simp add: take_bit_arith3)+

lemma uint_ucast_up [simp]: "uint (ucast (x :: u64) :: u128) = uint x"
  by (simp add: unsigned_ucast_eq take_bit_int_eq_self [OF _ less_le_trans [OF uint_lt2p]])

lemma ucast_of_flag [simp]: "ucast (of_flag c :: 'a::len word) = (of_flag c :: 'b::len word)"
  by (simp add: of_flag_def)

lemma bit_carry_out:
  fixes n :: int
  assumes "0 \<le> n" "n < 2 * 2 ^ k"
  shows "bit n k \<longleftrightarrow> 2 ^ k \<le> n"
proof (cases "2 ^ k \<le> n")
  case True
  then have "n div 2 ^ k = 1" using assms by (intro int_div_pos_eq [where r = "n - 2 ^ k"]) auto
  with True show ?thesis by (simp add: bit_iff_odd)
next
  case False
  then show ?thesis using assms by (simp add: bit_iff_odd)
qed

lemma sint_signed_shift:
  fixes v :: "'a::len word"
  assumes "0 < n" "n \<le> LENGTH('a)"
  shows "sint (signed_drop_bit (LENGTH('a) - n) (push_bit (LENGTH('a) - n) v)) = signed_take_bit (n - 1) (uint v)"
proof (rule bit_eqI)
  fix k
  let ?L = "LENGTH('a)"
  have "bit (sint (signed_drop_bit (?L - n) (push_bit (?L - n) v))) k \<longleftrightarrow> bit v (min k (n - 1))"
    using assms by (auto simp: bit_simps min_def not_less; (subgoal_tac "?L - Suc 0 - (?L - n) = n - Suc 0"; simp))
  also have "\<dots> \<longleftrightarrow> bit (signed_take_bit (n - 1) (uint v)) k"
    using assms by (auto simp: bit_simps min_def)
  finally show "bit (sint (signed_drop_bit (?L - n) (push_bit (?L - n) v))) k \<longleftrightarrow> bit (signed_take_bit (n - 1) (uint v)) k" .
qed

lemma bit_double_0 [simp]: "\<not> bit (x * 2 :: 'a::len word) 0"
  by (simp add: bit_0)

lemma bit_double_Suc [simp]: "bit (x * 2 :: 'a::len word) (Suc j) \<longleftrightarrow> Suc j < LENGTH('a) \<and> bit x j"
  using bit_push_bit_iff [of 1 x "Suc j"] by simp

lemma bit_and_1: "bit (x AND 1 :: 'a::len word) n \<longleftrightarrow> n = 0 \<and> bit x 0"
  by (auto simp: bit_simps)

end
