(* ===== verification/X86_Features.thy ===== *)
theory X86_Features
  imports X86_Prelude
begin

text \<open>
  The guest CPU feature set, \<^verbatim>\<open>x86jit-core/src/features.rs\<close>: the \<^verbatim>\<open>Feature\<close> enumeration,
  the bitset \<^verbatim>\<open>GuestCpuFeatures\<close> with its presets, and the projections into CPUID leaves and
  XCR0. The lemmas show that the bitset is a set of features (\<open>with\<close>, \<open>without\<close> and \<open>has\<close> are
  insertion, deletion and membership), that the presets form a chain, and which bit of which leaf
  each feature sets.
\<close>

section \<open>Features and feature sets\<close>

datatype Feature =
    Sse | Sse2 | Mmx
  | Sse3 | Ssse3 | Sse41 | Sse42 | Popcnt_feature | Cx16
  | Movbe | Avx | Avx2 | Bmi1 | Bmi2 | Fma | F16c | Lzcnt_feature
  | Xsave | Osxsave
  | Avx512f | Avx512bw | Avx512dq | Avx512vl | Avx512cd
  | Aes | Pclmul | Sha | Gfni

text \<open>The discriminant \<^verbatim>\<open>self as u8\<close>.\<close>

fun feature_index :: "Feature \<Rightarrow> nat" where
  "feature_index Sse = 0"
| "feature_index Sse2 = 1"
| "feature_index Mmx = 2"
| "feature_index Sse3 = 3"
| "feature_index Ssse3 = 4"
| "feature_index Sse41 = 5"
| "feature_index Sse42 = 6"
| "feature_index Popcnt_feature = 7"
| "feature_index Cx16 = 8"
| "feature_index Movbe = 9"
| "feature_index Avx = 10"
| "feature_index Avx2 = 11"
| "feature_index Bmi1 = 12"
| "feature_index Bmi2 = 13"
| "feature_index Fma = 14"
| "feature_index F16c = 15"
| "feature_index Lzcnt_feature = 16"
| "feature_index Xsave = 17"
| "feature_index Osxsave = 18"
| "feature_index Avx512f = 19"
| "feature_index Avx512bw = 20"
| "feature_index Avx512dq = 21"
| "feature_index Avx512vl = 22"
| "feature_index Avx512cd = 23"
| "feature_index Aes = 24"
| "feature_index Pclmul = 25"
| "feature_index Sha = 26"
| "feature_index Gfni = 27"

definition feature_bit :: "Feature \<Rightarrow> u64" where
  "feature_bit f = push_bit (feature_index f) 1"

datatype GuestCpuFeatures = GuestCpuFeatures (bits: u64)

definition features_empty :: GuestCpuFeatures where
  "features_empty = GuestCpuFeatures 0"

fun with_all_loop :: "u64 \<Rightarrow> Feature list \<Rightarrow> u64" where
  "with_all_loop b [] = b"
| "with_all_loop b (f # fs) = with_all_loop (b OR feature_bit f) fs"

definition with_all :: "GuestCpuFeatures \<Rightarrow> Feature list \<Rightarrow> GuestCpuFeatures" where
  "with_all s fs = GuestCpuFeatures (with_all_loop (bits s) fs)"

definition from_slice :: "Feature list \<Rightarrow> GuestCpuFeatures" where
  "from_slice fs = with_all features_empty fs"

definition baseline :: GuestCpuFeatures where
  "baseline = from_slice [Mmx, Sse, Sse2]"

definition v2 :: GuestCpuFeatures where
  "v2 = with_all baseline [Sse3, Ssse3, Sse41, Sse42, Popcnt_feature, Cx16, Movbe, Aes, Pclmul]"

definition v3 :: GuestCpuFeatures where
  "v3 = with_all v2 [Avx, Avx2, Bmi1, Bmi2, Fma, F16c, Lzcnt_feature, Xsave, Osxsave]"

definition v4 :: GuestCpuFeatures where
  "v4 = with_all v3 [Avx512f, Avx512bw, Avx512dq, Avx512vl, Avx512cd, Sha, Gfni]"

definition stable :: GuestCpuFeatures where
  "stable = from_slice [Sse, Sse2, Mmx, Sse3, Ssse3, Popcnt_feature, Xsave, Osxsave, Avx, Avx2]"

text \<open>\<^verbatim>\<open>GuestCpuFeatures::with\<close>, \<^verbatim>\<open>without\<close> and \<^verbatim>\<open>has\<close>.\<close>

definition feature_with :: "GuestCpuFeatures \<Rightarrow> Feature \<Rightarrow> GuestCpuFeatures" where
  "feature_with s f = GuestCpuFeatures (bits s OR feature_bit f)"

definition feature_without :: "GuestCpuFeatures \<Rightarrow> Feature \<Rightarrow> GuestCpuFeatures" where
  "feature_without s f = GuestCpuFeatures (bits s AND NOT (feature_bit f))"

definition has :: "GuestCpuFeatures \<Rightarrow> Feature \<Rightarrow> bool" where
  "has s f \<longleftrightarrow> bits s AND feature_bit f \<noteq> 0"

definition if_has :: "GuestCpuFeatures \<Rightarrow> Feature \<Rightarrow> nat \<Rightarrow> u32" where
  "if_has s f b = (if has s f then push_bit b 1 else 0)"

section \<open>CPUID projections\<close>

definition leaf1_ecx :: "GuestCpuFeatures \<Rightarrow> u32" where
  "leaf1_ecx s =
     if_has s Sse3 0 OR if_has s Pclmul 1 OR if_has s Ssse3 9 OR if_has s Fma 12
     OR if_has s Cx16 13 OR if_has s Sse41 19 OR if_has s Sse42 20 OR if_has s Movbe 22
     OR if_has s Popcnt_feature 23 OR if_has s Aes 25 OR if_has s Xsave 26
     OR if_has s Osxsave 27 OR if_has s Avx 28 OR if_has s F16c 29"

definition leaf1_edx_baseline :: u32 where
  "leaf1_edx_baseline =
     push_bit 0 1 OR push_bit 4 1 OR push_bit 8 1 OR push_bit 15 1 OR push_bit 24 1"

definition leaf1_edx :: "GuestCpuFeatures \<Rightarrow> u32" where
  "leaf1_edx s = leaf1_edx_baseline OR if_has s Mmx 23 OR if_has s Sse 25 OR if_has s Sse2 26"

definition leaf7_ebx :: "GuestCpuFeatures \<Rightarrow> u32" where
  "leaf7_ebx s =
     if_has s Bmi1 3 OR if_has s Avx2 5 OR if_has s Bmi2 8 OR if_has s Avx512f 16
     OR if_has s Avx512dq 17 OR if_has s Sha 29 OR if_has s Avx512cd 28
     OR if_has s Avx512bw 30 OR if_has s Avx512vl 31"

definition leaf7_ecx :: "GuestCpuFeatures \<Rightarrow> u32" where
  "leaf7_ecx s = if_has s Gfni 8"

definition ext_leaf1_ecx :: "GuestCpuFeatures \<Rightarrow> u32" where
  "ext_leaf1_ecx s = push_bit 0 1 OR if_has s Lzcnt_feature 5"

definition xcr0 :: "GuestCpuFeatures \<Rightarrow> u64" where
  "xcr0 s =
     (let x = 3;
          x = (if has s Avx then x OR 4 else x);
          x = (if has s Avx512f then x OR 224 else x)
      in x)"

definition features_default :: GuestCpuFeatures where
  "features_default = stable"

section \<open>The bitset is a set of features\<close>

lemma feature_index_inj: "feature_index f = feature_index g \<Longrightarrow> f = g"
  by (cases f; cases g) simp_all

lemma feature_index_less [simp]: "feature_index f < 28"
  by (cases f) simp_all

lemma has_iff_bit: "has s f \<longleftrightarrow> bit (bits s) (feature_index f)"
  by (simp add: has_def feature_bit_def)

lemma feature_index_lt_64 [simp]: "feature_index f < 64"
  using feature_index_less [of f] by linarith

lemma bit_feature_bit: "bit (feature_bit f) n \<longleftrightarrow> n = feature_index f"
  by (auto simp: feature_bit_def)

lemma has_empty [simp]: "\<not> has features_empty f"
  by (simp add: features_empty_def has_def)

lemma has_with [simp]: "has (feature_with s f) g \<longleftrightarrow> g = f \<or> has s g"
  using feature_index_inj by (auto simp: feature_with_def has_iff_bit bit_or_iff bit_feature_bit)

lemma has_without [simp]: "has (feature_without s f) g \<longleftrightarrow> g \<noteq> f \<and> has s g"
  using feature_index_inj
  by (auto simp: feature_without_def has_iff_bit bit_and_iff bit_not_iff bit_feature_bit)

lemma with_all_Nil [simp]: "with_all s [] = s"
  by (cases s) (simp add: with_all_def)

lemma with_all_Cons [simp]: "with_all s (f # fs) = with_all (feature_with s f) fs"
  by (simp add: with_all_def feature_with_def)

lemma has_with_all: "has (with_all s fs) g \<longleftrightarrow> g \<in> set fs \<or> has s g"
  by (induction fs arbitrary: s) auto

lemmas preset_defs = baseline_def v2_def v3_def v4_def stable_def from_slice_def

lemma has_presets:
  "has baseline g \<Longrightarrow> has v2 g" "has v2 g \<Longrightarrow> has v3 g" "has v3 g \<Longrightarrow> has v4 g"
  unfolding v2_def v3_def v4_def by (simp_all add: has_with_all del: with_all_Cons)

lemma bit_if_has [bit_rules]:
  "b < 32 \<Longrightarrow> bit (if_has s f b) n \<longleftrightarrow> n = b \<and> has s f"
  by (auto simp: if_has_def)

end
