(* ===== verification/X86_State.thy ===== *)
theory X86_State
  imports X86_Features
begin

text \<open>
  Guest CPU state, \<^verbatim>\<open>x86jit-core/src/state.rs\<close>: the register names, the flags with their lazily
  stored parity and adjust sources, the register file \<^verbatim>\<open>CpuState\<close>, and its operations: the table
  of answered MMIO sub-transfers, the vector-register write rules, AVX-512 write masking and the
  sub-register write rule of the general-purpose registers. Fixed-size arrays that are only
  indexed by register numbers are functions on \<open>nat\<close>; an index or a width on which the source
  panics gives \<open>None\<close>.
\<close>

section \<open>Registers\<close>

datatype Reg =
    Rax | Rbx | Rcx | Rdx | Rsi | Rdi | Rbp | Rsp
  | R8 | R9 | R10 | R11 | R12 | R13 | R14 | R15
  | Rip | FsBase | GsBase | Cs | Ds | Es | Ss

definition GPR_BY_INDEX :: "Reg list" where
  "GPR_BY_INDEX =
     [Rax, Rcx, Rdx, Rbx, Rsp, Rbp, Rsi, Rdi, R8, R9, R10, R11, R12, R13, R14, R15]"

definition from_gpr_index :: "nat \<Rightarrow> Reg option" where
  "from_gpr_index i = idx GPR_BY_INDEX i"

fun gpr_index :: "Reg \<Rightarrow> nat option" where
  "gpr_index Rax = Some 0"
| "gpr_index Rcx = Some 1"
| "gpr_index Rdx = Some 2"
| "gpr_index Rbx = Some 3"
| "gpr_index Rsp = Some 4"
| "gpr_index Rbp = Some 5"
| "gpr_index Rsi = Some 6"
| "gpr_index Rdi = Some 7"
| "gpr_index R8 = Some 8"
| "gpr_index R9 = Some 9"
| "gpr_index R10 = Some 10"
| "gpr_index R11 = Some 11"
| "gpr_index R12 = Some 12"
| "gpr_index R13 = Some 13"
| "gpr_index R14 = Some 14"
| "gpr_index R15 = Some 15"
| "gpr_index _ = None"

section \<open>Flags\<close>

record Flags =
  flag_cf :: bool
  pf_src :: u8
  af_src :: u8
  flag_zf :: bool
  flag_sf :: bool
  flag_of :: bool
  flag_df :: bool
  flag_if :: bool

definition PF_SRC_ZERO :: u8 where "PF_SRC_ZERO = 1"
definition PF_SRC_ONE :: u8 where "PF_SRC_ONE = 0"
definition AF_SRC_ONE :: u8 where "AF_SRC_ONE = 16"
definition AF_SRC_ZERO :: u8 where "AF_SRC_ZERO = 0"

definition pf :: "Flags \<Rightarrow> bool" where
  "pf f \<longleftrightarrow> count_ones (pf_src f) mod 2 = 0"

definition set_pf :: "bool \<Rightarrow> Flags \<Rightarrow> Flags" where
  "set_pf v f = f\<lparr>pf_src := if v then PF_SRC_ONE else PF_SRC_ZERO\<rparr>"

definition af :: "Flags \<Rightarrow> bool" where
  "af f \<longleftrightarrow> af_src f AND 16 \<noteq> 0"

definition set_af :: "bool \<Rightarrow> Flags \<Rightarrow> Flags" where
  "set_af v f = f\<lparr>af_src := if v then AF_SRC_ONE else AF_SRC_ZERO\<rparr>"

text \<open>\<^verbatim>\<open>impl PartialEq for Flags\<close>: equality of the architectural flags.\<close>

definition flags_eq :: "Flags \<Rightarrow> Flags \<Rightarrow> bool" where
  "flags_eq f g \<longleftrightarrow>
     flag_cf f = flag_cf g \<and> flag_zf f = flag_zf g \<and> flag_sf f = flag_sf g
     \<and> flag_of f = flag_of g \<and> flag_df f = flag_df g \<and> flag_if f = flag_if g
     \<and> pf f = pf g \<and> af f = af g"

definition flags_default :: Flags where
  "flags_default =
     \<lparr>flag_cf = False, pf_src = PF_SRC_ZERO, af_src = AF_SRC_ZERO, flag_zf = False,
      flag_sf = False, flag_of = False, flag_df = False, flag_if = False\<rparr>"

definition to_rflags :: "Flags \<Rightarrow> u64" where
  "to_rflags f =
     of_flag (flag_cf f)
     OR push_bit 1 1
     OR push_bit 2 (of_flag (pf f))
     OR push_bit 4 (of_flag (af f))
     OR push_bit 6 (of_flag (flag_zf f))
     OR push_bit 7 (of_flag (flag_sf f))
     OR push_bit 10 (of_flag (flag_df f))
     OR push_bit 11 (of_flag (flag_of f))"

definition to_flags16 :: "Flags \<Rightarrow> u16" where
  "to_flags16 f =
     of_flag (flag_cf f)
     OR push_bit 1 1
     OR push_bit 2 (of_flag (pf f))
     OR push_bit 4 (of_flag (af f))
     OR push_bit 6 (of_flag (flag_zf f))
     OR push_bit 7 (of_flag (flag_sf f))
     OR push_bit 9 (of_flag (flag_if f))
     OR push_bit 10 (of_flag (flag_df f))
     OR push_bit 11 (of_flag (flag_of f))"

definition set_flags16 :: "u16 \<Rightarrow> Flags \<Rightarrow> Flags" where
  "set_flags16 img f =
     (let f = f\<lparr>flag_cf := img AND push_bit 0 1 \<noteq> 0\<rparr>;
          f = set_pf (img AND push_bit 2 1 \<noteq> 0) f;
          f = set_af (img AND push_bit 4 1 \<noteq> 0) f;
          f = f\<lparr>flag_zf := img AND push_bit 6 1 \<noteq> 0\<rparr>;
          f = f\<lparr>flag_sf := img AND push_bit 7 1 \<noteq> 0\<rparr>;
          f = f\<lparr>flag_if := img AND push_bit 9 1 \<noteq> 0\<rparr>;
          f = f\<lparr>flag_df := img AND push_bit 10 1 \<noteq> 0\<rparr>
      in f\<lparr>flag_of := img AND push_bit 11 1 \<noteq> 0\<rparr>)"

section \<open>The register file\<close>

datatype X87Precision = Fast_precision | Extended_precision

record CpuState =
  gpr :: "nat \<Rightarrow> u64"
  rip :: u64
  fs_base :: u64
  gs_base :: u64
  flags :: Flags
  xmm :: "nat \<Rightarrow> u128"
  ymm_hi :: "nat \<Rightarrow> u128"
  zmm_hi :: "nat \<Rightarrow> u128 \<times> u128"
  kmask :: "nat \<Rightarrow> u64"
  fpr :: "nat \<Rightarrow> u8 list"
  fpu_top :: u32
  fpu_cw :: u16
  fpu_pad :: u16
  pending_mmio :: "u64 option"
  pending_mmio_write :: bool
  pending_port_in :: "nat option"
  cpu_features :: GuestCpuFeatures
  x87_precision :: X87Precision
  cs_sel :: u16
  ds_sel :: u16
  es_sel :: u16
  ss_sel :: u16
  fpu_empty :: u8
  fpu_sw :: u16
  fpu_env_tail :: "u8 list"
  mmio_parts :: "(u64 \<times> u64) list"
  mmio_parts_len :: nat
  mmio_parts_rip :: u64

text \<open>\<^verbatim>\<open>impl Default for CpuState\<close>; \<open>0x037F\<close> is \<^verbatim>\<open>f80::Ctl::RESET\<close>.\<close>

definition CTL_RESET :: u16 where "CTL_RESET = 0x037F"

definition cpu_default :: CpuState where
  "cpu_default =
     \<lparr>gpr = (\<lambda>_. 0), rip = 0, fs_base = 0, gs_base = 0, flags = flags_default,
      xmm = (\<lambda>_. 0), ymm_hi = (\<lambda>_. 0), zmm_hi = (\<lambda>_. (0, 0)), kmask = (\<lambda>_. 0),
      fpr = (\<lambda>_. replicate 10 0), fpu_top = 0, fpu_cw = CTL_RESET, fpu_pad = 0,
      pending_mmio = None, pending_mmio_write = False, pending_port_in = None,
      cpu_features = features_default, x87_precision = Fast_precision,
      cs_sel = 0, ds_sel = 0, es_sel = 0, ss_sel = 0,
      fpu_empty = 0xFF, fpu_sw = 0, fpu_env_tail = replicate 16 0,
      mmio_parts = replicate 8 (0, 0), mmio_parts_len = 0, mmio_parts_rip = 0\<rparr>"

subsection \<open>Answered MMIO sub-transfers\<close>

definition mmio_part :: "CpuState \<Rightarrow> u64 \<Rightarrow> u64 \<Rightarrow> u64 option" where
  "mmio_part cpu at addr =
     (if mmio_parts_rip cpu \<noteq> at then None
      else map_option snd
        (find (\<lambda>(a, _). a = addr) (take (mmio_parts_len cpu) (mmio_parts cpu))))"

definition record_mmio_part :: "u64 \<Rightarrow> u64 \<Rightarrow> u64 \<Rightarrow> CpuState \<Rightarrow> CpuState" where
  "record_mmio_part at addr value cpu =
     (let cpu = (if mmio_parts_rip cpu \<noteq> at
                 then cpu\<lparr>mmio_parts_rip := at, mmio_parts_len := 0\<rparr> else cpu)
      in if mmio_part cpu at addr \<noteq> None then cpu
         else if mmio_parts_len cpu < length (mmio_parts cpu)
         then cpu\<lparr>mmio_parts := (mmio_parts cpu)[mmio_parts_len cpu := (addr, value)],
                  mmio_parts_len := mmio_parts_len cpu + 1\<rparr>
         else cpu)"

definition clear_mmio_parts :: "CpuState \<Rightarrow> CpuState" where
  "clear_mmio_parts cpu = cpu\<lparr>mmio_parts_len := 0, mmio_parts_rip := 0\<rparr>"

subsection \<open>Vector registers\<close>

definition vec_lanes :: "CpuState \<Rightarrow> nat \<Rightarrow> u128 list" where
  "vec_lanes cpu reg = [xmm cpu reg, ymm_hi cpu reg, fst (zmm_hi cpu reg), snd (zmm_hi cpu reg)]"

definition set_vec :: "nat \<Rightarrow> u128 list \<Rightarrow> nat \<Rightarrow> CpuState \<Rightarrow> CpuState" where
  "set_vec reg v n cpu =
     cpu\<lparr>xmm := (xmm cpu)(reg := v ! 0),
         ymm_hi := (ymm_hi cpu)(reg := if n \<ge> 32 then v ! 1 else 0),
         zmm_hi := (zmm_hi cpu)(reg := if n \<ge> 64 then (v ! 2, v ! 3) else (0, 0))\<rparr>"

definition set_vec_low :: "nat \<Rightarrow> u128 list \<Rightarrow> nat \<Rightarrow> CpuState \<Rightarrow> CpuState" where
  "set_vec_low reg v n cpu =
     (let cpu = cpu\<lparr>xmm := (xmm cpu)(reg := v ! 0)\<rparr>;
          cpu = (if n \<ge> 32 then cpu\<lparr>ymm_hi := (ymm_hi cpu)(reg := v ! 1)\<rparr> else cpu)
      in if n \<ge> 64 then cpu\<lparr>zmm_hi := (zmm_hi cpu)(reg := (v ! 2, v ! 3))\<rparr> else cpu)"

text \<open>
  The loops of \<^verbatim>\<open>write_masked\<close>: the inner one assembles a 128-bit lane element by element, the
  running element index \<open>e\<close> carried across lanes; the outer one visits the four lanes and leaves
  those past \<open>chunks\<close> zero.
\<close>

fun masked_elems :: "u64 \<Rightarrow> u128 \<Rightarrow> u128 \<Rightarrow> nat \<Rightarrow> u128 \<Rightarrow> nat list \<Rightarrow> u128 \<times> nat \<Rightarrow> u128 \<times> nat" where
  "masked_elems km new old w lane_mask [] (acc, e) = (acc, e)"
| "masked_elems km new old w lane_mask (j # js) (acc, e) =
     (let sh = j * w;
          src = (if drop_bit e km AND 1 \<noteq> 0 then new else old)
      in masked_elems km new old w lane_mask js
           (acc OR push_bit sh (drop_bit sh src AND lane_mask), e + 1))"

fun masked_lanes :: "u64 \<Rightarrow> u128 list \<Rightarrow> u128 list \<Rightarrow> nat \<Rightarrow> u128 \<Rightarrow> nat \<Rightarrow> nat \<Rightarrow> nat list \<Rightarrow> nat
    \<Rightarrow> u128 list" where
  "masked_lanes km new old w lane_mask per_chunk chunks [] e = []"
| "masked_lanes km new old w lane_mask per_chunk chunks (c # cs) e =
     (if c \<ge> chunks then replicate (length (c # cs)) 0
      else let (acc, e') = masked_elems km (new ! c) (old ! c) w lane_mask [0..<per_chunk] (0, e)
           in acc # masked_lanes km new old w lane_mask per_chunk chunks cs e')"

definition write_masked ::
    "nat \<Rightarrow> u128 list \<Rightarrow> nat \<Rightarrow> nat \<Rightarrow> bool \<Rightarrow> nat \<Rightarrow> CpuState \<Rightarrow> CpuState" where
  "write_masked reg newval k elem zeroing n cpu =
     (let km = kmask cpu k;
          old = (if zeroing then [0, 0, 0, 0] else vec_lanes cpu reg);
          w = elem * 8;
          lane_mask = (if w \<ge> 128 then - 1 else push_bit w 1 - 1);
          per_chunk = 128 div w;
          chunks = n div 16
      in set_vec reg (masked_lanes km newval old w lane_mask per_chunk chunks [0, 1, 2, 3] 0) n cpu)"

subsection \<open>General-purpose registers\<close>

definition write_gpr :: "nat \<Rightarrow> u64 \<Rightarrow> nat \<Rightarrow> CpuState \<Rightarrow> CpuState option" where
  "write_gpr i val sz cpu =
     (if i \<ge> 16 then None
      else
        let cur = gpr cpu i
        in map_option (\<lambda>v. cpu\<lparr>gpr := (gpr cpu)(i := v)\<rparr>)
          (if sz = 8 then Some val
           else if sz = 4 then Some (val AND 0xFFFFFFFF)
           else if sz = 2 then Some ((cur AND NOT 0xFFFF) OR (val AND 0xFFFF))
           else if sz = 1 then Some ((cur AND NOT 0xFF) OR (val AND 0xFF))
           else None))"

section \<open>Facts about the flags\<close>

lemma count_ones_src [simp]:
  "count_ones PF_SRC_ONE = 0" "count_ones PF_SRC_ZERO = 1"
  unfolding PF_SRC_ONE_def PF_SRC_ZERO_def by code_simp+

lemma pf_set_pf [simp]: "pf (set_pf v f) = v"
  by (simp add: pf_def set_pf_def)

lemma af_set_af [simp]: "af (set_af v f) = v"
  by (simp add: af_def set_af_def AF_SRC_ONE_def AF_SRC_ZERO_def)

lemma flags_set [simp]:
  "pf (set_af v f) = pf f" "af (set_pf v f) = af f"
  "pf (f\<lparr>flag_cf := b\<rparr>) = pf f" "af (f\<lparr>flag_cf := b\<rparr>) = af f"
  "pf (f\<lparr>flag_zf := b\<rparr>) = pf f" "af (f\<lparr>flag_zf := b\<rparr>) = af f"
  "pf (f\<lparr>flag_sf := b\<rparr>) = pf f" "af (f\<lparr>flag_sf := b\<rparr>) = af f"
  "pf (f\<lparr>flag_of := b\<rparr>) = pf f" "af (f\<lparr>flag_of := b\<rparr>) = af f"
  "pf (f\<lparr>flag_df := b\<rparr>) = pf f" "af (f\<lparr>flag_df := b\<rparr>) = af f"
  "pf (f\<lparr>flag_if := b\<rparr>) = pf f" "af (f\<lparr>flag_if := b\<rparr>) = af f"
  by (simp_all add: pf_def af_def set_pf_def set_af_def)

lemma flag_fields_set [simp]:
  "flag_cf (set_pf v f) = flag_cf f" "flag_cf (set_af v f) = flag_cf f"
  "flag_zf (set_pf v f) = flag_zf f" "flag_zf (set_af v f) = flag_zf f"
  "flag_sf (set_pf v f) = flag_sf f" "flag_sf (set_af v f) = flag_sf f"
  "flag_of (set_pf v f) = flag_of f" "flag_of (set_af v f) = flag_of f"
  "flag_df (set_pf v f) = flag_df f" "flag_df (set_af v f) = flag_df f"
  "flag_if (set_pf v f) = flag_if f" "flag_if (set_af v f) = flag_if f"
  by (simp_all add: set_pf_def set_af_def)

lemma bit_2_u16: "bit (2 :: 16 word) n \<longleftrightarrow> n = 1"
  by (auto simp: bit_2_iff)

lemma bit_to_flags16 [bit_rules]:
  "bit (to_flags16 f) n \<longleftrightarrow>
     n = 0 \<and> flag_cf f \<or> n = 1 \<or> n = 2 \<and> pf f \<or> n = 4 \<and> af f \<or> n = 6 \<and> flag_zf f
     \<or> n = 7 \<and> flag_sf f \<or> n = 9 \<and> flag_if f \<or> n = 10 \<and> flag_df f \<or> n = 11 \<and> flag_of f"
  unfolding to_flags16_def
  by (simp add: bit_or_iff bit_push_of_flag bit_2_u16 del: bit_numeral_word_iff) blast

lemma set_flags16_fields [simp]:
  "flag_cf (set_flags16 img f) = bit img 0"
  "pf (set_flags16 img f) = bit img 2"
  "af (set_flags16 img f) = bit img 4"
  "flag_zf (set_flags16 img f) = bit img 6"
  "flag_sf (set_flags16 img f) = bit img 7"
  "flag_if (set_flags16 img f) = bit img 9"
  "flag_df (set_flags16 img f) = bit img 10"
  "flag_of (set_flags16 img f) = bit img 11"
  by (simp_all add: set_flags16_def Let_def)

text \<open>
  Property C19: pushing FLAGS as a 16-bit image and popping the image again restores every flag,
  whatever the flags were in between.
\<close>
theorem flags16_restores: "flags_eq (set_flags16 (to_flags16 f) g) f"
  by (simp add: flags_eq_def bit_rules)

text \<open>
  Property C20: popping an arbitrary 16-bit image and pushing FLAGS again gives the image
  restricted to the eight modelled flags, with the reserved bit 1 set.
\<close>
theorem flags16_image: "to_flags16 (set_flags16 img f) = (img AND 0x0ED5) OR 2"
proof (rule bit_word_eqI)
  fix n assume "n < LENGTH(16)"
  then have "n < 16" by simp
  show "bit (to_flags16 (set_flags16 img f)) n \<longleftrightarrow> bit ((img AND 0x0ED5) OR 2) n"
    using less_16_cases [OF \<open>n < 16\<close>]
    by (elim disjE) (simp_all add: bit_rules bit_or_iff bit_and_iff)
qed

section \<open>Facts about the general-purpose registers\<close>

lemma gpr_index_less [simp]: "gpr_index r = Some i \<Longrightarrow> i < 16"
  by (cases r) auto

text \<open>
  Property C21: the index table and the register-to-index match are inverse to each other, and
  exactly the sixteen general-purpose registers have an index.
\<close>
theorem gpr_index_from: "from_gpr_index i = Some r \<longleftrightarrow> gpr_index r = Some i"
proof -
  have "from_gpr_index i = Some r \<longleftrightarrow> gpr_index r = Some i" if "i < 16"
    using less_16_cases [OF that]
    by (elim disjE) (cases r; simp add: from_gpr_index_def GPR_BY_INDEX_def)+
  moreover have "\<not> i < 16 \<Longrightarrow> from_gpr_index i = None"
    by (simp add: from_gpr_index_def GPR_BY_INDEX_def)
  moreover have "gpr_index r = Some i \<Longrightarrow> i < 16"
    by (cases r) auto
  ultimately show ?thesis by (cases "i < 16") auto
qed

definition merge_gpr :: "nat \<Rightarrow> u64 \<Rightarrow> u64 \<Rightarrow> u64" where
  "merge_gpr sz old val =
     (if sz < 4 then (old AND NOT (mask (8 * sz))) OR take_bit (8 * sz) val else take_bit (8 * sz) val)"

lemma write_gpr_merge:
  assumes "i < 16" and "valid_size sz"
  shows "write_gpr i val sz cpu = Some (cpu\<lparr>gpr := (gpr cpu)(i := merge_gpr sz (gpr cpu i) val)\<rparr>)"
  using assms by (auto simp: valid_size_def write_gpr_def merge_gpr_def and_mask_numerals and_NOT_mask take_bit_word_eq_self)

lemma bit_merge_gpr:
  assumes "valid_size sz"
  shows "bit (merge_gpr sz old val) n \<longleftrightarrow> (if n < 8 * sz then bit val n else sz < 4 \<and> bit old n)"
  using assms by (auto simp: merge_gpr_def bit_simps valid_size_def dest: bit_imp_le_length)

section \<open>The mmio answer table\<close>

text \<open>Well-formedness of the answer table: the used prefix has no duplicate address.\<close>

definition mmio_inv :: "CpuState \<Rightarrow> bool" where
  "mmio_inv cpu \<longleftrightarrow> length (mmio_parts cpu) = 8 \<and> mmio_parts_len cpu \<le> 8
     \<and> distinct (map fst (take (mmio_parts_len cpu) (mmio_parts cpu)))"

lemma mmio_part_map_of:
  "mmio_part cpu at addr =
     (if mmio_parts_rip cpu \<noteq> at then None
      else map_of (take (mmio_parts_len cpu) (mmio_parts cpu)) addr)"
  by (simp add: mmio_part_def find_fst_map_of)

lemma record_mmio_part_inv: "mmio_inv cpu \<Longrightarrow> mmio_inv (record_mmio_part at addr v cpu)"
  by (auto simp: mmio_inv_def record_mmio_part_def Let_def mmio_part_map_of map_of_eq_None_iff
      take_Suc_conv_app_nth nth_list_update)

text \<open>
  Property C22: recording an answer makes exactly that answer visible to the retried instruction;
  the first answer for an address wins, a full table drops the answer, and recording for another
  instruction forgets the answers of the previous one.
\<close>
theorem mmio_part_record:
  assumes "mmio_inv cpu"
  shows "mmio_part (record_mmio_part at addr v cpu) at k =
     (if mmio_parts_rip cpu = at
      then (if k = addr \<and> mmio_part cpu at addr = None \<and> mmio_parts_len cpu < 8 then Some v
            else mmio_part cpu at k)
      else if k = addr then Some v else None)"
  using assms
  by (auto simp: mmio_inv_def record_mmio_part_def Let_def mmio_part_map_of 
      take_Suc_conv_app_nth nth_list_update map_add_def split: option.splits)

theorem mmio_part_record_witness:
  "mmio_part (record_mmio_part 0x40 0x1000 7 cpu_default) 0x40 0x1000 = Some 7 \<and>
   mmio_part (record_mmio_part 0x40 0x1000 7 cpu_default) 0x40 0x1008 = None"
  using mmio_part_record [of cpu_default "0x40" "0x1000" 7 "0x1000"] mmio_part_record [of cpu_default "0x40" "0x1000" 7 "0x1008"]
  by (simp add: mmio_inv_def cpu_default_def)

section \<open>Masked vector writes\<close>

text \<open>The element read of the interpreter (\<open>get_velem\<close>), the observation masked writes are stated with.\<close>

definition get_velem :: "u128 list \<Rightarrow> nat \<Rightarrow> nat \<Rightarrow> u64" where
  "get_velem lanes i elem =
     (let byte = i * elem; lane = byte div 16; sh = (byte mod 16) * 8;
          m = (if elem = 8 then - 1 else push_bit (elem * 8) 1 - 1)
      in ucast (drop_bit sh (lanes ! lane)) AND m)"

lemma masked_elems_append:
  "masked_elems km new old w m (xs @ ys) s = masked_elems km new old w m ys (masked_elems km new old w m xs s)"
  by (induction xs arbitrary: s) (auto simp: Let_def)

lemma snd_masked_elems: "snd (masked_elems km new old w m xs (acc, e)) = e + length xs"
  by (induction xs arbitrary: acc e) (auto simp: Let_def)

lemma bit_masked_elems:
  assumes "0 < w" "m * w \<le> 128"
  shows "bit (fst (masked_elems km new old w (mask w) [0..<m] (0, e))) n \<longleftrightarrow>
     n < m * w \<and> bit (if bit km (e + n div w) then new else old) n"
  using assms(2)
proof (induction m)
  case 0
  show ?case by simp
next
  case (Suc m)
  let ?P = "masked_elems km new old w (mask w) [0..<m] (0, e)"
  have IH: "bit (fst ?P) n \<longleftrightarrow> n < m * w \<and> bit (if bit km (e + n div w) then new else old) n"
    using Suc by simp
  have step: "masked_elems km new old w (mask w) [0..<Suc m] (0, e) =
     (fst ?P OR push_bit (m * w) (take_bit w (drop_bit (m * w) (if bit km (e + m) then new else old))), e + Suc m)"
    using snd_masked_elems [of km new old w "mask w" "[0..<m]" 0 e]
    by (cases ?P) (simp add: masked_elems_append Let_def and_mask_word drop_bit_and_1_eq_0 bit_drop_bit_eq)
  have "n div w = m" if "m * w \<le> n" "n < Suc m * w"
    using that by (intro div_nat_eqI) (simp_all add: mult.commute)
  with IH Suc.prems show ?case
    unfolding step by (auto simp: bit_simps algebra_simps)
qed

lemma bit_get_velem:
  assumes "valid_size elem"
  shows "bit (get_velem lanes i elem) b \<longleftrightarrow>
    b < 8 * elem \<and> bit (lanes ! (i * elem div 16)) ((i * elem mod 16) * 8 + b)"
proof -
  have "bit (get_velem lanes i elem) b \<longleftrightarrow> b < 8 * elem \<and> b < 64 \<and> bit (lanes ! (i * elem div 16)) ((i * elem mod 16) * 8 + b)"
    by (auto simp: get_velem_def Let_def bit_simps and_mask_word mult.commute)
  then show ?thesis using assms by (auto simp: valid_size_def)
qed

lemma masked_lanes_upt:
  "masked_lanes km new old w m per chunks [c..<d] (c * per) =
    map (\<lambda>c. if c < chunks then fst (masked_elems km (new ! c) (old ! c) w m [0..<per] (0, c * per)) else 0)
     [c..<d]"
proof (induction "d - c" arbitrary: c)
  case 0
  then show ?case by simp
next
  case (Suc k)
  let ?E = "masked_elems km (new ! c) (old ! c) w m [0..<per] (0, c * per)"
  have snd: "snd ?E = Suc c * per" by (simp add: snd_masked_elems)
  have upt: "[c..<d] = c # [Suc c..<d]" using Suc.hyps(2) by (simp add: upt_rec)
  have zeros: "map (\<lambda>c. if c < chunks then f c else 0) [Suc c..<d] = replicate (d - Suc c) (0 :: u128)"
    if "chunks \<le> c" for f
    using that by (intro nth_equalityI) auto
  show ?case
    unfolding upt using Suc.hyps(1) [of "Suc c"] Suc.hyps(2) snd zeros
    by (cases ?E) auto
qed

lemma bit_masked_lane:
  assumes "valid_size elem" "c < 4" 
  shows "bit (masked_lanes km new old (elem * 8) (mask (elem * 8)) (128 div (elem * 8)) chunks [0, 1, 2, 3] 0 ! c) p \<longleftrightarrow>
     c < chunks \<and> p < 128 \<and> bit (if bit km (c * (16 div elem) + p div (elem * 8)) then new ! c else old ! c) p"
proof -
  have w: "0 < elem * 8" "(128 div (elem * 8)) * (elem * 8) = 128" "128 div (elem * 8) = 16 div elem"
    using assms(1) by (auto simp: valid_size_def)
  have c: "c = 0 \<or> c = 1 \<or> c = 2 \<or> c = 3" using assms(2) by auto
  have nth: "map f [0, 1, 2, 3] ! c = f c" for f :: "nat \<Rightarrow> u128"
    using c by auto
  have "[0, 1, 2, 3] = [0..<4 :: nat]" by (simp add: upt_rec)
  then have lanes: "masked_lanes km new old w' m per chunks [0, 1, 2, 3] 0 =
      map (\<lambda>c. if c < chunks then fst (masked_elems km (new ! c) (old ! c) w' m [0..<per] (0, c * per)) else 0)
        [0, 1, 2, 3]" for w' m per
    using masked_lanes_upt [of km new old w' m per chunks 0 4] by simp
  have "bit (masked_lanes km new old (elem * 8) (mask (elem * 8)) (128 div (elem * 8)) chunks [0, 1, 2, 3] 0 ! c) p \<longleftrightarrow>
     c < chunks \<and> p < 128 \<and> bit (if bit km (c * (128 div (elem * 8)) + p div (elem * 8)) then new ! c else old ! c) p"
    unfolding lanes nth
    by (simp only: bit_masked_elems [OF w(1)] w(2) split: if_split) simp
  then show ?thesis by (simp only: w(3))
qed

lemma elem_position:
  assumes "valid_size elem" "b < 8 * elem"
  shows "(i * elem mod 16) * 8 + b < 128"
    "(i * elem div 16) * (16 div elem) + ((i * elem mod 16) * 8 + b) div (elem * 8) = i"
proof -
  define per q r where "per = 16 div elem" and "q = i div per" and "r = i mod per"
  have per: "per * elem = 16" "0 < per"
    using assms(1) by (auto simp: valid_size_def per_def)
  have i: "i = q * per + r" and r: "r < per"
    using per by (simp_all add: q_def r_def)
  have "i * elem = q * 16 + r * elem"
    unfolding i using per(1) by (simp add: distrib_right mult.assoc)
  moreover have re: "Suc r * elem \<le> 16"
    using mult_le_mono1 [of "Suc r" per elem] r per(1) by simp
  then have "r * elem < 16" using assms(2) by (cases "elem = 0") auto
  ultimately have m: "i * elem mod 16 = r * elem" "i * elem div 16 = q" by auto
  have "(r * elem * 8 + b) div (elem * 8) = r"
    using assms(2) by (intro div_nat_eqI) (simp_all add: algebra_simps)
  then show "(i * elem mod 16) * 8 + b < 128"
    "(i * elem div 16) * (16 div elem) + ((i * elem mod 16) * 8 + b) div (elem * 8) = i"
    unfolding m using assms(2) re by (simp_all add: i per_def [symmetric])
qed

lemma vec_lanes_set_vec:
  assumes "n = 16 \<or> n = 32 \<or> n = 64" "c < 4"
  shows "vec_lanes (set_vec reg v n cpu) reg ! c = (if c < n div 16 then v ! c else 0)"
  using assms(1) less_4_cases [OF assms(2)]
  by (elim disjE) (simp_all add: vec_lanes_def set_vec_def numeral_2_eq_2 numeral_3_eq_3)

text \<open>
  Property C23: a masked vector write updates element \<open>i\<close> exactly when bit \<open>i\<close> of the opmask is set;
  the other elements of the operand are zeroed or kept according to the zeroing flag, and everything
  above the operand's width is cleared.
\<close>
theorem write_masked_elem:
  assumes "valid_size elem" "n = 16 \<or> n = 32 \<or> n = 64" "i * elem < 64"
  shows "get_velem (vec_lanes (write_masked reg newval k elem zeroing n cpu) reg) i elem =
    (if i * elem < n then
       if bit (kmask cpu k) i then get_velem newval i elem
       else if zeroing then 0 else get_velem (vec_lanes cpu reg) i elem
     else 0)"
proof (rule bit_word_eqI)
  fix b assume "b < LENGTH(64)"
  let ?c = "i * elem div 16" and ?p = "(i * elem mod 16) * 8 + b"
  let ?old = "if zeroing then [0, 0, 0, 0] else vec_lanes cpu reg"
  have c: "?c < 4" using assms(3) by auto
  have lm: "(if 128 \<le> elem * 8 then - 1 else push_bit (elem * 8) 1 - 1 :: u128) = mask (elem * 8)"
    using assms(1) by (auto simp: valid_size_def)
  have lane: "vec_lanes (write_masked reg newval k elem zeroing n cpu) reg ! ?c =
    (if ?c < n div 16 then masked_lanes (kmask cpu k) newval ?old (elem * 8) (mask (elem * 8)) (128 div (elem * 8)) (n div 16) [0, 1, 2, 3] 0 ! ?c else 0)"
    unfolding write_masked_def Let_def lm using vec_lanes_set_vec [OF assms(2) c] by simp
  have cn: "?c < n div 16 \<longleftrightarrow> i * elem < n" using assms(2) by auto
  have zero: "[0, 0, 0, 0] ! ?c = (0 :: u128)"
  proof -
    have "?c = 0 \<or> ?c = 1 \<or> ?c = 2 \<or> ?c = 3" using c by linarith
    then show ?thesis by (elim disjE) simp_all
  qed
  show "bit (get_velem (vec_lanes (write_masked reg newval k elem zeroing n cpu) reg) i elem) b =
     bit (if i * elem < n then
       if bit (kmask cpu k) i then get_velem newval i elem
       else if zeroing then 0 else get_velem (vec_lanes cpu reg) i elem
     else 0) b"
  proof (cases "b < 8 * elem \<and> i * elem < n")
    case True
    then have b: "b < 8 * elem" by simp
    show ?thesis
      unfolding bit_get_velem [OF assms(1)] lane
      using True cn zero bit_masked_lane [OF assms(1) c, of "kmask cpu k" newval ?old "n div 16" ?p]
      by (simp add: elem_position [OF assms(1) b] bit_get_velem [OF assms(1)])
  next
    case False
    then show ?thesis
      unfolding bit_get_velem [OF assms(1)] lane using cn by (auto simp: bit_get_velem [OF assms(1)])
  qed
qed

theorem write_masked_elem_witness:
  "get_velem (vec_lanes (write_masked 0 [0xAABB, 0, 0, 0] 1 1 True 16 (cpu_default\<lparr>kmask := (\<lambda>_. 1)\<rparr>)) 0) 0 1 = 0xBB \<and>
   get_velem (vec_lanes (write_masked 0 [0xAABB, 0, 0, 0] 1 1 True 16 (cpu_default\<lparr>kmask := (\<lambda>_. 1)\<rparr>)) 0) 1 1 = 0"
  using write_masked_elem [of 1 16 0 0 "[0xAABB, 0, 0, 0]" 1 True "cpu_default\<lparr>kmask := (\<lambda>_. 1)\<rparr>"]
    write_masked_elem [of 1 16 1 0 "[0xAABB, 0, 0, 0]" 1 True "cpu_default\<lparr>kmask := (\<lambda>_. 1)\<rparr>"]
  by (simp add: valid_size_def get_velem_def)

end
