(* ===== verification/X86_Ir.thy ===== *)
theory X86_Ir
  imports X86_State
begin

text \<open>
  The intermediate representation (\<^verbatim>\<open>ir.rs\<close>) and the exit reasons (\<^verbatim>\<open>exit.rs\<close>).  An operation is a
  constructor of \<open>IrOp\<close> with the fields of the source in the source's order.  The constructors are
  the integer, memory, string, control-flow and real-mode operations; the vector and x87 operations
  (\<^verbatim>\<open>V*\<close>, \<^verbatim>\<open>X87\<close>, \<^verbatim>\<open>FxState\<close>) are not part of this datatype.  Names that would clash with each
  other in one namespace carry the name of their enum (\<open>RmwAdd\<close>, \<open>BtSet\<close>, \<open>OpTrap\<close>).
\<close>

section \<open>Operands, conditions and flag masks\<close>

datatype Val = Temp nat | Imm u64

datatype MemOrder = OrderNone | Release | Acquire

datatype Cond =
    Eq | Ne | Below | BelowEq | Above | AboveEq | Less | LessEq | Greater | GreaterEq
  | Sign | NoSign | Overflow | NoOverflow | Parity | NoParity

text \<open>A flag mask is the source's \<^verbatim>\<open>u8\<close>: CF = 1, PF = 2, AF = 4, ZF = 8, SF = 16, OF = 32.\<close>

type_synonym FlagMask = u8

definition FM_NONE :: FlagMask where "FM_NONE = 0"
definition FM_ALL :: FlagMask where "FM_ALL = 0x3F"
definition FM_ALL_BUT_CF :: FlagMask where "FM_ALL_BUT_CF = 0x3E"
definition FM_SHIFT :: FlagMask where "FM_SHIFT = 0x3B"
definition FM_CF_OF :: FlagMask where "FM_CF_OF = 0x21"

definition is_none :: "FlagMask \<Rightarrow> bool" where
  "is_none m \<longleftrightarrow> m = 0"

section \<open>Operation selectors\<close>

datatype BitScanOp = Bsf | Bsr | Tzcnt | Lzcnt

datatype BmiOp = Andn | Blsi | Blsr | Blsmsk | Bextr | Bzhi | Pdep | Pext

definition writes_flags :: "BmiOp \<Rightarrow> bool" where
  "writes_flags op \<longleftrightarrow> \<not> (op = Pdep \<or> op = Pext)"

datatype BtOp = BtTest | BtSet | BtReset | BtComplement

datatype RmwOp = RmwAdd | RmwSub | RmwRsub | RmwAnd | RmwOr | RmwXor | RmwXchg

datatype StrOp = Movs | Stos | Scas | Cmps | Lods

datatype RepKind = RepNone | Rep | Repe | Repne

datatype BcdKind = Daa | Das | Aaa | Aas | Aam u8 | Aad u8

datatype LoopKind = Loop | Loope | Loopne | Jcxz

section \<open>Operations\<close>

datatype (plugins only: size) IrOp =
    InsnStart u64
  | ReadReg nat Reg
  | WriteReg Reg Val nat
  | Add nat Val Val nat FlagMask
  | Sub nat Val Val nat FlagMask
  | Adc nat Val Val nat FlagMask
  | Sbb nat Val Val nat FlagMask
  | And nat Val Val nat FlagMask
  | Or nat Val Val nat FlagMask
  | Xor nat Val Val nat FlagMask
  | Shl nat Val Val nat FlagMask
  | Shr nat Val Val nat FlagMask
  | Sar nat Val Val nat FlagMask
  | DoubleShift nat Val Val Val nat bool FlagMask
  | Rol nat Val Val nat FlagMask
  | Ror nat Val Val nat FlagMask
  | Rcl nat Val Val nat FlagMask
  | Rcr nat Val Val nat FlagMask
  | Sext nat Val nat
  | Bswap nat Val nat
  | Mul nat nat Val Val nat bool FlagMask
  | Div nat nat Val Val Val nat bool
  | GetCond nat Cond
  | Load nat Val nat
  | Store Val Val nat MemOrder
  | Bt nat Val Val nat BtOp
  | Cpuid
  | Xgetbv
  | Popcnt nat Val nat
  | Crc32 nat Val Val nat
  | BitScan nat Val Val nat BitScanOp
  | Bmi nat Val Val nat BmiOp
  | AtomicRmw nat Val Val nat RmwOp
  | AtomicCas nat Val Val Val nat
  | SetDf bool
  | SetIf bool
  | PushfReal
  | PopfReal
  | IntGate u8 u64
  | IntoGate u64
  | BoundGate Val Val Val u64 u64
  | SegLimitCheck Val nat u8 u64
  | IretReal
  | SetCf "bool option"
  | Bcd BcdKind
  | LoopCx LoopKind u64 u64
  | FarJump Val Val
  | FarCall Val Val u16
  | FarRet u16
  | RepString StrOp nat RepKind nat Val
  | RepStringReal StrOp nat RepKind Val Val
  | Lahf
  | Sahf
  | PushaReal
  | PopaReal
  | EnterReal u16 u8
  | Jump Val
  | Branch Cond u64 u64
  | Call Val u64 nat bool
  | Ret nat u16 bool
  | Syscall bool
  | Hlt
  | OpTrap u8 u8
  | PortIo Val Val nat bool

section \<open>Blocks and regions\<close>

record IrBlock =
  guest_start :: u64
  ops :: "IrOp list"
  temp_count :: nat
  guest_len :: u32
  icount :: u32

record RegionCaps =
  max_blocks :: nat
  max_icount :: u32

record IrRegion =
  entry :: u64
  blocks :: "IrBlock list"
  has_loop :: bool

definition spans :: "IrRegion \<Rightarrow> (u64 \<times> u32) list" where
  "spans r = map (\<lambda>b. (guest_start b, guest_len b)) (blocks r)"

section \<open>Exit reasons\<close>

datatype AccessKind = AccRead | AccWrite | AccExecute

datatype PortDir = PortIn | PortOut

datatype Exit =
    ExSyscall
  | ExHlt
  | ExUnmappedMemory u64 AccessKind
  | ExMmioRead u64 nat
  | ExMmioWrite u64 nat u64
  | ExUnknownInstruction u64 "u8 list" nat
  | ExException u64 u8
  | ExPortIo u16 nat PortDir u64
  | ExBudgetExhausted

datatype StepResult = Continue | StepExit Exit

end
