(* ===== verification/X86_Alu.thy ===== *)
theory X86_Alu
  imports X86_Ir "HOL-Library.Signed_Division"
begin

text \<open>
  The pure integer helpers of the interpreter (\<^verbatim>\<open>interp/mod.rs\<close>): operand masks, the add, subtract, logic,
  shift and rotate results with their candidate flags, the flag update, the sixteen conditions, division,
  the bit-manipulation group, CRC-32C, and the two identification instructions.  Operand sizes are bytes
  (1, 2, 4 or 8); a Rust \<^verbatim>\<open>i128\<close> that is known to be in range is an \<open>int\<close>.
\<close>

unbundle bit_operations_syntax

section \<open>Register numbers\<close>

definition RAX :: nat where "RAX = 0"
definition RCX :: nat where "RCX = 1"
definition RDX :: nat where "RDX = 2"
definition RBX :: nat where "RBX = 3"
definition RSP :: nat where "RSP = 4"
definition RBP :: nat where "RBP = 5"
definition RSI :: nat where "RSI = 6"
definition RDI :: nat where "RDI = 7"
definition R11_index :: nat where "R11_index = 11"

lemmas reg_defs = RAX_def RCX_def RDX_def RBX_def RSP_def RBP_def RSI_def RDI_def R11_index_def

section \<open>Masks and sign extension\<close>

definition size_mask :: "nat \<Rightarrow> u64" where
  "size_mask sz = (if sz \<ge> 8 then - 1 else push_bit (sz * 8) 1 - 1)"

definition shift_mask :: "nat \<Rightarrow> u64" where
  "shift_mask sz = (if sz = 8 then 63 else 31)"

definition sign_bit :: "nat \<Rightarrow> u64" where
  "sign_bit sz = push_bit (sz * 8 - 1) 1"

definition sign_extend_128 :: "u128 \<Rightarrow> nat \<Rightarrow> u128" where
  "sign_extend_128 v n = (if n \<ge> 128 then v else signed_drop_bit (128 - n) (push_bit (128 - n) v))"

definition sign_extend :: "u64 \<Rightarrow> nat \<Rightarrow> u64" where
  "sign_extend v from =
     (if from \<ge> 8 then v
      else let shift = 64 - from * 8 in signed_drop_bit shift (push_bit shift v))"

definition parity :: "u64 \<Rightarrow> bool" where
  "parity v \<longleftrightarrow> count_ones (ucast v :: u8) mod 2 = 0"

section \<open>Results with candidate flags\<close>

record AluResult =
  res :: u64
  res_cf :: bool
  res_pf :: bool
  res_af :: bool
  res_zf :: bool
  res_sf :: bool
  res_of :: bool

definition alu_add :: "u64 \<Rightarrow> u64 \<Rightarrow> u64 \<Rightarrow> nat \<Rightarrow> AluResult" where
  "alu_add a0 b0 carry_in sz =
     (let m = size_mask sz;
          a = a0 AND m;
          b = b0 AND m;
          wide = (ucast a + ucast b + ucast carry_in :: u128);
          r = ucast wide AND m;
          sb = sign_bit sz
      in \<lparr>res = r,
          res_cf = drop_bit (sz * 8) wide AND 1 \<noteq> 0,
          res_pf = parity r,
          res_af = ((a AND 0xF) + (b AND 0xF) + carry_in) AND 0x10 \<noteq> 0,
          res_zf = (r = 0),
          res_sf = (r AND sb \<noteq> 0),
          res_of = ((NOT (a XOR b) AND (a XOR r)) AND sb \<noteq> 0)\<rparr>)"

definition alu_sub :: "u64 \<Rightarrow> u64 \<Rightarrow> u64 \<Rightarrow> nat \<Rightarrow> AluResult" where
  "alu_sub a0 b0 borrow_in sz =
     (let m = size_mask sz;
          a = a0 AND m;
          b = b0 AND m;
          wide = (ucast a - ucast b - ucast borrow_in :: u128);
          r = ucast wide AND m;
          sb = sign_bit sz
      in \<lparr>res = r,
          res_cf = (ucast a :: u128) < ucast b + ucast borrow_in,
          res_pf = parity r,
          res_af = (a AND 0xF) < (b AND 0xF) + borrow_in,
          res_zf = (r = 0),
          res_sf = (r AND sb \<noteq> 0),
          res_of = (((a XOR b) AND (a XOR r)) AND sb \<noteq> 0)\<rparr>)"

definition cf_of :: "u64 \<Rightarrow> bool \<Rightarrow> bool \<Rightarrow> AluResult" where
  "cf_of r cf ov =
     \<lparr>res = r, res_cf = cf, res_pf = False, res_af = False, res_zf = False, res_sf = False, res_of = ov\<rparr>"

definition shift_result :: "u64 \<Rightarrow> nat \<Rightarrow> bool \<Rightarrow> bool \<Rightarrow> AluResult" where
  "shift_result r sz cf ov =
     \<lparr>res = r, res_cf = cf, res_pf = parity r, res_af = False, res_zf = (r = 0),
      res_sf = (r AND sign_bit sz \<noteq> 0), res_of = ov\<rparr>"

definition alu_logic :: "u64 \<Rightarrow> nat \<Rightarrow> AluResult" where
  "alu_logic r0 sz =
     (let r = r0 AND size_mask sz
      in \<lparr>res = r, res_cf = False, res_pf = parity r, res_af = False, res_zf = (r = 0),
          res_sf = (r AND sign_bit sz \<noteq> 0), res_of = False\<rparr>)"

text \<open>The flag update (\<^verbatim>\<open>apply\<close>): only the flags the mask names change.\<close>

definition apply_flags :: "FlagMask \<Rightarrow> AluResult \<Rightarrow> Flags \<Rightarrow> Flags" where
  "apply_flags m r f =
     (if is_none m then f
      else
        let f1 = (if m AND 1 \<noteq> 0 then f\<lparr>flag_cf := res_cf r\<rparr> else f);
            f2 = (if m AND 2 \<noteq> 0 then set_pf (res_pf r) f1 else f1);
            f3 = (if m AND 4 \<noteq> 0 then set_af (res_af r) f2 else f2);
            f4 = (if m AND 8 \<noteq> 0 then f3\<lparr>flag_zf := res_zf r\<rparr> else f3);
            f5 = (if m AND 16 \<noteq> 0 then f4\<lparr>flag_sf := res_sf r\<rparr> else f4)
        in if m AND 32 \<noteq> 0 then f5\<lparr>flag_of := res_of r\<rparr> else f5)"

fun eval_cond :: "Cond \<Rightarrow> Flags \<Rightarrow> bool" where
  "eval_cond Eq f = flag_zf f"
| "eval_cond Ne f = (\<not> flag_zf f)"
| "eval_cond Below f = flag_cf f"
| "eval_cond AboveEq f = (\<not> flag_cf f)"
| "eval_cond BelowEq f = (flag_cf f \<or> flag_zf f)"
| "eval_cond Above f = (\<not> flag_cf f \<and> \<not> flag_zf f)"
| "eval_cond Less f = (flag_sf f \<noteq> flag_of f)"
| "eval_cond GreaterEq f = (flag_sf f = flag_of f)"
| "eval_cond LessEq f = (flag_sf f \<noteq> flag_of f \<or> flag_zf f)"
| "eval_cond Greater f = (flag_sf f = flag_of f \<and> \<not> flag_zf f)"
| "eval_cond Sign f = flag_sf f"
| "eval_cond NoSign f = (\<not> flag_sf f)"
| "eval_cond Overflow f = flag_of f"
| "eval_cond NoOverflow f = (\<not> flag_of f)"
| "eval_cond Parity f = pf f"
| "eval_cond NoParity f = (\<not> pf f)"

section \<open>Rotates\<close>

definition rotl :: "u64 \<Rightarrow> nat \<Rightarrow> nat \<Rightarrow> u64" where
  "rotl v cnt sz =
     (if sz = 1 then ucast (word_rotl cnt (ucast v :: u8))
      else if sz = 2 then ucast (word_rotl cnt (ucast v :: u16))
      else if sz = 4 then ucast (word_rotl cnt (ucast v :: u32))
      else word_rotl cnt v)"

definition rotr :: "u64 \<Rightarrow> nat \<Rightarrow> nat \<Rightarrow> u64" where
  "rotr v cnt sz =
     (if sz = 1 then ucast (word_rotr cnt (ucast v :: u8))
      else if sz = 2 then ucast (word_rotr cnt (ucast v :: u16))
      else if sz = 4 then ucast (word_rotr cnt (ucast v :: u32))
      else word_rotr cnt v)"

text \<open>The bit-serial rotates through CF; \<open>cnt\<close> is the number of rounds left.\<close>

fun rcl :: "u64 \<Rightarrow> nat \<Rightarrow> bool \<Rightarrow> nat \<Rightarrow> u64 \<times> bool" where
  "rcl v 0 cf sz = (v, cf)"
| "rcl v (Suc cnt) cf sz =
     (let msb = drop_bit (sz * 8 - 1) v AND 1 \<noteq> 0
      in rcl ((push_bit 1 v OR of_flag cf) AND size_mask sz) cnt msb sz)"

fun rcr :: "u64 \<Rightarrow> nat \<Rightarrow> bool \<Rightarrow> nat \<Rightarrow> u64 \<times> bool" where
  "rcr v 0 cf sz = (v, cf)"
| "rcr v (Suc cnt) cf sz =
     (let lsb = v AND 1 \<noteq> 0
      in rcr (drop_bit 1 v OR push_bit (sz * 8 - 1) (of_flag cf)) cnt lsb sz)"

section \<open>Division\<close>

definition checked_div :: "int \<Rightarrow> int \<Rightarrow> int option" where
  "checked_div a b = (if b = 0 \<or> (a = - (2 ^ 127) \<and> b = - 1) then None else Some (a sdiv b))"

definition checked_rem :: "int \<Rightarrow> int \<Rightarrow> int option" where
  "checked_rem a b = (if b = 0 \<or> (a = - (2 ^ 127) \<and> b = - 1) then None else Some (a smod b))"

definition divide :: "u64 \<Rightarrow> u64 \<Rightarrow> u64 \<Rightarrow> nat \<Rightarrow> bool \<Rightarrow> (u64 \<times> u64) option" where
  "divide hi lo divisor sz is_signed =
     (let m = size_mask sz;
          n = sz * 8;
          d = divisor AND m
      in if d = 0 then None
         else
           let dividend = (push_bit n (ucast (hi AND m)) OR ucast (lo AND m) :: u128)
           in if is_signed then
                let dv = sint (sign_extend d sz);
                    sd = sint (sign_extend_128 dividend (2 * n));
                    lim = 2 ^ (n - 1)
                in case (checked_div sd dv, checked_rem sd dv) of
                     (Some q, Some r) \<Rightarrow>
                       if q < - lim \<or> q \<ge> lim then None
                       else Some (of_int q AND m, of_int r AND m)
                   | _ \<Rightarrow> None
              else
                let q = dividend div ucast d; r = dividend mod ucast d
                in if q > ucast m then None else Some (ucast q, ucast r))"

section \<open>Bit manipulation\<close>

text \<open>The two scans over the mask bits; \<open>i\<close> runs over the positions, \<open>k\<close> counts the set ones.\<close>

fun pdep_scan :: "u64 \<Rightarrow> u64 \<Rightarrow> nat list \<Rightarrow> nat \<Rightarrow> u64 \<Rightarrow> u64" where
  "pdep_scan a b [] k r = r"
| "pdep_scan a b (i # is) k r =
     (if drop_bit i b AND 1 \<noteq> 0
      then pdep_scan a b is (k + 1) (r OR push_bit i (drop_bit k a AND 1))
      else pdep_scan a b is k r)"

fun pext_scan :: "u64 \<Rightarrow> u64 \<Rightarrow> nat list \<Rightarrow> nat \<Rightarrow> u64 \<Rightarrow> u64" where
  "pext_scan a b [] k r = r"
| "pext_scan a b (i # is) k r =
     (if drop_bit i b AND 1 \<noteq> 0
      then pext_scan a b is (k + 1) (r OR push_bit k (drop_bit i a AND 1))
      else pext_scan a b is k r)"

definition bmi_result :: "u64 \<Rightarrow> u64 \<Rightarrow> nat \<Rightarrow> BmiOp \<Rightarrow> u64 \<times> bool" where
  "bmi_result a b sz op =
     (let m = size_mask sz; n = sz * 8; av = a AND m; bv = b AND m
      in case op of
           Andn \<Rightarrow> (NOT av AND bv AND m, False)
         | Blsi \<Rightarrow> (av AND (- av) AND m, av \<noteq> 0)
         | Blsr \<Rightarrow> (av AND (av - 1) AND m, av = 0)
         | Blsmsk \<Rightarrow> ((av XOR (av - 1)) AND m, av = 0)
         | Bextr \<Rightarrow>
             let start = unat (bv AND 0xFF);
                 len = unat (drop_bit 8 bv AND 0xFF);
                 shifted = (if start \<ge> 64 then 0 else drop_bit start av);
                 r = (if len \<ge> 64 then shifted else shifted AND (push_bit len 1 - 1))
             in (r AND m, False)
         | Bzhi \<Rightarrow>
             let index = unat (bv AND 0xFF);
                 r = (if index \<ge> n then av else av AND (push_bit index 1 - 1))
             in (r AND m, index > n - 1)
         | Pdep \<Rightarrow> (pdep_scan av bv [0..<n] 0 0 AND m, False)
         | Pext \<Rightarrow> (pext_scan av bv [0..<n] 0 0 AND m, False))"

section \<open>CRC-32C\<close>

definition crc_round :: "u32 \<Rightarrow> u32" where
  "crc_round crc = drop_bit 1 crc XOR (0x82F63B78 AND (- (crc AND 1)))"

definition crc_byte :: "u64 \<Rightarrow> nat \<Rightarrow> u32 \<Rightarrow> u32" where
  "crc_byte src i crc = (crc_round ^^ 8) (crc XOR ucast (drop_bit (i * 8) src AND 0xFF))"

definition crc32c :: "u32 \<Rightarrow> u64 \<Rightarrow> nat \<Rightarrow> u32" where
  "crc32c crc src n = fold (crc_byte src) [0..<n] crc"

section \<open>Identification\<close>

definition cpuid_leaf :: "GuestCpuFeatures \<Rightarrow> u32 \<Rightarrow> u32 \<times> u32 \<times> u32 \<times> u32" where
  "cpuid_leaf f leaf =
     (if leaf = 0x0 then (0x7, 0x756E6547, 0x6C65746E, 0x49656E69)
      else if leaf = 0x1 then (0x000306C3, 0, leaf1_ecx f, leaf1_edx f)
      else if leaf = 0x7 then (0, leaf7_ebx f, leaf7_ecx f, 0)
      else if leaf = 0x80000000 then (0x80000001, 0, 0, 0)
      else if leaf = 0x80000001 then (0, 0, ext_leaf1_ecx f, push_bit 11 1 OR push_bit 29 1)
      else (0, 0, 0, 0))"

definition cpuid_run :: "CpuState \<Rightarrow> CpuState option" where
  "cpuid_run cpu =
     (let (eax, ebx, ecx, edx) = cpuid_leaf (cpu_features cpu) (ucast (gpr cpu RAX))
      in do {
        c1 \<leftarrow> write_gpr RAX (ucast eax) 4 cpu;
        c2 \<leftarrow> write_gpr RBX (ucast ebx) 4 c1;
        c3 \<leftarrow> write_gpr RCX (ucast ecx) 4 c2;
        write_gpr RDX (ucast edx) 4 c3
      })"

definition xgetbv_run :: "CpuState \<Rightarrow> CpuState option" where
  "xgetbv_run cpu = do {
     c1 \<leftarrow> write_gpr RAX (xcr0 (cpu_features cpu)) 4 cpu;
     write_gpr RDX 0 4 c1
   }"

end
