(* ===== verification/X86_Memory.thy ===== *)
theory X86_Memory
  imports X86_Ir
begin

text \<open>
  Guest memory (\<^verbatim>\<open>memory.rs\<close>): one backing buffer, a list of mapped regions, the code-page bitmap with
  its watermark, the list of dirty code pages, and the watched-page bitmaps.

  \<^item> The backing buffer is a function from the offset in the buffer to the byte there, with its
    length and the host address of its first byte (which decides the aligned and the unaligned paths
    of the atomic accessors).  A \<^verbatim>\<open>usize\<close> is a 64-bit word.
  \<^item> A method that takes \<^verbatim>\<open>&self\<close> and changes an atomic or a mutex (the region hint, the page bitmaps,
    the dirty list) returns the changed record.
  \<^item> The atomics are modelled sequentially: a compare-exchange sees the value it has just loaded.
  \<^item> A Rust panic (a failed \<^verbatim>\<open>assert!\<close>, a slice out of range, \<^verbatim>\<open>todo!\<close>) is the value \<open>None\<close>.
  \<^item> The embedder's \<^verbatim>\<open>protect\<close> callback is recorded as the list of calls it receives.
\<close>

unbundle bit_operations_syntax

section \<open>Data\<close>

datatype MemoryModel = Flat u64 | Reserved u64 | SoftMmu

datatype Prot = ProtR | ProtRW | ProtRX | ProtRWX

datatype RegionKind = Ram | TrapKind | Rom

datatype MemTrap = Unmapped | Mmio

datatype MapError = Overlap | OutOfBounds | BadAlign

datatype MemError = MemUnmapped | MemProtection

text \<open>\<open>Host p\<close>: an embedder-supplied mapping, \<open>p\<close> when it comes with a \<^verbatim>\<open>protect\<close> callback.\<close>

datatype Owner = Boxed | Host bool

record Region =
  region_start :: u64
  region_size :: u64
  region_prot :: Prot
  region_kind :: RegionKind

record WatchPages =
  watch_bits :: "u64 list"
  dirty_bits :: "u64 list"
  watch_words :: "nat set"
  watch_count :: nat

record Memory =
  model :: MemoryModel
  backing :: "nat \<Rightarrow> u8"
  backing_len :: nat
  backing_ptr :: nat
  backing_owner :: Owner
  regions :: "Region list"
  code_page :: "u64 list"
  code_range :: u64
  dirty_code :: "u64 list"
  dirty_flag :: bool
  watch :: WatchPages
  guest_base :: u64
  last_region :: nat
  protect_log :: "(u64 \<times> u64 \<times> bool) list"

definition HOST_PAGE :: u64 where "HOST_PAGE = 4096"
definition CODE_PAGE_BITS :: nat where "CODE_PAGE_BITS = 12"
definition CODE_PAGE_SIZE :: u64 where "CODE_PAGE_SIZE = push_bit CODE_PAGE_BITS 1"
definition MAX_TRACKED_SPAN :: u64 where "MAX_TRACKED_SPAN = push_bit CODE_PAGE_BITS 0xFFFFFFFF"

section \<open>Page bitmaps\<close>

definition pages_between :: "u64 \<Rightarrow> u64 \<Rightarrow> u64 list" where
  "pages_between a b = map of_nat [unat a..<Suc (unat b)]"

definition code_page_range :: "u64 \<Rightarrow> u64 \<Rightarrow> u64 list" where
  "code_page_range addr len =
     (let last = saturating_add addr (max len 1 - 1)
      in pages_between (drop_bit CODE_PAGE_BITS addr) (drop_bit CODE_PAGE_BITS last))"

definition word_bit :: "u64 \<Rightarrow> nat \<times> u64" where
  "word_bit page = (unat (drop_bit 6 page), push_bit (unat (page AND 63)) 1)"

definition zeroed_words :: "nat \<Rightarrow> u64 list" where
  "zeroed_words n = replicate n 0"

definition div_ceil :: "u64 \<Rightarrow> u64 \<Rightarrow> u64" where
  "div_ceil a b = (if a mod b = 0 then a div b else a div b + 1)"

definition watch_pages_new :: "u64 \<Rightarrow> WatchPages" where
  "watch_pages_new span =
     (let pages = div_ceil span CODE_PAGE_SIZE;
          n = unat (div_ceil pages 64)
      in \<lparr>watch_bits = zeroed_words n, dirty_bits = zeroed_words n, watch_words = {}, watch_count = 0\<rparr>)"

definition is_watched :: "u64 \<Rightarrow> WatchPages \<Rightarrow> bool" where
  "is_watched page wp =
     (let (w, m) = word_bit page
      in w < length (watch_bits wp) \<and> watch_bits wp ! w AND m \<noteq> 0)"

definition mark_dirty :: "u64 \<Rightarrow> WatchPages \<Rightarrow> WatchPages" where
  "mark_dirty page wp =
     (let (w, m) = word_bit page
      in if w < length (dirty_bits wp) \<and> dirty_bits wp ! w AND m = 0
         then wp\<lparr>dirty_bits := (dirty_bits wp)[w := dirty_bits wp ! w OR m]\<rparr>
         else wp)"

definition watch_page :: "u64 \<Rightarrow> WatchPages \<Rightarrow> WatchPages" where
  "watch_page page wp =
     (let (w, m) = word_bit page
      in if w < length (watch_bits wp) then
           let old = watch_bits wp ! w;
               wp' = wp\<lparr>watch_bits := (watch_bits wp)[w := old OR m]\<rparr>
           in if old AND m = 0
              then wp'\<lparr>watch_count := watch_count wp + 1, watch_words := insert w (watch_words wp)\<rparr>
              else wp'
         else wp)"

text \<open>Indexing \<^verbatim>\<open>self.dirty[w]\<close> panics when the two bitmaps differ in length.\<close>

definition unwatch_page :: "u64 \<Rightarrow> WatchPages \<Rightarrow> WatchPages option" where
  "unwatch_page page wp =
     (let (w, m) = word_bit page
      in if w < length (watch_bits wp) then
           let old = watch_bits wp ! w;
               new = old AND NOT m;
               wp' = wp\<lparr>watch_bits := (watch_bits wp)[w := new]\<rparr>
           in if old AND m \<noteq> 0 then
                do {
                  d \<leftarrow> idx (dirty_bits wp) w;
                  let wp'' = wp'\<lparr>watch_count := watch_count wp - 1,
                                 dirty_bits := (dirty_bits wp)[w := d AND NOT m]\<rparr>;
                  Some (if new = 0 then wp''\<lparr>watch_words := watch_words wp - {w}\<rparr> else wp'')
                }
              else Some wp'
         else Some wp)"

text \<open>The inner \<^verbatim>\<open>while bits != 0\<close> loop: pop the lowest set bit; each round clears one of 64 bits.\<close>

fun drain_bits :: "nat \<Rightarrow> u64 \<Rightarrow> u64 \<Rightarrow> u64 list" where
  "drain_bits 0 w b = []"
| "drain_bits (Suc k) w b =
     (if b = 0 then []
      else (push_bit 6 w OR of_nat (trailing_zeros b)) # drain_bits k w (b AND (b - 1)))"

fun drain_words :: "nat list \<Rightarrow> u64 list \<Rightarrow> (u64 list \<times> u64 list) option" where
  "drain_words [] d = Some ([], d)"
| "drain_words (w # ws) d = do {
     b \<leftarrow> idx d w;
     (pages, d') \<leftarrow> drain_words ws (d[w := 0]);
     Some (drain_bits 64 (of_nat w) b @ pages, d')
   }"

definition take_dirty :: "WatchPages \<Rightarrow> (u64 list \<times> WatchPages) option" where
  "take_dirty wp =
     (if watch_count wp = 0 then Some ([], wp)
      else do {
        (pages, d) \<leftarrow> drain_words (sorted_list_of_set (watch_words wp)) (dirty_bits wp);
        Some (pages, wp\<lparr>dirty_bits := d\<rparr>)
      })"

section \<open>Construction\<close>

definition fresh_code_pages :: "u64 \<Rightarrow> u64 list option" where
  "fresh_code_pages span =
     (if span \<le> MAX_TRACKED_SPAN
      then Some (zeroed_words (unat (div_ceil (div_ceil span CODE_PAGE_SIZE) 64)))
      else None)"

definition from_backing ::
    "MemoryModel \<Rightarrow> (nat \<Rightarrow> u8) \<Rightarrow> nat \<Rightarrow> nat \<Rightarrow> Owner \<Rightarrow> u64 \<Rightarrow> Memory option" where
  "from_backing m bytes len ptr owner base = do {
     let top = saturating_add base (of_nat len);
     cp \<leftarrow> fresh_code_pages top;
     Some \<lparr>model = m, backing = bytes, backing_len = len, backing_ptr = ptr, backing_owner = owner,
           regions = [], code_page = cp, code_range = 0, dirty_code = [], dirty_flag = False,
           watch = watch_pages_new top, guest_base = base, last_region = 0, protect_log = []\<rparr>
   }"

text \<open>\<open>ptr\<close> is the address the host allocator returns for the zeroed buffer.\<close>

definition memory_new :: "MemoryModel \<Rightarrow> nat \<Rightarrow> Memory option" where
  "memory_new m ptr =
     from_backing m (\<lambda>_. 0)
       (case m of Flat sz \<Rightarrow> unat sz | Reserved sz \<Rightarrow> unat sz | SoftMmu \<Rightarrow> 0) ptr Boxed 0"

definition from_host_ram ::
    "MemoryModel \<Rightarrow> (nat \<Rightarrow> u8) \<Rightarrow> nat \<Rightarrow> nat \<Rightarrow> bool \<Rightarrow> u64 \<Rightarrow> Memory option" where
  "from_host_ram m bytes len ptr has_protect base =
     (let span = (case m of Flat sz \<Rightarrow> sz | Reserved sz \<Rightarrow> sz | SoftMmu \<Rightarrow> 0)
      in if base \<le> span \<and> unat (span - base) \<le> len
         then from_backing m bytes len ptr (Host has_protect) base
         else None)"

text \<open>The per-region copy of \<^verbatim>\<open>deep_copy\<close>; both slices must be in range.\<close>

fun copy_regions :: "Region list \<Rightarrow> (nat \<Rightarrow> u8) \<Rightarrow> nat \<Rightarrow> nat \<Rightarrow> (nat \<Rightarrow> u8) \<Rightarrow> (nat \<Rightarrow> u8) option" where
  "copy_regions [] src src_len span child = Some child"
| "copy_regions (r # rs) src src_len span child =
     (let s = unat (region_start r); e = unat (region_start r + region_size r)
      in if s \<le> e \<and> e \<le> src_len \<and> e \<le> span
         then copy_regions rs src src_len span (\<lambda>j. if s \<le> j \<and> j < e then src j else child j)
         else None)"

definition deep_copy :: "Memory \<Rightarrow> nat \<Rightarrow> Memory option option" where
  "deep_copy mem ptr =
     (if guest_base mem \<noteq> 0 then Some None
      else
        let fresh = (\<lambda>bytes len. do {
              child \<leftarrow> from_backing (model mem) bytes len ptr Boxed 0;
              Some (Some (child\<lparr>regions := regions mem\<rparr>))
            });
            regionwise = (\<lambda>span. do {
              bytes \<leftarrow> copy_regions (regions mem) (backing mem) (backing_len mem) (unat span) (\<lambda>_. 0);
              fresh bytes (unat span)
            })
        in case (model mem, backing_owner mem) of
             (Reserved _, Host _) \<Rightarrow> Some None
           | (Reserved span, Boxed) \<Rightarrow> regionwise span
           | (Flat span, Host _) \<Rightarrow> regionwise span
           | _ \<Rightarrow> fresh (backing mem) (backing_len mem))"

section \<open>Code pages\<close>

definition widen_code_range :: "u64 \<Rightarrow> Memory \<Rightarrow> Memory" where
  "widen_code_range p mem =
     (let cur = code_range mem;
          lo = drop_bit 32 cur;
          len = cur AND 0xFFFFFFFF
      in if len \<noteq> 0 \<and> p - lo < len then mem
         else
           let (want_lo, want_hi) = (if len = 0 then (p, p) else (lo + 1, lo + len - 1));
               new_lo = min want_lo p;
               new_hi = max want_hi p;
               packed = push_bit 32 (saturating_sub new_lo 1) OR (new_hi - new_lo + 2)
           in if packed = cur then mem else mem\<lparr>code_range := packed\<rparr>)"

definition mark_code_page :: "u64 \<Rightarrow> Memory \<Rightarrow> Memory" where
  "mark_code_page page mem =
     (let (w, m) = word_bit page
      in if w < length (code_page mem)
         then widen_code_range page (mem\<lparr>code_page := (code_page mem)[w := code_page mem ! w OR m]\<rparr>)
         else mem)"

definition mark_code :: "u64 \<Rightarrow> u32 \<Rightarrow> Memory \<Rightarrow> Memory" where
  "mark_code addr len mem = fold mark_code_page (code_page_range addr (ucast len)) mem"

definition clear_code_page :: "u64 \<Rightarrow> Memory \<Rightarrow> Memory" where
  "clear_code_page page mem =
     (let (w, m) = word_bit page
      in if w < length (code_page mem)
         then mem\<lparr>code_page := (code_page mem)[w := code_page mem ! w AND NOT m]\<rparr>
         else mem)"

definition clear_all_code_pages :: "Memory \<Rightarrow> Memory" where
  "clear_all_code_pages mem = mem\<lparr>code_page := map (\<lambda>_. 0) (code_page mem)\<rparr>"

definition is_code_page :: "u64 \<Rightarrow> Memory \<Rightarrow> bool" where
  "is_code_page p mem =
     (let (w, m) = word_bit p
      in w < length (code_page mem) \<and> code_page mem ! w AND m \<noteq> 0)"

definition note_page :: "bool \<Rightarrow> u64 \<Rightarrow> Memory \<Rightarrow> Memory" where
  "note_page watched page mem =
     (let mem' = (if is_code_page page mem
                  then mem\<lparr>dirty_code := dirty_code mem @ [page], dirty_flag := True\<rparr> else mem)
      in if watched \<and> is_watched page (watch mem')
         then mem'\<lparr>watch := mark_dirty page (watch mem')\<rparr> else mem')"

definition note_write :: "u64 \<Rightarrow> u64 \<Rightarrow> Memory \<Rightarrow> Memory" where
  "note_write addr len mem =
     fold (note_page (watch_count (watch mem) \<noteq> 0)) (code_page_range addr len) mem"

definition has_dirty_code :: "Memory \<Rightarrow> bool" where
  "has_dirty_code mem = dirty_flag mem"

definition take_dirty_code :: "Memory \<Rightarrow> u64 list \<times> Memory" where
  "take_dirty_code mem =
     (if \<not> dirty_flag mem then ([], mem)
      else (dirty_code mem, mem\<lparr>dirty_code := [], dirty_flag := False\<rparr>))"

section \<open>Watched pages\<close>

definition mem_size :: "Memory \<Rightarrow> u64" where
  "mem_size mem = (case model mem of Flat sz \<Rightarrow> sz | Reserved span \<Rightarrow> span | SoftMmu \<Rightarrow> 0)"

definition watch_bits_cover_size :: "Memory \<Rightarrow> bool" where
  "watch_bits_cover_size mem =
     (let top_page = drop_bit CODE_PAGE_BITS (saturating_sub (mem_size mem) 1)
      in unat (drop_bit 6 top_page) < length (watch_bits (watch mem)))"

definition watch_range :: "u64 \<Rightarrow> u64 \<Rightarrow> Memory \<Rightarrow> Memory" where
  "watch_range addr sz mem =
     mem\<lparr>watch := fold watch_page (code_page_range addr sz) (watch mem)\<rparr>"

fun unwatch_pages :: "u64 list \<Rightarrow> WatchPages \<Rightarrow> WatchPages option" where
  "unwatch_pages [] wp = Some wp"
| "unwatch_pages (p # ps) wp = Option.bind (unwatch_page p wp) (unwatch_pages ps)"

definition unwatch_range :: "u64 \<Rightarrow> u64 \<Rightarrow> Memory \<Rightarrow> Memory option" where
  "unwatch_range addr sz mem =
     map_option (\<lambda>wp. mem\<lparr>watch := wp\<rparr>) (unwatch_pages (code_page_range addr sz) (watch mem))"

text \<open>Coalescing of the drained pages into byte ranges; \<open>out\<close> is the output so far, last range first.\<close>

fun coalesce :: "u64 list \<Rightarrow> (u64 \<times> u64) list \<Rightarrow> (u64 \<times> u64) list" where
  "coalesce [] out = rev out"
| "coalesce (p # ps) out =
     (let start = push_bit CODE_PAGE_BITS p
      in case out of
           [] \<Rightarrow> coalesce ps [(start, CODE_PAGE_SIZE)]
         | (a, l) # rest \<Rightarrow>
             if start = a + l then coalesce ps ((a, l + CODE_PAGE_SIZE) # rest)
             else coalesce ps ((start, CODE_PAGE_SIZE) # out))"

definition take_dirty_ranges :: "Memory \<Rightarrow> ((u64 \<times> u64) list \<times> Memory) option" where
  "take_dirty_ranges mem =
     map_option (\<lambda>(pages, wp). (coalesce pages [], mem\<lparr>watch := wp\<rparr>)) (take_dirty (watch mem))"

section \<open>Regions\<close>

definition region_end :: "Region \<Rightarrow> u64" where
  "region_end r = region_start r + region_size r"

definition region_contains :: "u64 \<Rightarrow> u64 \<Rightarrow> Region \<Rightarrow> bool" where
  "region_contains addr end' r \<longleftrightarrow> region_start r \<le> addr \<and> end' \<le> region_end r"

definition highest_mapped_below :: "u64 \<Rightarrow> Memory \<Rightarrow> u64" where
  "highest_mapped_below limit mem =
     fold max (map (\<lambda>r. min (region_end r) limit) (filter (\<lambda>r. region_start r < limit) (regions mem))) 0"

definition region_for :: "u64 \<Rightarrow> u64 \<Rightarrow> Memory \<Rightarrow> Region option" where
  "region_for addr len mem =
     Option.bind (checked_add addr len) (\<lambda>end'. find (region_contains addr end') (regions mem))"

definition host_off :: "u64 \<Rightarrow> Memory \<Rightarrow> nat" where
  "host_off addr mem = unat (addr - guest_base mem)"

definition host_ram_ptr :: "u64 \<Rightarrow> u64 \<Rightarrow> Memory \<Rightarrow> nat option" where
  "host_ram_ptr addr len mem =
     (case region_for addr len mem of
        Some r \<Rightarrow>
          if region_kind r = Ram \<and> backing_owner mem \<noteq> Boxed
          then Some (backing_ptr mem + host_off addr mem) else None
      | None \<Rightarrow> None)"

fun trap_bounds :: "Region list \<Rightarrow> u64 \<times> u64 \<Rightarrow> u64 \<times> u64" where
  "trap_bounds [] acc = acc"
| "trap_bounds (r # rs) (lo, hi) =
     (if region_kind r = TrapKind
      then trap_bounds rs (min lo (region_start r), max hi (saturating_add (region_start r) (region_size r)))
      else trap_bounds rs (lo, hi))"

definition trap_window :: "Memory \<Rightarrow> (u64 \<times> u64) option" where
  "trap_window mem =
     (let (lo, hi) = trap_bounds (regions mem) (- 1, 0)
      in if lo < hi then Some (lo, hi) else None)"

text \<open>
  The host pages \<^verbatim>\<open>reprotect\<close> hands to the embedder.  Making a range accessible is one call; making it
  inaccessible walks the pages from \<open>lo\<close> to \<open>hi\<close> and skips the ones a mapped region still uses.
\<close>

definition page_shared :: "u64 \<Rightarrow> u64 \<Rightarrow> Memory \<Rightarrow> bool" where
  "page_shared page pend mem \<longleftrightarrow>
     list_ex (\<lambda>r. saturating_sub (region_start r) (guest_base mem) < pend \<and>
                  page < saturating_sub (region_end r) (guest_base mem)) (regions mem)"

fun revoke_pages :: "nat \<Rightarrow> u64 \<Rightarrow> u64 \<Rightarrow> Memory \<Rightarrow> (u64 \<times> u64 \<times> bool) list" where
  "revoke_pages 0 page cap mem = []"
| "revoke_pages (Suc k) page cap mem =
     (let pend = min (page + HOST_PAGE) cap;
          rest = revoke_pages k (page + HOST_PAGE) cap mem
      in if \<not> page_shared page pend mem \<and> page < pend
         then (page, pend - page, False) # rest else rest)"

definition protect_calls :: "u64 \<Rightarrow> u64 \<Rightarrow> bool \<Rightarrow> Memory \<Rightarrow> (u64 \<times> u64 \<times> bool) list" where
  "protect_calls start sz accessible mem =
     (let cap = of_nat (backing_len mem);
          ostart = saturating_sub start (guest_base mem);
          oend = min (saturating_sub (saturating_add start sz) (guest_base mem)) cap;
          lo = (ostart div HOST_PAGE) * HOST_PAGE;
          hi = div_ceil oend HOST_PAGE * HOST_PAGE
      in if lo \<ge> hi then []
         else if accessible then [(lo, min hi cap - lo, True)]
         else revoke_pages (unat ((hi - lo) div HOST_PAGE)) lo cap mem)"

definition reprotect :: "u64 \<Rightarrow> u64 \<Rightarrow> bool \<Rightarrow> Memory \<Rightarrow> Memory" where
  "reprotect start sz accessible mem =
     (if backing_owner mem = Host True
      then mem\<lparr>protect_log := protect_log mem @ protect_calls start sz accessible mem\<rparr>
      else mem)"

definition mem_map :: "u64 \<Rightarrow> u64 \<Rightarrow> Prot \<Rightarrow> RegionKind \<Rightarrow> Memory \<Rightarrow> (MapError + Memory) option" where
  "mem_map addr sz pr k mem =
     (case model mem of
        SoftMmu \<Rightarrow> None
      | _ \<Rightarrow> Some (
          if addr < guest_base mem then Inl OutOfBounds
          else case checked_add addr sz of
                 None \<Rightarrow> Inl OutOfBounds
               | Some end' \<Rightarrow>
                   if end' > mem_size mem then Inl OutOfBounds
                   else if list_ex (\<lambda>r. addr < region_end r \<and> region_start r < end') (regions mem)
                   then Inl Overlap
                   else Inr (reprotect addr sz True
                          (mem\<lparr>regions := regions mem @
                             [\<lparr>region_start = addr, region_size = sz, region_prot = pr, region_kind = k\<rparr>]\<rparr>))))"

definition remove_nth :: "nat \<Rightarrow> 'a list \<Rightarrow> 'a list" where
  "remove_nth i xs = take i xs @ drop (Suc i) xs"

definition unmap :: "u64 \<Rightarrow> u64 \<Rightarrow> Memory \<Rightarrow> MapError + Memory" where
  "unmap addr sz mem =
     (case position (\<lambda>r. region_start r = addr \<and> region_size r = sz) (regions mem) of
        Some pos \<Rightarrow> Inr (reprotect addr sz False (mem\<lparr>regions := remove_nth pos (regions mem)\<rparr>))
      | None \<Rightarrow> Inl OutOfBounds)"

section \<open>Bulk access\<close>

definition slice :: "Memory \<Rightarrow> nat \<Rightarrow> nat \<Rightarrow> u8 list" where
  "slice mem off n = map (\<lambda>i. backing mem (off + i)) [0..<n]"

definition copy_in :: "(nat \<Rightarrow> u8) \<Rightarrow> nat \<Rightarrow> u8 list \<Rightarrow> (nat \<Rightarrow> u8)" where
  "copy_in b off bytes = (\<lambda>j. if off \<le> j \<and> j < off + length bytes then bytes ! (j - off) else b j)"

definition write_bytes :: "u64 \<Rightarrow> u8 list \<Rightarrow> Memory \<Rightarrow> MemError + Memory" where
  "write_bytes addr bytes mem =
     (if region_for addr (of_nat (length bytes)) mem = None then Inl MemUnmapped
      else Inr (note_write addr (of_nat (length bytes))
             (mem\<lparr>backing := copy_in (backing mem) (host_off addr mem) bytes\<rparr>)))"

text \<open>\<open>Some (Some bytes)\<close>: the buffer was filled (\<^verbatim>\<open>true\<close>); \<open>Some None\<close>: \<^verbatim>\<open>false\<close>.\<close>

definition read_ram_guest :: "u64 \<Rightarrow> nat \<Rightarrow> Memory \<Rightarrow> u8 list option option" where
  "read_ram_guest addr n mem =
     (case region_for addr (of_nat n) mem of
        Some r \<Rightarrow>
          if region_kind r = Ram \<or> region_kind r = Rom then
            let start = host_off addr mem
            in if start + n \<le> backing_len mem then Some (Some (slice mem start n)) else None
          else Some None
      | None \<Rightarrow> Some None)"

definition write_ram_guest :: "u64 \<Rightarrow> u8 list \<Rightarrow> Memory \<Rightarrow> bool \<times> Memory" where
  "write_ram_guest addr bytes mem =
     (case region_for addr (of_nat (length bytes)) mem of
        Some r \<Rightarrow>
          (case region_kind r of
             Rom \<Rightarrow> (True, mem)
           | Ram \<Rightarrow> (True, note_write addr (of_nat (length bytes))
                       (mem\<lparr>backing := copy_in (backing mem) (host_off addr mem) bytes\<rparr>))
           | TrapKind \<Rightarrow> (False, mem))
      | None \<Rightarrow> (False, mem))"

definition read_bytes :: "u64 \<Rightarrow> nat \<Rightarrow> Memory \<Rightarrow> (MemError + u8 list) option" where
  "read_bytes addr n mem =
     (if region_for addr (of_nat n) mem = None then Some (Inl MemUnmapped)
      else
        let start = host_off addr mem
        in if start + n \<le> backing_len mem then Some (Inr (slice mem start n)) else None)"

definition code_slice :: "u64 \<Rightarrow> u64 \<Rightarrow> Memory \<Rightarrow> (MemTrap + u8 list) option" where
  "code_slice addr max_len mem =
     (case find (\<lambda>r. region_start r \<le> addr \<and> addr < region_end r) (regions mem) of
        None \<Rightarrow> Some (Inl Unmapped)
      | Some r \<Rightarrow>
          let end' = min (saturating_add addr max_len) (region_end r);
              s = host_off addr mem; e = host_off end' mem
          in if s \<le> e \<and> e \<le> backing_len mem then Some (Inr (slice mem s (e - s))) else None)"

section \<open>Raw scalar access\<close>

text \<open>
  The buffer access of the \<^verbatim>\<open>unsafe\<close> helpers, on a little-endian host.  A typed atomic access reads or
  writes the bytes of one machine word; it is taken when the host address is a multiple of the width,
  and the bytewise \<^verbatim>\<open>plain_read\<close> and \<^verbatim>\<open>plain_write\<close> otherwise.  \<open>ptr\<close> is the host address of byte 0 of the
  buffer \<open>b\<close>.
\<close>

fun from_le_bytes :: "u8 list \<Rightarrow> 'a::len word" where
  "from_le_bytes [] = 0"
| "from_le_bytes (x # xs) = ucast x OR push_bit 8 (from_le_bytes xs)"

definition to_le_bytes :: "nat \<Rightarrow> 'a::len word \<Rightarrow> u8 list" where
  "to_le_bytes n v = map (\<lambda>i. ucast (drop_bit (8 * i) v)) [0..<n]"

text \<open>
  The byte copies into and out of an 8-byte buffer.  The source leaves a width above 8 undefined (it would run past the buffer); the
  definitions then take the first eight bytes of the value.
\<close>

definition plain_read :: "(nat \<Rightarrow> u8) \<Rightarrow> nat \<Rightarrow> nat \<Rightarrow> u64" where
  "plain_read b off sz = from_le_bytes (map (\<lambda>i. b (off + i)) [0..<sz] @ replicate (8 - sz) 0)"

definition plain_write :: "(nat \<Rightarrow> u8) \<Rightarrow> nat \<Rightarrow> u64 \<Rightarrow> nat \<Rightarrow> (nat \<Rightarrow> u8)" where
  "plain_write b off v sz = copy_in b off (take sz (to_le_bytes 8 v))"

definition typed_load :: "nat \<Rightarrow> (nat \<Rightarrow> u8) \<Rightarrow> nat \<Rightarrow> 'a::len word" where
  "typed_load n b off = from_le_bytes (map (\<lambda>i. b (off + i)) [0..<n])"

definition typed_store :: "nat \<Rightarrow> (nat \<Rightarrow> u8) \<Rightarrow> nat \<Rightarrow> 'a::len word \<Rightarrow> (nat \<Rightarrow> u8)" where
  "typed_store n b off v = copy_in b off (to_le_bytes n v)"

definition atomic_load_le :: "nat \<Rightarrow> (nat \<Rightarrow> u8) \<Rightarrow> nat \<Rightarrow> nat \<Rightarrow> u64" where
  "atomic_load_le ptr b off sz =
     (if sz = 1 then ucast (typed_load 1 b off :: u8)
      else if sz = 2 \<and> (ptr + off) mod 2 = 0 then ucast (typed_load 2 b off :: u16)
      else if sz = 4 \<and> (ptr + off) mod 4 = 0 then ucast (typed_load 4 b off :: u32)
      else if sz = 8 \<and> (ptr + off) mod 8 = 0 then typed_load 8 b off
      else plain_read b off sz)"

definition atomic_store_le :: "nat \<Rightarrow> (nat \<Rightarrow> u8) \<Rightarrow> nat \<Rightarrow> u64 \<Rightarrow> nat \<Rightarrow> (nat \<Rightarrow> u8)" where
  "atomic_store_le ptr b off v sz =
     (if sz = 1 then typed_store 1 b off (ucast v :: u8)
      else if sz = 2 \<and> (ptr + off) mod 2 = 0 then typed_store 2 b off (ucast v :: u16)
      else if sz = 4 \<and> (ptr + off) mod 4 = 0 then typed_store 4 b off (ucast v :: u32)
      else if sz = 8 \<and> (ptr + off) mod 8 = 0 then typed_store 8 b off v
      else plain_write b off v sz)"

definition mask_bits :: "nat \<Rightarrow> u64" where
  "mask_bits sz = (if sz \<ge> 8 then - 1 else push_bit (sz * 8) 1 - 1)"

definition apply_rmw :: "u64 \<Rightarrow> u64 \<Rightarrow> RmwOp \<Rightarrow> nat \<Rightarrow> u64" where
  "apply_rmw old src op sz =
     (case op of
        RmwAdd \<Rightarrow> old + src
      | RmwSub \<Rightarrow> old - src
      | RmwRsub \<Rightarrow> src - old
      | RmwAnd \<Rightarrow> old AND src
      | RmwOr \<Rightarrow> old OR src
      | RmwXor \<Rightarrow> old XOR src
      | RmwXchg \<Rightarrow> src) AND mask_bits sz"

text \<open>The value a typed atomic operation leaves in memory (\<^verbatim>\<open>fetch_add\<close>, ..., \<^verbatim>\<open>swap\<close>).\<close>

definition fetch_op :: "RmwOp \<Rightarrow> 'a::len word \<Rightarrow> 'a word \<Rightarrow> 'a word" where
  "fetch_op op cur s =
     (case op of
        RmwAdd \<Rightarrow> cur + s
      | RmwSub \<Rightarrow> cur - s
      | RmwRsub \<Rightarrow> s - cur
      | RmwAnd \<Rightarrow> cur AND s
      | RmwOr \<Rightarrow> cur OR s
      | RmwXor \<Rightarrow> cur XOR s
      | RmwXchg \<Rightarrow> s)"

text \<open>The macro arm \<^verbatim>\<open>rmw!\<close> at the word type \<open>'a\<close> of \<open>n\<close> bytes.\<close>

definition rmw_arm ::
    "('a::len) itself \<Rightarrow> nat \<Rightarrow> nat \<Rightarrow> (nat \<Rightarrow> u8) \<Rightarrow> nat \<Rightarrow> u64 \<Rightarrow> nat \<Rightarrow> RmwOp \<Rightarrow> u64 \<times> (nat \<Rightarrow> u8)" where
  "rmw_arm _ n ptr b off src sz op =
     (if (ptr + off) mod n = 0 then
        let cur = (typed_load n b off :: 'a word); s = ucast src
        in (ucast cur, typed_store n b off (fetch_op op cur s))
      else
        let old = plain_read b off sz
        in (old, plain_write b off (apply_rmw old src op sz) sz))"

definition atomic_rmw_raw :: "nat \<Rightarrow> (nat \<Rightarrow> u8) \<Rightarrow> nat \<Rightarrow> u64 \<Rightarrow> nat \<Rightarrow> RmwOp \<Rightarrow> u64 \<times> (nat \<Rightarrow> u8)" where
  "atomic_rmw_raw ptr b off src sz op =
     (if sz = 1 then rmw_arm TYPE(8) 1 ptr b off src sz op
      else if sz = 2 then rmw_arm TYPE(16) 2 ptr b off src sz op
      else if sz = 4 then rmw_arm TYPE(32) 4 ptr b off src sz op
      else rmw_arm TYPE(64) 8 ptr b off src sz op)"

definition cas_arm ::
    "('a::len) itself \<Rightarrow> nat \<Rightarrow> nat \<Rightarrow> (nat \<Rightarrow> u8) \<Rightarrow> nat \<Rightarrow> u64 \<Rightarrow> u64 \<Rightarrow> nat \<Rightarrow> u64 \<times> (nat \<Rightarrow> u8)" where
  "cas_arm _ n ptr b off expected src sz =
     (if (ptr + off) mod n = 0 then
        let cur = (typed_load n b off :: 'a word)
        in (ucast cur, if cur = ucast expected then typed_store n b off (ucast src :: 'a word) else b)
      else
        let old = plain_read b off sz
        in (old, if old = expected then plain_write b off src sz else b))"

definition atomic_cas_raw :: "nat \<Rightarrow> (nat \<Rightarrow> u8) \<Rightarrow> nat \<Rightarrow> u64 \<Rightarrow> u64 \<Rightarrow> nat \<Rightarrow> u64 \<times> (nat \<Rightarrow> u8)" where
  "atomic_cas_raw ptr b off expected src sz =
     (if sz = 1 then cas_arm TYPE(8) 1 ptr b off expected src sz
      else if sz = 2 then cas_arm TYPE(16) 2 ptr b off expected src sz
      else if sz = 4 then cas_arm TYPE(32) 4 ptr b off expected src sz
      else cas_arm TYPE(64) 8 ptr b off expected src sz)"

section \<open>Checked scalar access\<close>

definition region_at :: "u64 \<Rightarrow> nat \<Rightarrow> Memory \<Rightarrow> Memory \<times> (MemTrap + Region)" where
  "region_at addr sz mem =
     (case checked_add addr (of_nat sz) of
        None \<Rightarrow> (mem, Inl Unmapped)
      | Some end' \<Rightarrow>
          let scan = (case position (region_contains addr end') (regions mem) of
                Some i \<Rightarrow> (mem\<lparr>last_region := i\<rparr>, Inr (regions mem ! i))
              | None \<Rightarrow> (mem, Inl Unmapped));
              hint = last_region mem
          in if hint < length (regions mem) \<and> region_contains addr end' (regions mem ! hint)
             then (mem, Inr (regions mem ! hint)) else scan)"

definition probe_write :: "u64 \<Rightarrow> nat \<Rightarrow> Memory \<Rightarrow> Memory \<times> (MemTrap + unit)" where
  "probe_write addr sz mem =
     (case region_at addr sz mem of
        (mem', Inl t) \<Rightarrow> (mem', Inl t)
      | (mem', Inr r) \<Rightarrow> (mem', if region_kind r = TrapKind then Inl Mmio else Inr ()))"

definition mem_read :: "u64 \<Rightarrow> nat \<Rightarrow> Memory \<Rightarrow> Memory \<times> (MemTrap + u64)" where
  "mem_read addr sz mem =
     (case region_at addr sz mem of
        (mem', Inl t) \<Rightarrow> (mem', Inl t)
      | (mem', Inr r) \<Rightarrow>
          if region_kind r = TrapKind then (mem', Inl Mmio)
          else (mem', Inr (atomic_load_le (backing_ptr mem') (backing mem') (host_off addr mem') sz)))"

definition mem_write :: "u64 \<Rightarrow> u64 \<Rightarrow> nat \<Rightarrow> Memory \<Rightarrow> Memory \<times> (MemTrap + unit)" where
  "mem_write addr val sz mem =
     (case region_at addr sz mem of
        (mem', Inl t) \<Rightarrow> (mem', Inl t)
      | (mem', Inr r) \<Rightarrow>
          if region_kind r = TrapKind then (mem', Inl Mmio)
          else if region_kind r = Rom then (mem', Inr ())
          else (note_write addr (of_nat sz)
                  (mem'\<lparr>backing := atomic_store_le (backing_ptr mem') (backing mem') (host_off addr mem') val sz\<rparr>),
                Inr ()))"

definition atomic_rmw :: "u64 \<Rightarrow> u64 \<Rightarrow> nat \<Rightarrow> RmwOp \<Rightarrow> Memory \<Rightarrow> Memory \<times> (MemTrap + u64)" where
  "atomic_rmw addr src sz op mem =
     (case region_at addr sz mem of
        (mem', Inl t) \<Rightarrow> (mem', Inl t)
      | (mem', Inr r) \<Rightarrow>
          let ptr = backing_ptr mem'; off = host_off addr mem'
          in if region_kind r = TrapKind then (mem', Inl Mmio)
             else if region_kind r = Rom
             then (mem', Inr (atomic_load_le ptr (backing mem') off sz AND mask_bits sz))
             else
               let (old, b) = atomic_rmw_raw ptr (backing mem') off src sz op
               in (note_write addr (of_nat sz) (mem'\<lparr>backing := b\<rparr>), Inr (old AND mask_bits sz)))"

definition atomic_cas :: "u64 \<Rightarrow> u64 \<Rightarrow> u64 \<Rightarrow> nat \<Rightarrow> Memory \<Rightarrow> Memory \<times> (MemTrap + u64)" where
  "atomic_cas addr expected src sz mem =
     (case region_at addr sz mem of
        (mem', Inl t) \<Rightarrow> (mem', Inl t)
      | (mem', Inr r) \<Rightarrow>
          let ptr = backing_ptr mem'; off = host_off addr mem'
          in if region_kind r = TrapKind then (mem', Inl Mmio)
             else if region_kind r = Rom
             then (mem', Inr (atomic_load_le ptr (backing mem') off sz AND mask_bits sz))
             else
               let (old, b) = atomic_cas_raw ptr (backing mem') off (expected AND mask_bits sz) src sz
               in (note_write addr (of_nat sz) (mem'\<lparr>backing := b\<rparr>), Inr (old AND mask_bits sz)))"

end
