(* ===== verification/X86_Exec_Int.thy ===== *)
theory X86_Exec_Int
  imports X86_Alu X86_Memory
begin

text \<open>
  The integer half of the interpreter's operation bodies (\<^verbatim>\<open>interp/integer.rs\<close>), with the register and
  operand access they share (\<^verbatim>\<open>interp/mod.rs\<close>).  A body runs on the register file, guest memory and the
  block's temporaries and returns the new state with \<^verbatim>\<open>Option<StepResult>\<close>; \<open>None\<close> on the outside is a panic
  (a temporary out of range, an operand size \<^verbatim>\<open>write_gpr\<close> rejects).
\<close>

unbundle bit_operations_syntax

section \<open>Interpreter state\<close>

record istate =
  icpu :: CpuState
  imem :: Memory
  itemps :: "u64 list"

type_synonym exec_result = "(istate \<times> StepResult option) option"

definition next_op :: "istate \<Rightarrow> exec_result" where
  "next_op st = Some (st, None)"

definition stop_op :: "StepResult \<Rightarrow> istate \<Rightarrow> exec_result" where
  "stop_op r st = Some (st, Some r)"

definition set_temp :: "nat \<Rightarrow> u64 \<Rightarrow> istate \<Rightarrow> istate option" where
  "set_temp t v st = map_option (\<lambda>ts. st\<lparr>itemps := ts\<rparr>) (set_idx (itemps st) t v)"

definition upd_flags :: "(Flags \<Rightarrow> Flags) \<Rightarrow> istate \<Rightarrow> istate" where
  "upd_flags f st = st\<lparr>icpu := (icpu st)\<lparr>flags := f (flags (icpu st))\<rparr>\<rparr>"

definition set_gpr :: "nat \<Rightarrow> u64 \<Rightarrow> CpuState \<Rightarrow> CpuState" where
  "set_gpr i v c = c\<lparr>gpr := (gpr c)(i := v)\<rparr>"

section \<open>Registers, operands and traps\<close>

definition read_reg :: "CpuState \<Rightarrow> Reg \<Rightarrow> u64" where
  "read_reg c reg =
     (case gpr_index reg of
        Some i \<Rightarrow> gpr c i
      | None \<Rightarrow>
          (case reg of
             Rip \<Rightarrow> rip c
           | FsBase \<Rightarrow> fs_base c
           | GsBase \<Rightarrow> gs_base c
           | Cs \<Rightarrow> ucast (cs_sel c)
           | Ds \<Rightarrow> ucast (ds_sel c)
           | Es \<Rightarrow> ucast (es_sel c)
           | _ \<Rightarrow> ucast (ss_sel c)))"

definition write_reg :: "Reg \<Rightarrow> u64 \<Rightarrow> nat \<Rightarrow> CpuState \<Rightarrow> CpuState option" where
  "write_reg reg val sz c =
     (case gpr_index reg of
        Some i \<Rightarrow> write_gpr i val sz c
      | None \<Rightarrow> Some
          (case reg of
             Rip \<Rightarrow> c\<lparr>rip := val\<rparr>
           | FsBase \<Rightarrow> c\<lparr>fs_base := val\<rparr>
           | GsBase \<Rightarrow> c\<lparr>gs_base := val\<rparr>
           | Cs \<Rightarrow> c\<lparr>cs_sel := ucast val\<rparr>
           | Ds \<Rightarrow> c\<lparr>ds_sel := ucast val\<rparr>
           | Es \<Rightarrow> c\<lparr>es_sel := ucast val\<rparr>
           | _ \<Rightarrow> c\<lparr>ss_sel := ucast val\<rparr>))"

fun read_val :: "Val \<Rightarrow> u64 list \<Rightarrow> u64 option" where
  "read_val (Temp t) ts = idx ts t"
| "read_val (Imm i) ts = Some i"

fun trap_exit :: "MemTrap \<Rightarrow> u64 \<Rightarrow> nat \<Rightarrow> AccessKind \<Rightarrow> u64 \<Rightarrow> Exit" where
  "trap_exit Unmapped addr sz access value = ExUnmappedMemory addr access"
| "trap_exit Mmio addr sz AccRead value = ExMmioRead addr sz"
| "trap_exit Mmio addr sz _ value = ExMmioWrite addr sz value"

definition trap_out ::
    "u64 \<Rightarrow> MemTrap \<Rightarrow> u64 \<Rightarrow> nat \<Rightarrow> AccessKind \<Rightarrow> u64 \<Rightarrow> CpuState \<Rightarrow> CpuState \<times> StepResult" where
  "trap_out cur_addr t addr sz access value c =
     (c\<lparr>rip := cur_addr\<rparr>, StepExit (trap_exit t addr sz access value))"

definition trap_op :: "u64 \<Rightarrow> MemTrap \<Rightarrow> u64 \<Rightarrow> nat \<Rightarrow> AccessKind \<Rightarrow> u64 \<Rightarrow> istate \<Rightarrow> exec_result" where
  "trap_op cur_addr t addr sz access value st =
     (let (c, r) = trap_out cur_addr t addr sz access value (icpu st)
      in stop_op r (st\<lparr>icpu := c\<rparr>))"

section \<open>Register moves and two-operand arithmetic\<close>

definition exec_read_reg :: "nat \<Rightarrow> Reg \<Rightarrow> istate \<Rightarrow> exec_result" where
  "exec_read_reg dst reg st = do {
     st' \<leftarrow> set_temp dst (read_reg (icpu st) reg) st;
     next_op st'
   }"

definition exec_write_reg :: "Reg \<Rightarrow> Val \<Rightarrow> nat \<Rightarrow> istate \<Rightarrow> exec_result" where
  "exec_write_reg reg src sz st = do {
     v \<leftarrow> read_val src (itemps st);
     c \<leftarrow> write_reg reg v sz (icpu st);
     next_op (st\<lparr>icpu := c\<rparr>)
   }"

text \<open>Store the result of an ALU helper and update the flags it is asked to.\<close>

definition alu_finish :: "nat \<Rightarrow> FlagMask \<Rightarrow> AluResult \<Rightarrow> istate \<Rightarrow> exec_result" where
  "alu_finish dst set_flags r st = do {
     st' \<leftarrow> set_temp dst (res r) st;
     next_op (upd_flags (apply_flags set_flags r) st')
   }"

definition exec_add :: "nat \<Rightarrow> Val \<Rightarrow> Val \<Rightarrow> nat \<Rightarrow> FlagMask \<Rightarrow> istate \<Rightarrow> exec_result" where
  "exec_add dst a b sz set_flags st = do {
     va \<leftarrow> read_val a (itemps st);
     vb \<leftarrow> read_val b (itemps st);
     alu_finish dst set_flags (alu_add va vb 0 sz) st
   }"

definition exec_adc :: "nat \<Rightarrow> Val \<Rightarrow> Val \<Rightarrow> nat \<Rightarrow> FlagMask \<Rightarrow> istate \<Rightarrow> exec_result" where
  "exec_adc dst a b sz set_flags st = do {
     let c = of_flag (flag_cf (flags (icpu st)));
     va \<leftarrow> read_val a (itemps st);
     vb \<leftarrow> read_val b (itemps st);
     alu_finish dst set_flags (alu_add va vb c sz) st
   }"

definition exec_sub :: "nat \<Rightarrow> Val \<Rightarrow> Val \<Rightarrow> nat \<Rightarrow> FlagMask \<Rightarrow> istate \<Rightarrow> exec_result" where
  "exec_sub dst a b sz set_flags st = do {
     va \<leftarrow> read_val a (itemps st);
     vb \<leftarrow> read_val b (itemps st);
     alu_finish dst set_flags (alu_sub va vb 0 sz) st
   }"

definition exec_sbb :: "nat \<Rightarrow> Val \<Rightarrow> Val \<Rightarrow> nat \<Rightarrow> FlagMask \<Rightarrow> istate \<Rightarrow> exec_result" where
  "exec_sbb dst a b sz set_flags st = do {
     let c = of_flag (flag_cf (flags (icpu st)));
     va \<leftarrow> read_val a (itemps st);
     vb \<leftarrow> read_val b (itemps st);
     alu_finish dst set_flags (alu_sub va vb c sz) st
   }"

definition exec_and :: "nat \<Rightarrow> Val \<Rightarrow> Val \<Rightarrow> nat \<Rightarrow> FlagMask \<Rightarrow> istate \<Rightarrow> exec_result" where
  "exec_and dst a b sz set_flags st = do {
     va \<leftarrow> read_val a (itemps st);
     vb \<leftarrow> read_val b (itemps st);
     alu_finish dst set_flags (alu_logic (va AND vb) sz) st
   }"

definition exec_or :: "nat \<Rightarrow> Val \<Rightarrow> Val \<Rightarrow> nat \<Rightarrow> FlagMask \<Rightarrow> istate \<Rightarrow> exec_result" where
  "exec_or dst a b sz set_flags st = do {
     va \<leftarrow> read_val a (itemps st);
     vb \<leftarrow> read_val b (itemps st);
     alu_finish dst set_flags (alu_logic (va OR vb) sz) st
   }"

definition exec_xor :: "nat \<Rightarrow> Val \<Rightarrow> Val \<Rightarrow> nat \<Rightarrow> FlagMask \<Rightarrow> istate \<Rightarrow> exec_result" where
  "exec_xor dst a b sz set_flags st = do {
     va \<leftarrow> read_val a (itemps st);
     vb \<leftarrow> read_val b (itemps st);
     alu_finish dst set_flags (alu_logic (va XOR vb) sz) st
   }"

section \<open>Shifts and rotates\<close>

text \<open>A flag update the source guards with \<^verbatim>\<open>!set_flags.is_none() && cnt != 0\<close>.\<close>

definition shift_finish :: "nat \<Rightarrow> FlagMask \<Rightarrow> u64 \<Rightarrow> u64 \<Rightarrow> AluResult \<Rightarrow> istate \<Rightarrow> exec_result" where
  "shift_finish dst set_flags cnt r fl st = do {
     st' \<leftarrow> set_temp dst r st;
     next_op (if \<not> is_none set_flags \<and> cnt \<noteq> 0 then upd_flags (apply_flags set_flags fl) st' else st')
   }"

definition exec_shl :: "nat \<Rightarrow> Val \<Rightarrow> Val \<Rightarrow> nat \<Rightarrow> FlagMask \<Rightarrow> istate \<Rightarrow> exec_result" where
  "exec_shl dst a b sz set_flags st = do {
     va \<leftarrow> read_val a (itemps st);
     vb \<leftarrow> read_val b (itemps st);
     let vm = va AND size_mask sz;
     let cnt = vb AND shift_mask sz;
     let r = wrapping_shl vm (unat cnt) AND size_mask sz;
     let n = of_nat (sz * 8);
     let cf = (cnt \<le> n \<and> drop_bit (unat (n - cnt)) vm AND 1 \<noteq> 0);
     let ov = ((r AND sign_bit sz \<noteq> 0) \<noteq> cf);
     shift_finish dst set_flags cnt r (shift_result r sz cf ov) st
   }"

definition exec_shr :: "nat \<Rightarrow> Val \<Rightarrow> Val \<Rightarrow> nat \<Rightarrow> FlagMask \<Rightarrow> istate \<Rightarrow> exec_result" where
  "exec_shr dst a b sz set_flags st = do {
     va \<leftarrow> read_val a (itemps st);
     vb \<leftarrow> read_val b (itemps st);
     let vm = va AND size_mask sz;
     let cnt = vb AND shift_mask sz;
     let r = wrapping_shr vm (unat cnt);
     let cf = (drop_bit (unat (cnt - 1)) vm AND 1 \<noteq> 0);
     let ov = (vm AND sign_bit sz \<noteq> 0);
     shift_finish dst set_flags cnt r (shift_result r sz cf ov) st
   }"

text \<open>The left and the right arm of the double shift: result and CF for a nonzero count.\<close>

definition double_shift :: "u64 \<Rightarrow> u64 \<Rightarrow> u64 \<Rightarrow> nat \<Rightarrow> bool \<Rightarrow> u64 \<times> bool" where
  "double_shift av bv cnt sz left =
     (let n = of_nat (sz * 8)
      in if left then
           let lo = wrapping_shl av (unat cnt);
               hi = (if cnt < n then drop_bit (unat (n - cnt)) bv else 0);
               cf = (cnt \<le> n \<and> drop_bit (unat (n - cnt)) av AND 1 \<noteq> 0)
           in ((lo OR hi) AND size_mask sz, cf)
         else
           let lo = drop_bit (unat cnt) av;
               hi = (if cnt < n then wrapping_shl bv (unat (n - cnt)) else 0);
               cf = (drop_bit (unat (cnt - 1)) av AND 1 \<noteq> 0)
           in ((lo OR hi) AND size_mask sz, cf))"

definition exec_double_shift ::
    "nat \<Rightarrow> Val \<Rightarrow> Val \<Rightarrow> Val \<Rightarrow> nat \<Rightarrow> bool \<Rightarrow> FlagMask \<Rightarrow> istate \<Rightarrow> exec_result" where
  "exec_double_shift dst a b count sz left set_flags st = do {
     va \<leftarrow> read_val a (itemps st);
     vb \<leftarrow> read_val b (itemps st);
     vc \<leftarrow> read_val count (itemps st);
     let av = va AND size_mask sz;
     let bv = vb AND size_mask sz;
     let cnt = vc AND shift_mask sz;
     if cnt = 0 then do { st' \<leftarrow> set_temp dst av st; next_op st' }
     else do {
       let (r, cf) = double_shift av bv cnt sz left;
       st' \<leftarrow> set_temp dst r st;
       if \<not> is_none set_flags then do {
         let ov = ((r AND sign_bit sz \<noteq> 0) \<noteq> (av AND sign_bit sz \<noteq> 0));
         next_op (upd_flags (apply_flags set_flags (shift_result r sz cf ov)) st')
       } else next_op st'
     }
   }"

definition exec_sar :: "nat \<Rightarrow> Val \<Rightarrow> Val \<Rightarrow> nat \<Rightarrow> FlagMask \<Rightarrow> istate \<Rightarrow> exec_result" where
  "exec_sar dst a b sz set_flags st = do {
     va \<leftarrow> read_val a (itemps st);
     vb \<leftarrow> read_val b (itemps st);
     let vm = va AND size_mask sz;
     let cnt = vb AND shift_mask sz;
     let r = signed_drop_bit (unat cnt) (sign_extend vm sz) AND size_mask sz;
     let cf = (drop_bit (unat (cnt - 1)) (sign_extend vm sz) AND 1 \<noteq> 0);
     shift_finish dst set_flags cnt r (shift_result r sz cf False) st
   }"

definition exec_sext :: "nat \<Rightarrow> Val \<Rightarrow> nat \<Rightarrow> istate \<Rightarrow> exec_result" where
  "exec_sext dst a from st = do {
     v \<leftarrow> read_val a (itemps st);
     st' \<leftarrow> set_temp dst (sign_extend v from) st;
     next_op st'
   }"

text \<open>\<^verbatim>\<open>swap_bytes\<close> on a word of \<open>n\<close> bytes.\<close>

definition swap_bytes :: "nat \<Rightarrow> 'a::len word \<Rightarrow> 'a word" where
  "swap_bytes n v = from_le_bytes (rev (to_le_bytes n v))"

definition exec_bswap :: "nat \<Rightarrow> Val \<Rightarrow> nat \<Rightarrow> istate \<Rightarrow> exec_result" where
  "exec_bswap dst a sz st = do {
     v \<leftarrow> read_val a (itemps st);
     st' \<leftarrow> set_temp dst
       (if sz = 8 then swap_bytes 8 v
        else if sz = 2 then ucast (swap_bytes 2 (ucast v :: u16))
        else ucast (swap_bytes 4 (ucast v :: u32))) st;
     next_op st'
   }"

definition exec_rol :: "nat \<Rightarrow> Val \<Rightarrow> Val \<Rightarrow> nat \<Rightarrow> FlagMask \<Rightarrow> istate \<Rightarrow> exec_result" where
  "exec_rol dst a b sz set_flags st = do {
     va \<leftarrow> read_val a (itemps st);
     vb \<leftarrow> read_val b (itemps st);
     let vm = va AND size_mask sz;
     let cnt = vb AND shift_mask sz;
     let r = rotl vm (unat cnt) sz;
     let cf = (r AND 1 \<noteq> 0);
     let ov = ((r AND sign_bit sz \<noteq> 0) \<noteq> cf);
     shift_finish dst set_flags cnt r (cf_of r cf ov) st
   }"

definition exec_ror :: "nat \<Rightarrow> Val \<Rightarrow> Val \<Rightarrow> nat \<Rightarrow> FlagMask \<Rightarrow> istate \<Rightarrow> exec_result" where
  "exec_ror dst a b sz set_flags st = do {
     va \<leftarrow> read_val a (itemps st);
     vb \<leftarrow> read_val b (itemps st);
     let vm = va AND size_mask sz;
     let cnt = vb AND shift_mask sz;
     let r = rotr vm (unat cnt) sz;
     let n = sz * 8;
     let cf = (r AND sign_bit sz \<noteq> 0);
     let ov = (cf \<noteq> (drop_bit (n - 2) r AND 1 \<noteq> 0));
     shift_finish dst set_flags cnt r (cf_of r cf ov) st
   }"

definition exec_rcl :: "nat \<Rightarrow> Val \<Rightarrow> Val \<Rightarrow> nat \<Rightarrow> FlagMask \<Rightarrow> istate \<Rightarrow> exec_result" where
  "exec_rcl dst a b sz set_flags st = do {
     va \<leftarrow> read_val a (itemps st);
     vb \<leftarrow> read_val b (itemps st);
     let vm = va AND size_mask sz;
     let n = sz * 8;
     let cnt = unat ((ucast vb :: u32) AND ucast (shift_mask sz)) mod (n + 1);
     let (r, cf) = rcl vm cnt (flag_cf (flags (icpu st))) sz;
     let ov = (cf \<noteq> (r AND sign_bit sz \<noteq> 0));
     shift_finish dst set_flags (of_nat cnt) r (cf_of r cf ov) st
   }"

definition exec_rcr :: "nat \<Rightarrow> Val \<Rightarrow> Val \<Rightarrow> nat \<Rightarrow> FlagMask \<Rightarrow> istate \<Rightarrow> exec_result" where
  "exec_rcr dst a b sz set_flags st = do {
     va \<leftarrow> read_val a (itemps st);
     vb \<leftarrow> read_val b (itemps st);
     let vm = va AND size_mask sz;
     let n = sz * 8;
     let cnt = unat ((ucast vb :: u32) AND ucast (shift_mask sz)) mod (n + 1);
     let (r, cf) = rcr vm cnt (flag_cf (flags (icpu st))) sz;
     let ov = ((r AND sign_bit sz \<noteq> 0) \<noteq> (drop_bit (n - 2) r AND 1 \<noteq> 0));
     shift_finish dst set_flags (of_nat cnt) r (cf_of r cf ov) st
   }"

section \<open>Multiplication, division and conditions\<close>

text \<open>The products of the source fit \<^verbatim>\<open>i128\<close> and \<^verbatim>\<open>u128\<close>; the signed one is an \<open>int\<close>.\<close>

definition mul_parts :: "u64 \<Rightarrow> u64 \<Rightarrow> nat \<Rightarrow> bool \<Rightarrow> u64 \<times> u64 \<times> bool" where
  "mul_parts va vb sz is_signed =
     (let m = size_mask sz; n = sz * 8
      in if is_signed then
           let p = sint (sign_extend va sz) * sint (sign_extend vb sz);
               lo_v = of_int p AND m;
               hi_v = of_int (drop_bit n p) AND m
           in (lo_v, hi_v, p \<noteq> sint (sign_extend lo_v sz))
         else
           let p = (ucast va * ucast vb :: u128);
               lo_v = ucast p AND m;
               hi_v = ucast (drop_bit n p) AND m
           in (lo_v, hi_v, hi_v \<noteq> 0))"

definition exec_mul ::
    "nat \<Rightarrow> nat \<Rightarrow> Val \<Rightarrow> Val \<Rightarrow> nat \<Rightarrow> bool \<Rightarrow> FlagMask \<Rightarrow> istate \<Rightarrow> exec_result" where
  "exec_mul lo hi a b sz is_signed set_flags st = do {
     va \<leftarrow> read_val a (itemps st);
     vb \<leftarrow> read_val b (itemps st);
     let (lo_v, hi_v, overflow) = mul_parts (va AND size_mask sz) (vb AND size_mask sz) sz is_signed;
     st1 \<leftarrow> set_temp lo lo_v st;
     st2 \<leftarrow> set_temp hi hi_v st1;
     next_op (if \<not> is_none set_flags
              then upd_flags (apply_flags set_flags (cf_of lo_v overflow overflow)) st2 else st2)
   }"

definition exec_div ::
    "u64 \<Rightarrow> nat \<Rightarrow> nat \<Rightarrow> Val \<Rightarrow> Val \<Rightarrow> Val \<Rightarrow> nat \<Rightarrow> bool \<Rightarrow> istate \<Rightarrow> exec_result" where
  "exec_div cur_addr quot rem hi lo divisor sz is_signed st = do {
     hv \<leftarrow> read_val hi (itemps st);
     lv \<leftarrow> read_val lo (itemps st);
     dv \<leftarrow> read_val divisor (itemps st);
     case divide hv lv dv sz is_signed of
       Some (q, r) \<Rightarrow> do {
         st1 \<leftarrow> set_temp quot q st;
         st2 \<leftarrow> set_temp rem r st1;
         next_op st2
       }
     | None \<Rightarrow>
         stop_op (StepExit (ExException cur_addr 0)) (st\<lparr>icpu := (icpu st)\<lparr>rip := cur_addr\<rparr>\<rparr>)
   }"

definition exec_get_cond :: "nat \<Rightarrow> Cond \<Rightarrow> istate \<Rightarrow> exec_result" where
  "exec_get_cond dst cond st = do {
     st' \<leftarrow> set_temp dst (of_flag (eval_cond cond (flags (icpu st)))) st;
     next_op st'
   }"

section \<open>Memory access\<close>

definition exec_load :: "u64 \<Rightarrow> nat \<Rightarrow> Val \<Rightarrow> nat \<Rightarrow> istate \<Rightarrow> exec_result" where
  "exec_load cur_addr dst addr sz st = do {
     a \<leftarrow> read_val addr (itemps st);
     case pending_mmio (icpu st) of
       Some v \<Rightarrow> do {
         st' \<leftarrow> set_temp dst (v AND size_mask sz) (st\<lparr>icpu := (icpu st)\<lparr>pending_mmio := None\<rparr>\<rparr>);
         next_op st'
       }
     | None \<Rightarrow>
         (case mem_read a sz (imem st) of
            (m, Inr v) \<Rightarrow> do {
              st' \<leftarrow> set_temp dst v (st\<lparr>imem := m\<rparr>);
              next_op st'
            }
          | (m, Inl t) \<Rightarrow> trap_op cur_addr t a sz AccRead 0 (st\<lparr>imem := m\<rparr>))
   }"

definition exec_store :: "u64 \<Rightarrow> Val \<Rightarrow> Val \<Rightarrow> nat \<Rightarrow> istate \<Rightarrow> exec_result" where
  "exec_store cur_addr addr src sz st = do {
     a \<leftarrow> read_val addr (itemps st);
     v \<leftarrow> read_val src (itemps st);
     case mem_write a v sz (imem st) of
       (m, Inr _) \<Rightarrow> next_op (st\<lparr>imem := m\<rparr>)
     | (m, Inl t) \<Rightarrow>
         if t = Mmio \<and> pending_mmio_write (icpu st)
         then next_op (st\<lparr>imem := m, icpu := (icpu st)\<lparr>pending_mmio_write := False\<rparr>\<rparr>)
         else trap_op cur_addr t a sz AccWrite v (st\<lparr>imem := m\<rparr>)
   }"

definition exec_atomic_rmw :: "u64 \<Rightarrow> nat \<Rightarrow> Val \<Rightarrow> Val \<Rightarrow> nat \<Rightarrow> RmwOp \<Rightarrow> istate \<Rightarrow> exec_result" where
  "exec_atomic_rmw cur_addr old addr src sz op st = do {
     a \<leftarrow> read_val addr (itemps st);
     s \<leftarrow> read_val src (itemps st);
     case atomic_rmw a s sz op (imem st) of
       (m, Inr prev) \<Rightarrow> do {
         st' \<leftarrow> set_temp old prev (st\<lparr>imem := m\<rparr>);
         next_op st'
       }
     | (m, Inl t) \<Rightarrow> trap_op cur_addr t a sz AccWrite s (st\<lparr>imem := m\<rparr>)
   }"

definition exec_atomic_cas :: "u64 \<Rightarrow> nat \<Rightarrow> Val \<Rightarrow> Val \<Rightarrow> Val \<Rightarrow> nat \<Rightarrow> istate \<Rightarrow> exec_result" where
  "exec_atomic_cas cur_addr old addr expected src sz st = do {
     a \<leftarrow> read_val addr (itemps st);
     e \<leftarrow> read_val expected (itemps st);
     s \<leftarrow> read_val src (itemps st);
     case atomic_cas a e s sz (imem st) of
       (m, Inr prev) \<Rightarrow> do {
         st' \<leftarrow> set_temp old prev (st\<lparr>imem := m\<rparr>);
         next_op st'
       }
     | (m, Inl t) \<Rightarrow> trap_op cur_addr t a sz AccWrite s (st\<lparr>imem := m\<rparr>)
   }"

section \<open>Bit operations and identification\<close>

fun bt_result :: "BtOp \<Rightarrow> u64 \<Rightarrow> u64 \<Rightarrow> u64" where
  "bt_result BtTest av m = av"
| "bt_result BtSet av m = av OR m"
| "bt_result BtReset av m = av AND NOT m"
| "bt_result BtComplement av m = av XOR m"

definition exec_bt :: "nat \<Rightarrow> Val \<Rightarrow> Val \<Rightarrow> nat \<Rightarrow> BtOp \<Rightarrow> istate \<Rightarrow> exec_result" where
  "exec_bt result a b sz op st = do {
     av \<leftarrow> read_val a (itemps st);
     vb \<leftarrow> read_val b (itemps st);
     let k = unat (vb AND (of_nat (sz * 8) - 1));
     let st' = upd_flags (\<lambda>f. f\<lparr>flag_cf := drop_bit k av AND 1 \<noteq> 0\<rparr>) st;
     st'' \<leftarrow> set_temp result (bt_result op av (push_bit k 1) AND size_mask sz) st';
     next_op st''
   }"

definition exec_cpuid :: "istate \<Rightarrow> exec_result" where
  "exec_cpuid st = do {
     c \<leftarrow> cpuid_run (icpu st);
     next_op (st\<lparr>icpu := c\<rparr>)
   }"

definition exec_xgetbv :: "istate \<Rightarrow> exec_result" where
  "exec_xgetbv st = do {
     c \<leftarrow> xgetbv_run (icpu st);
     next_op (st\<lparr>icpu := c\<rparr>)
   }"

definition exec_popcnt :: "nat \<Rightarrow> Val \<Rightarrow> nat \<Rightarrow> istate \<Rightarrow> exec_result" where
  "exec_popcnt dst src sz st = do {
     v \<leftarrow> read_val src (itemps st);
     let s = v AND size_mask sz;
     st' \<leftarrow> set_temp dst (of_nat (count_ones s)) st;
     next_op (upd_flags (\<lambda>f. set_pf False (set_af False
       (f\<lparr>flag_zf := (s = 0), flag_cf := False, flag_of := False, flag_sf := False\<rparr>))) st')
   }"

definition exec_crc32 :: "nat \<Rightarrow> Val \<Rightarrow> Val \<Rightarrow> nat \<Rightarrow> istate \<Rightarrow> exec_result" where
  "exec_crc32 dst crc src n st = do {
     c \<leftarrow> read_val crc (itemps st);
     s \<leftarrow> read_val src (itemps st);
     st' \<leftarrow> set_temp dst (ucast (crc32c (ucast c) s n)) st;
     next_op st'
   }"

definition exec_bmi :: "nat \<Rightarrow> Val \<Rightarrow> Val \<Rightarrow> nat \<Rightarrow> BmiOp \<Rightarrow> istate \<Rightarrow> exec_result" where
  "exec_bmi dst a b sz op st = do {
     av \<leftarrow> read_val a (itemps st);
     bv \<leftarrow> read_val b (itemps st);
     let (r, cf) = bmi_result av bv sz op;
     let st' = (if writes_flags op
       then upd_flags (\<lambda>f. f\<lparr>flag_cf := cf, flag_zf := (r = 0),
              flag_sf := (drop_bit (sz * 8 - 1) r AND 1 \<noteq> 0), flag_of := False\<rparr>) st
       else st);
     st'' \<leftarrow> set_temp dst r st';
     next_op st''
   }"

definition bit_scan_result :: "BitScanOp \<Rightarrow> u64 \<Rightarrow> u64 \<Rightarrow> nat \<Rightarrow> Flags \<Rightarrow> u64 \<times> Flags" where
  "bit_scan_result op s old sz f =
     (case op of
        Bsf \<Rightarrow>
          if s = 0 then (old AND size_mask sz, f\<lparr>flag_zf := True\<rparr>)
          else (of_nat (trailing_zeros s), f\<lparr>flag_zf := False\<rparr>)
      | Bsr \<Rightarrow>
          if s = 0 then (old AND size_mask sz, f\<lparr>flag_zf := True\<rparr>)
          else (63 - of_nat (leading_zeros s), f\<lparr>flag_zf := False\<rparr>)
      | Tzcnt \<Rightarrow>
          let r = (if s = 0 then of_nat (sz * 8) else of_nat (trailing_zeros s))
          in (r, f\<lparr>flag_cf := (s = 0), flag_zf := (r = 0)\<rparr>)
      | Lzcnt \<Rightarrow>
          let r = of_nat (leading_zeros s) - (64 - of_nat (sz * 8))
          in (r, f\<lparr>flag_cf := (s = 0), flag_zf := (r = 0)\<rparr>))"

definition exec_bit_scan :: "nat \<Rightarrow> Val \<Rightarrow> Val \<Rightarrow> nat \<Rightarrow> BitScanOp \<Rightarrow> istate \<Rightarrow> exec_result" where
  "exec_bit_scan dst src old sz op st = do {
     v \<leftarrow> read_val src (itemps st);
     let s = v AND size_mask sz;
     o_v \<leftarrow> (if (op = Bsf \<or> op = Bsr) \<and> s = 0 then read_val old (itemps st) else Some 0);
     let (r, f) = bit_scan_result op s o_v sz (flags (icpu st));
     st' \<leftarrow> set_temp dst r (upd_flags (\<lambda>_. f) st);
     next_op st'
   }"

section \<open>Decimal adjustment\<close>

definition daa_das :: "bool \<Rightarrow> CpuState \<Rightarrow> CpuState" where
  "daa_das sub c =
     (let al = (ucast (gpr c RAX AND 0xFF) :: u8);
          f = flags c;
          old_cf = flag_cf f;
          adjust = (al AND 0x0F > 9 \<or> af f);
          al1 = (if adjust then if sub then al - 6 else al + 6 else al);
          carry = (if sub then al < 6 else unat al + 6 \<ge> 256);
          f1 = (if adjust then set_af True (f\<lparr>flag_cf := (old_cf \<or> carry)\<rparr>)
                else set_af False (f\<lparr>flag_cf := False\<rparr>));
          high = (al > 0x99 \<or> old_cf);
          al2 = (if high then if sub then al1 - 0x60 else al1 + 0x60 else al1);
          f2 = (if high then f1\<lparr>flag_cf := True\<rparr> else f1);
          f3 = (set_pf (parity (ucast al2)) (f2\<lparr>flag_sf := (al2 AND 0x80 \<noteq> 0), flag_zf := (al2 = 0)\<rparr>))\<lparr>flag_of := False\<rparr>
      in (set_gpr RAX ((gpr c RAX AND NOT 0xFF) OR ucast al2) c)\<lparr>flags := f3\<rparr>)"

definition aaa_aas :: "bool \<Rightarrow> CpuState \<Rightarrow> CpuState" where
  "aaa_aas sub c =
     (let al = (ucast (gpr c RAX AND 0xFF) :: u8);
          ax = (ucast (gpr c RAX AND 0xFFFF) :: u16);
          f = flags c;
          adjust = (al AND 0x0F > 9 \<or> af f);
          ax1 = (if adjust then if sub then ax - 0x106 else ax + 0x106 else ax);
          f1 = (set_af adjust f)\<lparr>flag_cf := adjust\<rparr>;
          ax2 = ax1 AND 0xFF0F
      in (set_gpr RAX ((gpr c RAX AND NOT 0xFFFF) OR ucast ax2) c)\<lparr>flags := f1\<rparr>)"

definition szp_flags :: "u8 \<Rightarrow> Flags \<Rightarrow> Flags" where
  "szp_flags al f = set_pf (parity (ucast al)) (f\<lparr>flag_sf := (al AND 0x80 \<noteq> 0), flag_zf := (al = 0)\<rparr>)"

definition exec_bcd :: "u64 \<Rightarrow> BcdKind \<Rightarrow> istate \<Rightarrow> exec_result" where
  "exec_bcd cur_addr kind st =
     (let c = icpu st; al = (ucast (gpr c RAX AND 0xFF) :: u8)
      in case kind of
           Daa \<Rightarrow> next_op (st\<lparr>icpu := daa_das False c\<rparr>)
         | Das \<Rightarrow> next_op (st\<lparr>icpu := daa_das True c\<rparr>)
         | Aaa \<Rightarrow> next_op (st\<lparr>icpu := aaa_aas False c\<rparr>)
         | Aas \<Rightarrow> next_op (st\<lparr>icpu := aaa_aas True c\<rparr>)
         | Aam base \<Rightarrow>
             if base = 0
             then stop_op (StepExit (ExException cur_addr 0)) (st\<lparr>icpu := c\<lparr>rip := cur_addr\<rparr>\<rparr>)
             else
               let ah = al div base; new_al = al mod base;
                   c' = set_gpr RAX ((gpr c RAX AND NOT 0xFFFF) OR push_bit 8 (ucast ah) OR ucast new_al) c
               in next_op (st\<lparr>icpu := c'\<lparr>flags := szp_flags new_al (flags c)\<rparr>\<rparr>)
         | Aad base \<Rightarrow>
             let ah = (ucast (drop_bit 8 (gpr c RAX) AND 0xFF) :: u8);
                 new_al = al + ah * base;
                 c' = set_gpr RAX ((gpr c RAX AND NOT 0xFFFF) OR ucast new_al) c
             in next_op (st\<lparr>icpu := c'\<lparr>flags := szp_flags new_al (flags c)\<rparr>\<rparr>))"

end
