(* ===== verification/X86_Exec_Ctl.thy ===== *)
theory X86_Exec_Ctl
  imports X86_Exec_Int
begin

text \<open>
  String operations (\<^verbatim>\<open>string_run\<close> of \<^verbatim>\<open>interp/mod.rs\<close>) and the control-flow, stack and real-mode operation
  bodies (\<^verbatim>\<open>interp/control.rs\<close>).  The string loop is generic in the memory it runs on: the two methods of
  the trait \<^verbatim>\<open>StrMem\<close> are the arguments \<open>sload\<close> and \<open>sstore\<close>.  A repeated operation runs at most as often as
  its counter says, so the loop takes that many rounds of fuel.
\<close>

unbundle bit_operations_syntax

section \<open>The raw view of guest memory used by compiled code\<close>

text \<open>
  \<^verbatim>\<open>RawStrMem\<close>: a buffer that starts at guest address \<open>raw_guest_base\<close> and ends below \<open>raw_size\<close>, without
  regions.
\<close>

record RawStrMem =
  raw_bytes :: "nat \<Rightarrow> u8"
  raw_size :: u64
  raw_guest_base :: u64

definition raw_off :: "u64 \<Rightarrow> nat \<Rightarrow> RawStrMem \<Rightarrow> nat option" where
  "raw_off addr elem m = do {
     end' \<leftarrow> checked_add addr (of_nat elem);
     if addr < raw_guest_base m \<or> end' > raw_size m then None
     else Some (unat (addr - raw_guest_base m))
   }"

definition raw_sload :: "u64 \<Rightarrow> nat \<Rightarrow> RawStrMem \<Rightarrow> RawStrMem \<times> (MemTrap + u64)" where
  "raw_sload addr elem m =
     (case raw_off addr elem m of
        None \<Rightarrow> (m, Inl Unmapped)
      | Some off \<Rightarrow> (m, Inr (plain_read (raw_bytes m) off elem)))"

definition raw_sstore :: "u64 \<Rightarrow> u64 \<Rightarrow> nat \<Rightarrow> RawStrMem \<Rightarrow> RawStrMem \<times> (MemTrap + unit)" where
  "raw_sstore addr val elem m =
     (case raw_off addr elem m of
        None \<Rightarrow> (m, Inl Unmapped)
      | Some off \<Rightarrow> (m\<lparr>raw_bytes := plain_write (raw_bytes m) off val elem\<rparr>, Inr ()))"

section \<open>String operations\<close>

record StrFault =
  sf_addr :: u64
  sf_write :: bool
  sf_trap :: MemTrap
  sf_value :: u64
  sf_elem :: nat

definition addr_mask :: "nat \<Rightarrow> u64" where
  "addr_mask addr_bits =
     (if addr_bits = 16 then 0xFFFF else if addr_bits = 32 then 0xFFFFFFFF else - 1)"

text \<open>
  A pointer or counter register moved by \<open>step\<close> within the address width: a 32-bit width clears the upper
  half of the register, a 16-bit width keeps the upper bits (the closures \<^verbatim>\<open>advance\<close> and \<^verbatim>\<open>dec\<close>).
\<close>

definition advance :: "nat \<Rightarrow> u64 \<Rightarrow> u64 \<Rightarrow> u64" where
  "advance addr_bits step reg =
     (let amask = addr_mask addr_bits;
          lo = ((reg AND amask) + step) AND amask
      in if addr_bits = 32 then lo else (reg AND NOT amask) OR lo)"

definition str_trap ::
    "u64 \<Rightarrow> u64 \<Rightarrow> bool \<Rightarrow> MemTrap \<Rightarrow> u64 \<Rightarrow> nat \<Rightarrow> CpuState \<Rightarrow> 'm \<Rightarrow> (CpuState \<times> 'm \<times> StrFault option) option" where
  "str_trap cur_addr addr wr t value elem c m =
     Some (c\<lparr>rip := cur_addr\<rparr>, m,
       Some \<lparr>sf_addr = addr, sf_write = wr, sf_trap = t, sf_value = value, sf_elem = elem\<rparr>)"

text \<open>One element: \<open>sa\<close> and \<open>da\<close> are the linear source and destination addresses.\<close>

definition string_step ::
    "(u64 \<Rightarrow> nat \<Rightarrow> 'm \<Rightarrow> 'm \<times> (MemTrap + u64)) \<Rightarrow> (u64 \<Rightarrow> u64 \<Rightarrow> nat \<Rightarrow> 'm \<Rightarrow> 'm \<times> (MemTrap + unit)) \<Rightarrow>
     StrOp \<Rightarrow> nat \<Rightarrow> u64 \<Rightarrow> nat \<Rightarrow> u64 \<Rightarrow> u64 \<Rightarrow> u64 \<Rightarrow> CpuState \<Rightarrow> 'm \<Rightarrow>
     (CpuState \<times> 'm \<times> StrFault option) option" where
  "string_step sload sstore op elem cur_addr addr_bits src_base dst_base step c m =
     (let sa = src_base + (gpr c RSI AND addr_mask addr_bits);
          da = dst_base + (gpr c RDI AND addr_mask addr_bits);
          bump_si = (\<lambda>c. set_gpr RSI (advance addr_bits step (gpr c RSI)) c);
          bump_di = (\<lambda>c. set_gpr RDI (advance addr_bits step (gpr c RDI)) c);
          compare = (\<lambda>a b c. c\<lparr>flags := apply_flags FM_ALL (alu_sub a b 0 elem) (flags c)\<rparr>)
      in case op of
           Movs \<Rightarrow>
             (case sload sa elem m of
                (m1, Inl t) \<Rightarrow> str_trap cur_addr sa False t 0 elem c m1
              | (m1, Inr v) \<Rightarrow>
                  (case sstore da v elem m1 of
                     (m2, Inl t) \<Rightarrow> str_trap cur_addr da True t v elem c m2
                   | (m2, Inr _) \<Rightarrow> Some (bump_di (bump_si c), m2, None)))
         | Stos \<Rightarrow>
             let v = gpr c RAX AND size_mask elem
             in (case sstore da v elem m of
                   (m1, Inl t) \<Rightarrow> str_trap cur_addr da True t v elem c m1
                 | (m1, Inr _) \<Rightarrow> Some (bump_di c, m1, None))
         | Lods \<Rightarrow>
             (case sload sa elem m of
                (m1, Inl t) \<Rightarrow> str_trap cur_addr sa False t 0 elem c m1
              | (m1, Inr v) \<Rightarrow> do {
                  c' \<leftarrow> write_gpr RAX v elem c;
                  Some (bump_si c', m1, None)
                })
         | Scas \<Rightarrow>
             (case sload da elem m of
                (m1, Inl t) \<Rightarrow> str_trap cur_addr da False t 0 elem c m1
              | (m1, Inr b) \<Rightarrow> Some (bump_di (compare (gpr c RAX AND size_mask elem) b c), m1, None))
         | Cmps \<Rightarrow>
             (case sload sa elem m of
                (m1, Inl t) \<Rightarrow> str_trap cur_addr sa False t 0 elem c m1
              | (m1, Inr a) \<Rightarrow>
                  (case sload da elem m1 of
                     (m2, Inl t) \<Rightarrow> str_trap cur_addr da False t 0 elem c m2
                   | (m2, Inr b) \<Rightarrow> Some (bump_di (bump_si (compare a b c)), m2, None))))"

text \<open>The loop; the first argument is fuel, and running out of it is \<open>None\<close>.\<close>

fun string_loop ::
    "nat \<Rightarrow> (u64 \<Rightarrow> nat \<Rightarrow> 'm \<Rightarrow> 'm \<times> (MemTrap + u64)) \<Rightarrow> (u64 \<Rightarrow> u64 \<Rightarrow> nat \<Rightarrow> 'm \<Rightarrow> 'm \<times> (MemTrap + unit)) \<Rightarrow>
     StrOp \<Rightarrow> nat \<Rightarrow> RepKind \<Rightarrow> u64 \<Rightarrow> nat \<Rightarrow> u64 \<Rightarrow> u64 \<Rightarrow> u64 \<Rightarrow> CpuState \<Rightarrow> 'm \<Rightarrow>
     (CpuState \<times> 'm \<times> StrFault option) option" where
  "string_loop 0 sload sstore op elem rep cur_addr addr_bits src_base dst_base step c m = None"
| "string_loop (Suc n) sload sstore op elem rep cur_addr addr_bits src_base dst_base step c m =
     (if rep \<noteq> RepNone \<and> gpr c RCX AND addr_mask addr_bits = 0 then Some (c, m, None)
      else do {
        (c', m', f) \<leftarrow> string_step sload sstore op elem cur_addr addr_bits src_base dst_base step c m;
        let c'' = set_gpr RCX (advance addr_bits (- 1) (gpr c' RCX)) c';
        let again = string_loop n sload sstore op elem rep cur_addr addr_bits src_base dst_base step c'' m';
        if f \<noteq> None then Some (c', m', f)
        else case rep of
               RepNone \<Rightarrow> Some (c', m', None)
             | Rep \<Rightarrow> again
             | Repe \<Rightarrow> if \<not> flag_zf (flags c'') then Some (c'', m', None) else again
             | Repne \<Rightarrow> if flag_zf (flags c'') then Some (c'', m', None) else again
      })"

definition string_fuel :: "nat \<Rightarrow> CpuState \<Rightarrow> nat" where
  "string_fuel addr_bits c = Suc (unat (gpr c RCX AND addr_mask addr_bits))"

definition string_run_impl ::
    "(u64 \<Rightarrow> nat \<Rightarrow> 'm \<Rightarrow> 'm \<times> (MemTrap + u64)) \<Rightarrow> (u64 \<Rightarrow> u64 \<Rightarrow> nat \<Rightarrow> 'm \<Rightarrow> 'm \<times> (MemTrap + unit)) \<Rightarrow>
     StrOp \<Rightarrow> nat \<Rightarrow> RepKind \<Rightarrow> u64 \<Rightarrow> nat \<Rightarrow> u64 \<Rightarrow> u64 \<Rightarrow> CpuState \<Rightarrow> 'm \<Rightarrow>
     (CpuState \<times> 'm \<times> StrFault option) option" where
  "string_run_impl sload sstore op elem rep cur_addr addr_bits src_base dst_base c m =
     (let step = (if flag_df (flags c) then - of_nat elem else of_nat elem)
      in string_loop (string_fuel addr_bits c) sload sstore op elem rep cur_addr addr_bits src_base dst_base step c m)"

definition string_run ::
    "(u64 \<Rightarrow> nat \<Rightarrow> 'm \<Rightarrow> 'm \<times> (MemTrap + u64)) \<Rightarrow> (u64 \<Rightarrow> u64 \<Rightarrow> nat \<Rightarrow> 'm \<Rightarrow> 'm \<times> (MemTrap + unit)) \<Rightarrow>
     StrOp \<Rightarrow> nat \<Rightarrow> RepKind \<Rightarrow> u64 \<Rightarrow> nat \<Rightarrow> u64 \<Rightarrow> CpuState \<Rightarrow> 'm \<Rightarrow>
     (CpuState \<times> 'm \<times> StrFault option) option" where
  "string_run sload sstore op elem rep cur_addr addr_bits seg_base c m =
     string_run_impl sload sstore op elem rep cur_addr addr_bits seg_base 0 c m"

definition str_fault_exit :: "StrFault \<Rightarrow> Exit" where
  "str_fault_exit f =
     trap_exit (sf_trap f) (sf_addr f) (sf_elem f) (if sf_write f then AccWrite else AccRead) (sf_value f)"

definition str_finish :: "(CpuState \<times> Memory \<times> StrFault option) option \<Rightarrow> istate \<Rightarrow> exec_result" where
  "str_finish r st = do {
     (c, m, f) \<leftarrow> r;
     Some (st\<lparr>icpu := c, imem := m\<rparr>, map_option (\<lambda>f. StepExit (str_fault_exit f)) f)
   }"

definition exec_rep_string :: "u64 \<Rightarrow> StrOp \<Rightarrow> nat \<Rightarrow> RepKind \<Rightarrow> nat \<Rightarrow> Val \<Rightarrow> istate \<Rightarrow> exec_result" where
  "exec_rep_string cur_addr op elem rep addr_bits seg_base st = do {
     base \<leftarrow> read_val seg_base (itemps st);
     str_finish (string_run mem_read mem_write op elem rep cur_addr addr_bits base (icpu st) (imem st)) st
   }"

definition exec_rep_string_real :: "u64 \<Rightarrow> StrOp \<Rightarrow> nat \<Rightarrow> RepKind \<Rightarrow> Val \<Rightarrow> Val \<Rightarrow> istate \<Rightarrow> exec_result" where
  "exec_rep_string_real cur_addr op elem rep ds_base es_base st = do {
     ds \<leftarrow> read_val ds_base (itemps st);
     es \<leftarrow> read_val es_base (itemps st);
     str_finish (string_run_impl mem_read mem_write op elem rep cur_addr 16 ds es (icpu st) (imem st)) st
   }"

section \<open>Flag moves\<close>

definition exec_set_df :: "bool \<Rightarrow> istate \<Rightarrow> exec_result" where
  "exec_set_df value st = next_op (upd_flags (\<lambda>f. f\<lparr>flag_df := value\<rparr>) st)"

definition exec_lahf :: "istate \<Rightarrow> exec_result" where
  "exec_lahf st =
     (let c = icpu st; ah = (ucast (to_flags16 (flags c) AND 0xFF) :: u64)
      in next_op (st\<lparr>icpu := set_gpr RAX ((gpr c RAX AND NOT 0xFF00) OR push_bit 8 ah) c\<rparr>))"

definition exec_sahf :: "istate \<Rightarrow> exec_result" where
  "exec_sahf st =
     (let ah = (ucast (drop_bit 8 (gpr (icpu st) RAX)) :: u8)
      in next_op (upd_flags (\<lambda>f.
           (set_af (ah AND push_bit 4 1 \<noteq> 0) (set_pf (ah AND push_bit 2 1 \<noteq> 0) (f\<lparr>flag_cf := (ah AND push_bit 0 1 \<noteq> 0)\<rparr>)))
             \<lparr>flag_zf := (ah AND push_bit 6 1 \<noteq> 0), flag_sf := (ah AND push_bit 7 1 \<noteq> 0)\<rparr>) st))"

section \<open>The real-mode stack\<close>

definition ss_addr :: "CpuState \<Rightarrow> u16 \<Rightarrow> u64" where
  "ss_addr c sp = push_bit 4 (ucast (ss_sel c)) + ucast sp"

text \<open>A 16-bit register write: the upper bits stay (\<^verbatim>\<open>(r & !0xFFFF) | w\<close>).\<close>

definition set_gpr16 :: "nat \<Rightarrow> u16 \<Rightarrow> CpuState \<Rightarrow> CpuState" where
  "set_gpr16 i w c = set_gpr i ((gpr c i AND NOT 0xFFFF) OR ucast w) c"

text \<open>The machine a stack operation works on: the register file and guest memory.\<close>

type_synonym machine = "CpuState \<times> Memory"

definition push16 :: "u64 \<Rightarrow> u16 \<Rightarrow> machine \<Rightarrow> machine \<times> (StepResult + unit)" where
  "push16 cur_addr word s =
     (let (c, m) = s;
          sp = (ucast (gpr c RSP) :: u16) - 2;
          addr = ss_addr c sp
      in case mem_write addr (ucast word) 2 m of
           (m', Inl t) \<Rightarrow>
             let (c', r) = trap_out cur_addr t addr 2 AccWrite (ucast word) c in ((c', m'), Inl r)
         | (m', Inr _) \<Rightarrow> ((set_gpr16 RSP sp c, m'), Inr ()))"

definition pop16 :: "u64 \<Rightarrow> machine \<Rightarrow> machine \<times> (StepResult + u16)" where
  "pop16 cur_addr s =
     (let (c, m) = s;
          sp = (ucast (gpr c RSP) :: u16);
          addr = ss_addr c sp
      in case mem_read addr 2 m of
           (m', Inr v) \<Rightarrow> ((set_gpr16 RSP (sp + 2) c, m'), Inr (ucast v))
         | (m', Inl t) \<Rightarrow>
             let (c', r) = trap_out cur_addr t addr 2 AccRead 0 c in ((c', m'), Inl r))"

text \<open>A sequence of pushes stops at the first one that traps.\<close>

fun push_words :: "u64 \<Rightarrow> u16 list \<Rightarrow> machine \<Rightarrow> machine \<times> (StepResult + unit)" where
  "push_words cur_addr [] s = (s, Inr ())"
| "push_words cur_addr (w # ws) s =
     (case push16 cur_addr w s of
        (s', Inl e) \<Rightarrow> (s', Inl e)
      | (s', Inr _) \<Rightarrow> push_words cur_addr ws s')"

fun pop_slots :: "u64 \<Rightarrow> nat option list \<Rightarrow> machine \<Rightarrow> machine \<times> (StepResult + unit)" where
  "pop_slots cur_addr [] s = (s, Inr ())"
| "pop_slots cur_addr (slot # slots) s =
     (case pop16 cur_addr s of
        (s', Inl e) \<Rightarrow> (s', Inl e)
      | ((c, m), Inr v) \<Rightarrow>
          pop_slots cur_addr slots (case slot of Some i \<Rightarrow> (set_gpr16 i v c, m) | None \<Rightarrow> (c, m)))"

definition on_machine :: "(machine \<Rightarrow> machine \<times> (StepResult + unit)) \<Rightarrow> istate \<Rightarrow> exec_result" where
  "on_machine f st =
     (case f (icpu st, imem st) of
        ((c, m), Inl e) \<Rightarrow> stop_op e (st\<lparr>icpu := c, imem := m\<rparr>)
      | ((c, m), Inr _) \<Rightarrow> next_op (st\<lparr>icpu := c, imem := m\<rparr>))"

definition pusha_words :: "CpuState \<Rightarrow> u16 list" where
  "pusha_words c =
     (let orig_sp = ucast (gpr c RSP)
      in [ucast (gpr c RAX), ucast (gpr c RCX), ucast (gpr c RDX), ucast (gpr c RBX), orig_sp,
          ucast (gpr c RBP), ucast (gpr c RSI), ucast (gpr c RDI)])"

definition exec_pusha_real :: "u64 \<Rightarrow> istate \<Rightarrow> exec_result" where
  "exec_pusha_real cur_addr st = on_machine (push_words cur_addr (pusha_words (icpu st))) st"

definition popa_order :: "nat option list" where
  "popa_order = [Some RDI, Some RSI, Some RBP, None, Some RBX, Some RDX, Some RCX, Some RAX]"

definition exec_popa_real :: "u64 \<Rightarrow> istate \<Rightarrow> exec_result" where
  "exec_popa_real cur_addr st = on_machine (pop_slots cur_addr popa_order) st"

text \<open>The display copy of \<^verbatim>\<open>enter\<close>: \<open>k\<close> levels left, \<open>bp\<close> the walking frame pointer.\<close>

fun enter_display :: "u64 \<Rightarrow> nat \<Rightarrow> u16 \<Rightarrow> machine \<Rightarrow> machine \<times> (StepResult + unit)" where
  "enter_display cur_addr 0 bp s = (s, Inr ())"
| "enter_display cur_addr (Suc k) bp s =
     (let bp' = bp - 2;
          c = set_gpr16 RBP bp' (fst s);
          addr = ss_addr c bp'
      in case mem_read addr 2 (snd s) of
           (m', Inl t) \<Rightarrow>
             let (c', r) = trap_out cur_addr t addr 2 AccRead 0 c in ((c', m'), Inl r)
         | (m', Inr v) \<Rightarrow>
             (case push16 cur_addr (ucast v) (c, m') of
                (s', Inl e) \<Rightarrow> (s', Inl e)
              | (s', Inr _) \<Rightarrow> enter_display cur_addr k bp' s'))"

definition enter_nested :: "u64 \<Rightarrow> nat \<Rightarrow> machine \<Rightarrow> machine \<times> (StepResult + unit)" where
  "enter_nested cur_addr lvl s =
     (let frame_ptr = (ucast (gpr (fst s) RSP) :: u16)
      in if lvl > 0 then
           case enter_display cur_addr (lvl - 1) (ucast (gpr (fst s) RBP)) s of
             (s', Inl e) \<Rightarrow> (s', Inl e)
           | (s', Inr _) \<Rightarrow> push16 cur_addr frame_ptr s'
         else (s, Inr ()))"

definition enter_frame :: "u64 \<Rightarrow> u16 \<Rightarrow> u8 \<Rightarrow> machine \<Rightarrow> machine \<times> (StepResult + unit)" where
  "enter_frame cur_addr alloc level s =
     (case push16 cur_addr (ucast (gpr (fst s) RBP)) s of
        (s1, Inl e) \<Rightarrow> (s1, Inl e)
      | (s1, Inr _) \<Rightarrow>
          let frame_ptr = (ucast (gpr (fst s1) RSP) :: u16)
          in case enter_nested cur_addr (unat (level AND 0x1F)) s1 of
               (s2, Inl e) \<Rightarrow> (s2, Inl e)
             | ((c, m), Inr _) \<Rightarrow>
                 let c1 = set_gpr16 RBP frame_ptr c;
                     new_sp = (ucast (gpr c1 RSP) :: u16) - alloc
                 in ((set_gpr16 RSP new_sp c1, m), Inr ()))"

definition exec_enter_real :: "u64 \<Rightarrow> u16 \<Rightarrow> u8 \<Rightarrow> istate \<Rightarrow> exec_result" where
  "exec_enter_real cur_addr alloc level st = on_machine (enter_frame cur_addr alloc level) st"

definition exec_pushf_real :: "u64 \<Rightarrow> istate \<Rightarrow> exec_result" where
  "exec_pushf_real cur_addr st = on_machine (push16 cur_addr (to_flags16 (flags (icpu st)))) st"

definition exec_popf_real :: "u64 \<Rightarrow> istate \<Rightarrow> exec_result" where
  "exec_popf_real cur_addr st =
     (case pop16 cur_addr (icpu st, imem st) of
        ((c, m), Inr img) \<Rightarrow>
          next_op (st\<lparr>icpu := c\<lparr>flags := set_flags16 img (flags c)\<rparr>, imem := m\<rparr>)
      | ((c, m), Inl e) \<Rightarrow> stop_op e (st\<lparr>icpu := c, imem := m\<rparr>))"

section \<open>Interrupt delivery and far transfers\<close>

definition deliver_interrupt :: "u64 \<Rightarrow> u8 \<Rightarrow> u64 \<Rightarrow> machine \<Rightarrow> machine \<times> StepResult" where
  "deliver_interrupt cur_addr vector saved_ip s =
     (case push_words cur_addr [to_flags16 (flags (fst s)), cs_sel (fst s), ucast saved_ip] s of
        (s1, Inl e) \<Rightarrow> (s1, e)
      | ((c, m), Inr _) \<Rightarrow>
          let c1 = c\<lparr>flags := (flags c)\<lparr>flag_if := False\<rparr>\<rparr>;
              ivt = (ucast vector :: u64) * 4
          in case mem_read ivt 2 m of
               (m1, Inl t) \<Rightarrow> let (c', r) = trap_out cur_addr t ivt 2 AccRead 0 c1 in ((c', m1), r)
             | (m1, Inr ip) \<Rightarrow>
                 (case mem_read (ivt + 2) 2 m1 of
                    (m2, Inl t) \<Rightarrow>
                      let (c', r) = trap_out cur_addr t (ivt + 2) 2 AccRead 0 c1 in ((c', m2), r)
                  | (m2, Inr cs) \<Rightarrow>
                      ((c1\<lparr>cs_sel := ucast cs, rip := ucast (ucast ip :: u16)\<rparr>, m2), Continue)))"

text \<open>Pops that stop at the first trap, collecting the popped words.\<close>

fun pop_words :: "u64 \<Rightarrow> nat \<Rightarrow> machine \<Rightarrow> machine \<times> (StepResult + u16 list)" where
  "pop_words cur_addr 0 s = (s, Inr [])"
| "pop_words cur_addr (Suc k) s =
     (case pop16 cur_addr s of
        (s', Inl e) \<Rightarrow> (s', Inl e)
      | (s', Inr w) \<Rightarrow>
          (case pop_words cur_addr k s' of
             (s'', Inl e) \<Rightarrow> (s'', Inl e)
           | (s'', Inr ws) \<Rightarrow> (s'', Inr (w # ws))))"

definition exec_iret_real :: "u64 \<Rightarrow> machine \<Rightarrow> machine \<times> StepResult" where
  "exec_iret_real cur_addr s =
     (case pop_words cur_addr 3 s of
        (s', Inl e) \<Rightarrow> (s', e)
      | ((c, m), Inr ws) \<Rightarrow>
          ((c\<lparr>flags := set_flags16 (ws ! 2) (flags c), cs_sel := ws ! 1, rip := ucast (ws ! 0)\<rparr>, m), Continue))"

definition exec_far_jump :: "u64 list \<Rightarrow> Val \<Rightarrow> Val \<Rightarrow> machine \<Rightarrow> (machine \<times> StepResult) option" where
  "exec_far_jump ts cs ip s = do {
     vcs \<leftarrow> read_val cs ts;
     vip \<leftarrow> read_val ip ts;
     Some (((fst s)\<lparr>cs_sel := ucast (vcs AND 0xFFFF), rip := vip AND 0xFFFF\<rparr>, snd s), Continue)
   }"

definition exec_far_call :: "u64 list \<Rightarrow> u64 \<Rightarrow> Val \<Rightarrow> Val \<Rightarrow> u16 \<Rightarrow> machine \<Rightarrow> (machine \<times> StepResult) option" where
  "exec_far_call ts cur_addr cs ip ret_ip s = do {
     vcs \<leftarrow> read_val cs ts;
     vip \<leftarrow> read_val ip ts;
     Some (case push_words cur_addr [cs_sel (fst s), ret_ip] s of
             (s', Inl e) \<Rightarrow> (s', e)
           | ((c, m), Inr _) \<Rightarrow> ((c\<lparr>cs_sel := ucast (vcs AND 0xFFFF), rip := vip AND 0xFFFF\<rparr>, m), Continue))
   }"

definition exec_far_ret :: "u64 \<Rightarrow> u16 \<Rightarrow> machine \<Rightarrow> machine \<times> StepResult" where
  "exec_far_ret cur_addr pop_extra s =
     (case pop_words cur_addr 2 s of
        (s', Inl e) \<Rightarrow> (s', e)
      | ((c, m), Inr ws) \<Rightarrow>
          let c' = (if pop_extra \<noteq> 0 then set_gpr16 RSP (ucast (gpr c RSP) + pop_extra) c else c)
          in ((c'\<lparr>cs_sel := ws ! 1, rip := ucast (ws ! 0)\<rparr>, m), Continue))"

fun loop_taken :: "LoopKind \<Rightarrow> u16 \<Rightarrow> bool \<Rightarrow> bool" where
  "loop_taken Loop cx zf = (cx \<noteq> 0)"
| "loop_taken Loope cx zf = (cx \<noteq> 0 \<and> zf)"
| "loop_taken Loopne cx zf = (cx \<noteq> 0 \<and> \<not> zf)"
| "loop_taken Jcxz cx zf = (cx = 0)"

definition exec_loop_cx :: "LoopKind \<Rightarrow> u64 \<Rightarrow> u64 \<Rightarrow> CpuState \<Rightarrow> CpuState \<times> StepResult" where
  "exec_loop_cx kind taken fallthrough c =
     (let cx = (ucast (gpr c RCX) :: u16) - (if kind = Jcxz then 0 else 1);
          c' = (if kind = Jcxz then c else set_gpr16 RCX cx c)
      in (c'\<lparr>rip := (if loop_taken kind cx (flag_zf (flags c')) then taken else fallthrough)\<rparr>, Continue))"

section \<open>Block terminators\<close>

definition exec_jump :: "Val \<Rightarrow> istate \<Rightarrow> exec_result" where
  "exec_jump target st = do {
     t \<leftarrow> read_val target (itemps st);
     stop_op Continue (st\<lparr>icpu := (icpu st)\<lparr>rip := t\<rparr>\<rparr>)
   }"

definition exec_branch :: "Cond \<Rightarrow> u64 \<Rightarrow> u64 \<Rightarrow> istate \<Rightarrow> exec_result" where
  "exec_branch cond taken fallthrough st =
     stop_op Continue
       (st\<lparr>icpu := (icpu st)\<lparr>rip := (if eval_cond cond (flags (icpu st)) then taken else fallthrough)\<rparr>\<rparr>)"

definition exec_call :: "u64 \<Rightarrow> Val \<Rightarrow> u64 \<Rightarrow> nat \<Rightarrow> bool \<Rightarrow> istate \<Rightarrow> exec_result" where
  "exec_call cur_addr target return_addr slot wrap_sp st =
     (let sp0 = gpr (icpu st) RSP - of_nat slot;
          sp = (if wrap_sp then sp0 AND 0xFFFFFFFF else sp0)
      in case mem_write sp return_addr slot (imem st) of
           (m, Inl t) \<Rightarrow> trap_op cur_addr t sp slot AccWrite return_addr (st\<lparr>imem := m\<rparr>)
         | (m, Inr _) \<Rightarrow> do {
             t \<leftarrow> read_val target (itemps st);
             stop_op Continue (st\<lparr>imem := m, icpu := (set_gpr RSP sp (icpu st))\<lparr>rip := t\<rparr>\<rparr>)
           })"

definition exec_ret :: "u64 \<Rightarrow> nat \<Rightarrow> u16 \<Rightarrow> bool \<Rightarrow> istate \<Rightarrow> exec_result" where
  "exec_ret cur_addr slot pop_extra wrap_sp st =
     (let sp = gpr (icpu st) RSP
      in case mem_read sp slot (imem st) of
           (m, Inr ret) \<Rightarrow>
             let nsp0 = sp + of_nat slot + ucast pop_extra;
                 nsp = (if wrap_sp then nsp0 AND 0xFFFFFFFF else nsp0)
             in stop_op Continue (st\<lparr>imem := m, icpu := (set_gpr RSP nsp (icpu st))\<lparr>rip := ret\<rparr>\<rparr>)
         | (m, Inl t) \<Rightarrow> trap_op cur_addr t sp slot AccRead 0 (st\<lparr>imem := m\<rparr>))"

definition exec_syscall :: "u64 \<Rightarrow> bool \<Rightarrow> istate \<Rightarrow> exec_result" where
  "exec_syscall block_end is_amd64 st =
     (let c = icpu st;
          c1 = (if is_amd64
                then set_gpr R11_index (to_rflags (flags c)) (set_gpr RCX block_end c) else c)
      in stop_op (StepExit ExSyscall) (st\<lparr>icpu := c1\<lparr>rip := block_end\<rparr>\<rparr>))"

definition exec_port_io :: "u64 \<Rightarrow> Val \<Rightarrow> Val \<Rightarrow> nat \<Rightarrow> bool \<Rightarrow> istate \<Rightarrow> exec_result" where
  "exec_port_io block_end port value sz dir_out st = do {
     vp \<leftarrow> read_val port (itemps st);
     vv \<leftarrow> read_val value (itemps st);
     let c = (icpu st)\<lparr>rip := block_end\<rparr>;
     let c' = (if dir_out then c else c\<lparr>pending_port_in := Some sz\<rparr>);
     stop_op (StepExit (ExPortIo (ucast vp) sz (if dir_out then PortOut else PortIn) (vv AND size_mask sz)))
       (st\<lparr>icpu := c'\<rparr>)
   }"

definition exec_hlt :: "u64 \<Rightarrow> istate \<Rightarrow> exec_result" where
  "exec_hlt block_end st = stop_op (StepExit ExHlt) (st\<lparr>icpu := (icpu st)\<lparr>rip := block_end\<rparr>\<rparr>)"

definition exec_trap :: "u64 \<Rightarrow> u8 \<Rightarrow> u8 \<Rightarrow> istate \<Rightarrow> exec_result" where
  "exec_trap cur_addr vector advance_by st =
     (let at = cur_addr + ucast advance_by
      in stop_op (StepExit (ExException at vector)) (st\<lparr>icpu := (icpu st)\<lparr>rip := at\<rparr>\<rparr>))"

end
