(* ===== verification/X86_Interp.thy ===== *)
theory X86_Interp
  imports X86_Exec_Ctl
begin

text \<open>
  The block interpreter (\<^verbatim>\<open>interp/mod.rs\<close>): the dispatch of one operation, the walk over a block with its
  retirement bookkeeping, and \<^verbatim>\<open>interpret_block\<close>.  The lockstep observer the source can attach to
  \<^verbatim>\<open>InsnStart\<close> reads the state and is not part of the model.
\<close>

unbundle bit_operations_syntax

section \<open>Bookkeeping\<close>

record RetireInfo =
  info_retired :: u64
  info_sti_shadow :: bool

record walk_state =
  wst :: istate
  cur_addr :: u64
  retired :: u64
  started :: bool
  sti_shadow :: bool

definition block_end :: "IrBlock \<Rightarrow> u64" where
  "block_end ir = guest_start ir + ucast (guest_len ir)"

section \<open>One operation\<close>

text \<open>Bodies that always end the block run on the register file and guest memory.\<close>

definition ends_block :: "(machine \<times> StepResult) \<Rightarrow> istate \<Rightarrow> exec_result" where
  "ends_block r st =
     (let ((c, m), x) = r in stop_op x (st\<lparr>icpu := c, imem := m\<rparr>))"

definition exec_into_gate :: "u64 \<Rightarrow> u64 \<Rightarrow> istate \<Rightarrow> exec_result" where
  "exec_into_gate cur next_ip st =
     (if flag_of (flags (icpu st))
      then ends_block (deliver_interrupt cur 4 next_ip (icpu st, imem st)) st
      else stop_op Continue (st\<lparr>icpu := (icpu st)\<lparr>rip := next_ip\<rparr>\<rparr>))"

definition exec_seg_limit_check :: "u64 \<Rightarrow> Val \<Rightarrow> nat \<Rightarrow> u8 \<Rightarrow> u64 \<Rightarrow> istate \<Rightarrow> exec_result" where
  "exec_seg_limit_check cur offset sz vector fault_ip st = do {
     v \<leftarrow> read_val offset (itemps st);
     let off = v AND 0xFFFF;
     if off + of_nat sz > 0x10000
     then ends_block (deliver_interrupt cur vector fault_ip (icpu st, imem st)) st
     else next_op st
   }"

definition exec_bound_gate :: "u64 \<Rightarrow> Val \<Rightarrow> Val \<Rightarrow> Val \<Rightarrow> u64 \<Rightarrow> u64 \<Rightarrow> istate \<Rightarrow> exec_result" where
  "exec_bound_gate cur index lower upper fault_ip next_ip st = do {
     vi \<leftarrow> read_val index (itemps st);
     vl \<leftarrow> read_val lower (itemps st);
     vu \<leftarrow> read_val upper (itemps st);
     let i = sint (ucast vi :: u16);
     let lo = sint (ucast vl :: u16);
     let hi = sint (ucast vu :: u16);
     if i < lo \<or> i > hi
     then ends_block (deliver_interrupt cur 5 fault_ip (icpu st, imem st)) st
     else stop_op Continue (st\<lparr>icpu := (icpu st)\<lparr>rip := next_ip\<rparr>\<rparr>)
   }"

definition exec_set_cf :: "bool option \<Rightarrow> istate \<Rightarrow> exec_result" where
  "exec_set_cf value st =
     next_op (upd_flags (\<lambda>f. f\<lparr>flag_cf := (case value of Some v \<Rightarrow> v | None \<Rightarrow> \<not> flag_cf f)\<rparr>) st)"

text \<open>
  The arms of \<^verbatim>\<open>walk_ops\<close> that only touch the register file, memory and temporaries.  \<open>InsnStart\<close> and the
  STI shadow of \<open>SetIf\<close> are handled by the walk below.
\<close>

primrec exec_op :: "u64 \<Rightarrow> u64 \<Rightarrow> IrOp \<Rightarrow> istate \<Rightarrow> exec_result" where
  "exec_op cur be (InsnStart a) = next_op"
| "exec_op cur be (ReadReg dst reg) = exec_read_reg dst reg"
| "exec_op cur be (WriteReg reg src sz) = exec_write_reg reg src sz"
| "exec_op cur be (Add dst a b sz fm) = exec_add dst a b sz fm"
| "exec_op cur be (Sub dst a b sz fm) = exec_sub dst a b sz fm"
| "exec_op cur be (Adc dst a b sz fm) = exec_adc dst a b sz fm"
| "exec_op cur be (Sbb dst a b sz fm) = exec_sbb dst a b sz fm"
| "exec_op cur be (And dst a b sz fm) = exec_and dst a b sz fm"
| "exec_op cur be (Or dst a b sz fm) = exec_or dst a b sz fm"
| "exec_op cur be (Xor dst a b sz fm) = exec_xor dst a b sz fm"
| "exec_op cur be (Shl dst a b sz fm) = exec_shl dst a b sz fm"
| "exec_op cur be (Shr dst a b sz fm) = exec_shr dst a b sz fm"
| "exec_op cur be (Sar dst a b sz fm) = exec_sar dst a b sz fm"
| "exec_op cur be (DoubleShift dst a b cnt sz left fm) = exec_double_shift dst a b cnt sz left fm"
| "exec_op cur be (Rol dst a b sz fm) = exec_rol dst a b sz fm"
| "exec_op cur be (Ror dst a b sz fm) = exec_ror dst a b sz fm"
| "exec_op cur be (Rcl dst a b sz fm) = exec_rcl dst a b sz fm"
| "exec_op cur be (Rcr dst a b sz fm) = exec_rcr dst a b sz fm"
| "exec_op cur be (Sext dst a from) = exec_sext dst a from"
| "exec_op cur be (Bswap dst a sz) = exec_bswap dst a sz"
| "exec_op cur be (Mul lo hi a b sz sg fm) = exec_mul lo hi a b sz sg fm"
| "exec_op cur be (Div quot rem hi lo d sz sg) = exec_div cur quot rem hi lo d sz sg"
| "exec_op cur be (GetCond dst cond) = exec_get_cond dst cond"
| "exec_op cur be (Load dst addr sz) = exec_load cur dst addr sz"
| "exec_op cur be (Store addr src sz ord) = exec_store cur addr src sz"
| "exec_op cur be (Bt result a b sz op) = exec_bt result a b sz op"
| "exec_op cur be Cpuid = exec_cpuid"
| "exec_op cur be Xgetbv = exec_xgetbv"
| "exec_op cur be (Popcnt dst src sz) = exec_popcnt dst src sz"
| "exec_op cur be (Crc32 dst crc src n) = exec_crc32 dst crc src n"
| "exec_op cur be (BitScan dst src old sz op) = exec_bit_scan dst src old sz op"
| "exec_op cur be (Bmi dst a b sz op) = exec_bmi dst a b sz op"
| "exec_op cur be (AtomicRmw old addr src sz op) = exec_atomic_rmw cur old addr src sz op"
| "exec_op cur be (AtomicCas old addr expected src sz) = exec_atomic_cas cur old addr expected src sz"
| "exec_op cur be (SetDf v) = exec_set_df v"
| "exec_op cur be (SetIf v) = (\<lambda>st. next_op (upd_flags (\<lambda>f. f\<lparr>flag_if := v\<rparr>) st))"
| "exec_op cur be PushfReal = exec_pushf_real cur"
| "exec_op cur be PopfReal = exec_popf_real cur"
| "exec_op cur be (IntGate vector saved_ip) =
     (\<lambda>st. ends_block (deliver_interrupt cur vector saved_ip (icpu st, imem st)) st)"
| "exec_op cur be (IntoGate next_ip) = exec_into_gate cur next_ip"
| "exec_op cur be (BoundGate index lower upper fault_ip next_ip) =
     exec_bound_gate cur index lower upper fault_ip next_ip"
| "exec_op cur be (SegLimitCheck offset sz vector fault_ip) = exec_seg_limit_check cur offset sz vector fault_ip"
| "exec_op cur be IretReal = (\<lambda>st. ends_block (exec_iret_real cur (icpu st, imem st)) st)"
| "exec_op cur be (SetCf v) = exec_set_cf v"
| "exec_op cur be (Bcd kind) = exec_bcd cur kind"
| "exec_op cur be (LoopCx kind taken fallthrough) =
     (\<lambda>st. let (c, x) = exec_loop_cx kind taken fallthrough (icpu st) in stop_op x (st\<lparr>icpu := c\<rparr>))"
| "exec_op cur be (FarJump cs ip) =
     (\<lambda>st. do { r \<leftarrow> exec_far_jump (itemps st) cs ip (icpu st, imem st); ends_block r st })"
| "exec_op cur be (FarCall cs ip ret_ip) =
     (\<lambda>st. do { r \<leftarrow> exec_far_call (itemps st) cur cs ip ret_ip (icpu st, imem st); ends_block r st })"
| "exec_op cur be (FarRet pop_extra) = (\<lambda>st. ends_block (exec_far_ret cur pop_extra (icpu st, imem st)) st)"
| "exec_op cur be (RepString op elem rep addr_bits seg_base) = exec_rep_string cur op elem rep addr_bits seg_base"
| "exec_op cur be (RepStringReal op elem rep ds es) = exec_rep_string_real cur op elem rep ds es"
| "exec_op cur be Lahf = exec_lahf"
| "exec_op cur be Sahf = exec_sahf"
| "exec_op cur be PushaReal = exec_pusha_real cur"
| "exec_op cur be PopaReal = exec_popa_real cur"
| "exec_op cur be (EnterReal alloc level) = exec_enter_real cur alloc level"
| "exec_op cur be (Jump target) = exec_jump target"
| "exec_op cur be (Branch cond taken fallthrough) = exec_branch cond taken fallthrough"
| "exec_op cur be (Call target return_addr slot wrap_sp) = exec_call cur target return_addr slot wrap_sp"
| "exec_op cur be (Ret slot pop_extra wrap_sp) = exec_ret cur slot pop_extra wrap_sp"
| "exec_op cur be (Syscall is_amd64) = exec_syscall be is_amd64"
| "exec_op cur be Hlt = exec_hlt be"
| "exec_op cur be (OpTrap vector adv) = exec_trap cur vector adv"
| "exec_op cur be (PortIo port value sz dir_out) = exec_port_io be port value sz dir_out"

section \<open>The walk\<close>

definition walk_op :: "u64 \<Rightarrow> IrOp \<Rightarrow> walk_state \<Rightarrow> (walk_state \<times> StepResult option) option" where
  "walk_op be op w =
     (case op of
        InsnStart a \<Rightarrow>
          Some (w\<lparr>retired := (if started w then retired w + 1 else retired w), started := True,
                  sti_shadow := False, cur_addr := a\<rparr>, None)
      | _ \<Rightarrow> do {
          (st, r) \<leftarrow> exec_op (cur_addr w) be op (wst w);
          Some (w\<lparr>wst := st, sti_shadow := (case op of SetIf v \<Rightarrow> v | _ \<Rightarrow> sti_shadow w)\<rparr>, r)
        })"

fun walk_ops :: "u64 \<Rightarrow> IrOp list \<Rightarrow> walk_state \<Rightarrow> (walk_state \<times> StepResult) option" where
  "walk_ops be [] w =
     Some (w\<lparr>wst := (wst w)\<lparr>icpu := (icpu (wst w))\<lparr>rip := be\<rparr>\<rparr>\<rparr>, Continue)"
| "walk_ops be (op # os) w = do {
     (w', r) \<leftarrow> walk_op be op w;
     case r of Some x \<Rightarrow> Some (w', x) | None \<Rightarrow> walk_ops be os w'
   }"

definition block_start :: "IrBlock \<Rightarrow> CpuState \<Rightarrow> Memory \<Rightarrow> walk_state" where
  "block_start ir c m =
     \<lparr>wst = \<lparr>icpu = c, imem = m, itemps = replicate (temp_count ir) 0\<rparr>,
      cur_addr = guest_start ir, retired = 0, started = False, sti_shadow = False\<rparr>"

definition interpret_block ::
    "IrBlock \<Rightarrow> CpuState \<Rightarrow> Memory \<Rightarrow> (CpuState \<times> Memory \<times> RetireInfo \<times> StepResult) option" where
  "interpret_block ir c m = do {
     (w, r) \<leftarrow> walk_ops (block_end ir) (ops ir) (block_start ir c m);
     let c' = icpu (wst w);
     let moved = (started w \<and> rip c' \<noteq> cur_addr w);
     Some (c', imem (wst w),
           \<lparr>info_retired = (if moved then retired w + 1 else retired w),
            info_sti_shadow = (sti_shadow w \<and> moved)\<rparr>, r)
   }"

end
