(* ===== verification/X86_Elide.thy ===== *)
theory X86_Elide
  imports X86_Interp
begin

text \<open>
  Dead-flag elimination (\<^verbatim>\<open>elide_dead_flags\<close> of \<^verbatim>\<open>lift/mod.rs\<close>): a backward pass over a lifted block that
  removes from the flag mask of an operation the flags that are overwritten before they are read.  The
  environment variable that switches the pass off is the argument \<open>disabled\<close>.
\<close>

unbundle bit_operations_syntax

section \<open>The pass\<close>

definition F_CF :: u8 where "F_CF = push_bit 0 1"
definition F_PF :: u8 where "F_PF = push_bit 1 1"
definition F_AF :: u8 where "F_AF = push_bit 2 1"
definition F_ZF :: u8 where "F_ZF = push_bit 3 1"
definition F_SF :: u8 where "F_SF = push_bit 4 1"
definition F_OF :: u8 where "F_OF = push_bit 5 1"

fun cond_reads :: "Cond \<Rightarrow> u8" where
  "cond_reads Eq = F_ZF"
| "cond_reads Ne = F_ZF"
| "cond_reads Below = F_CF"
| "cond_reads AboveEq = F_CF"
| "cond_reads BelowEq = F_CF OR F_ZF"
| "cond_reads Above = F_CF OR F_ZF"
| "cond_reads Less = F_SF OR F_OF"
| "cond_reads GreaterEq = F_SF OR F_OF"
| "cond_reads LessEq = F_SF OR F_OF OR F_ZF"
| "cond_reads Greater = F_SF OR F_OF OR F_ZF"
| "cond_reads Sign = F_SF"
| "cond_reads NoSign = F_SF"
| "cond_reads Overflow = F_OF"
| "cond_reads NoOverflow = F_OF"
| "cond_reads Parity = F_PF"
| "cond_reads NoParity = F_PF"

definition op_reads :: "IrOp \<Rightarrow> u8" where
  "op_reads op =
     (case op of
        Branch cond _ _ \<Rightarrow> cond_reads cond
      | GetCond _ cond \<Rightarrow> cond_reads cond
      | Adc _ _ _ _ _ \<Rightarrow> F_CF
      | Sbb _ _ _ _ _ \<Rightarrow> F_CF
      | Rcl _ _ _ _ _ \<Rightarrow> F_CF
      | Rcr _ _ _ _ _ \<Rightarrow> F_CF
      | _ \<Rightarrow> 0)"

definition count_may_skip :: "Val \<Rightarrow> nat \<Rightarrow> bool \<Rightarrow> bool" where
  "count_may_skip count sz through_carry =
     (let cmask = (if sz = 8 then 0x3F else 0x1F)
      in case count of
           Imm n \<Rightarrow>
             let masked = unat (n AND cmask);
                 eff = (if through_carry then masked mod (sz * 8 + 1) else masked)
             in eff = 0
         | Temp _ \<Rightarrow> True)"

definition shift_flags_may_skip :: "IrOp \<Rightarrow> bool" where
  "shift_flags_may_skip op =
     (case op of
        Shl _ _ b sz _ \<Rightarrow> count_may_skip b sz False
      | Shr _ _ b sz _ \<Rightarrow> count_may_skip b sz False
      | Sar _ _ b sz _ \<Rightarrow> count_may_skip b sz False
      | Rol _ _ b sz _ \<Rightarrow> count_may_skip b sz False
      | Ror _ _ b sz _ \<Rightarrow> count_may_skip b sz False
      | Rcl _ _ b sz _ \<Rightarrow> count_may_skip b sz True
      | Rcr _ _ b sz _ \<Rightarrow> count_may_skip b sz True
      | DoubleShift _ _ _ count sz _ _ \<Rightarrow> count_may_skip count sz False
      | _ \<Rightarrow> False)"

text \<open>\<^verbatim>\<open>op_set_flags_mut\<close> as a reader and a writer of the mask.\<close>

definition op_set_flags :: "IrOp \<Rightarrow> FlagMask option" where
  "op_set_flags op =
     (case op of
        Add _ _ _ _ fm \<Rightarrow> Some fm
      | Adc _ _ _ _ fm \<Rightarrow> Some fm
      | Sub _ _ _ _ fm \<Rightarrow> Some fm
      | Sbb _ _ _ _ fm \<Rightarrow> Some fm
      | And _ _ _ _ fm \<Rightarrow> Some fm
      | Or _ _ _ _ fm \<Rightarrow> Some fm
      | Xor _ _ _ _ fm \<Rightarrow> Some fm
      | Shl _ _ _ _ fm \<Rightarrow> Some fm
      | Shr _ _ _ _ fm \<Rightarrow> Some fm
      | Sar _ _ _ _ fm \<Rightarrow> Some fm
      | Rol _ _ _ _ fm \<Rightarrow> Some fm
      | Ror _ _ _ _ fm \<Rightarrow> Some fm
      | Rcl _ _ _ _ fm \<Rightarrow> Some fm
      | Rcr _ _ _ _ fm \<Rightarrow> Some fm
      | DoubleShift _ _ _ _ _ _ fm \<Rightarrow> Some fm
      | Mul _ _ _ _ _ _ fm \<Rightarrow> Some fm
      | _ \<Rightarrow> None)"

definition with_flags :: "FlagMask \<Rightarrow> IrOp \<Rightarrow> IrOp" where
  "with_flags fm op =
     (case op of
        Add d a b sz _ \<Rightarrow> Add d a b sz fm
      | Adc d a b sz _ \<Rightarrow> Adc d a b sz fm
      | Sub d a b sz _ \<Rightarrow> Sub d a b sz fm
      | Sbb d a b sz _ \<Rightarrow> Sbb d a b sz fm
      | And d a b sz _ \<Rightarrow> And d a b sz fm
      | Or d a b sz _ \<Rightarrow> Or d a b sz fm
      | Xor d a b sz _ \<Rightarrow> Xor d a b sz fm
      | Shl d a b sz _ \<Rightarrow> Shl d a b sz fm
      | Shr d a b sz _ \<Rightarrow> Shr d a b sz fm
      | Sar d a b sz _ \<Rightarrow> Sar d a b sz fm
      | Rol d a b sz _ \<Rightarrow> Rol d a b sz fm
      | Ror d a b sz _ \<Rightarrow> Ror d a b sz fm
      | Rcl d a b sz _ \<Rightarrow> Rcl d a b sz fm
      | Rcr d a b sz _ \<Rightarrow> Rcr d a b sz fm
      | DoubleShift d a b c sz l _ \<Rightarrow> DoubleShift d a b c sz l fm
      | Mul lo hi a b sz s _ \<Rightarrow> Mul lo hi a b sz s fm
      | _ \<Rightarrow> op)"

text \<open>One step of the backward walk: the narrowed operation and the flags live before it.\<close>

definition elide_op :: "IrOp \<Rightarrow> u8 \<Rightarrow> IrOp \<times> u8" where
  "elide_op op live =
     (case op_set_flags op of
        Some fm \<Rightarrow>
          let fm' = fm AND live;
              kills = (if shift_flags_may_skip op then 0 else fm')
          in (with_flags fm' op, (live AND NOT kills) OR op_reads op)
      | None \<Rightarrow> (op, live OR op_reads op))"

fun elide_walk :: "IrOp list \<Rightarrow> IrOp list \<times> u8" where
  "elide_walk [] = ([], 0x3F)"
| "elide_walk (op # os) =
     (let (os', live) = elide_walk os; (op', live') = elide_op op live in (op' # os', live'))"

definition elide_dead_flags :: "bool \<Rightarrow> IrOp list \<Rightarrow> IrOp list" where
  "elide_dead_flags disabled os = (if disabled then os else fst (elide_walk os))"

end
