(* ===== verification/X86_Alu_Correct.thy ===== *)
theory X86_Alu_Correct
  imports X86_Alu
begin

text \<open>
  Correctness of the integer helpers against arithmetic on \<open>int\<close>.  \<open>uval sz x\<close> and \<open>sval sz x\<close> are the unsigned
  and the signed reading of the low \<open>sz\<close> bytes of \<open>x\<close>; results, carries, overflows, quotients and remainders
  are stated over them.  Rotation through carry is a rotation of a ring of \<open>8 * sz + 1\<close> bits, and bit deposit
  and extract are described by the rank of a bit in the mask.
\<close>

unbundle bit_operations_syntax

section \<open>Masks and readings\<close>

lemma size_mask_eq [simp]: "size_mask sz = mask (8 * sz)"
proof (cases "8 \<le> sz")
  case True
  then have "mask (8 * sz) = (- 1 :: u64)" by (intro bit_word_eqI) (simp add: bit_mask_iff)
  with True show ?thesis by (simp add: size_mask_def)
next
  case False
  then show ?thesis by (simp add: size_mask_def mult.commute)
qed

lemma and_sign_bit [simp]: "x AND sign_bit sz = 0 \<longleftrightarrow> \<not> bit x (sz * 8 - 1)"
  by (simp add: sign_bit_def)

definition uval :: "nat \<Rightarrow> u64 \<Rightarrow> int" where
  "uval sz x = take_bit (8 * sz) (uint x)"

definition sval :: "nat \<Rightarrow> u64 \<Rightarrow> int" where
  "sval sz x = signed_take_bit (8 * sz - 1) (uint x)"

lemma uval_bounds: "0 \<le> uval sz x" "uval sz x < 2 ^ (8 * sz)"
  by (simp_all add: uval_def)

lemma uval_take_bit: "uval sz x = uint (take_bit (8 * sz) x)"
  by (simp add: uval_def unsigned_take_bit_eq)

lemma half_size: "valid_size sz \<Longrightarrow> (2 :: int) ^ (8 * sz) = 2 * 2 ^ (8 * sz - 1)"
  by (auto simp: valid_size_def)

lemma bit_top: 
  assumes "valid_size sz"
  shows "bit x (8 * sz - 1) \<longleftrightarrow> 2 ^ (8 * sz - 1) \<le> uval sz x"
proof -
  let ?w = "8 * sz - 1"
  have w: "?w < 8 * sz" "Suc ?w = 8 * sz" using assms by (auto simp: valid_size_def)
  have "bit x ?w \<longleftrightarrow> bit (uval sz x) ?w" using w by (simp add: uval_def bit_simps)
  also have "\<dots> \<longleftrightarrow> odd (uval sz x div 2 ^ ?w)" by (simp add: bit_iff_odd)
  also have "\<dots> \<longleftrightarrow> 2 ^ ?w \<le> uval sz x"
  proof (cases "2 ^ ?w \<le> uval sz x")
    case True
    moreover have "uval sz x < 2 * 2 ^ ?w" using uval_bounds(2) [of sz x] half_size [OF assms] by simp
    ultimately have "uval sz x div 2 ^ ?w = 1" by (intro int_div_pos_eq [where r = "uval sz x - 2 ^ ?w"]) auto
    with True show ?thesis by simp
  next
    case False
    then show ?thesis using uval_bounds(1) [of sz x] by simp
  qed
  finally show ?thesis .
qed

lemma sval_uval:
  assumes "valid_size sz"
  shows "sval sz x = uval sz x - (if 2 ^ (8 * sz - 1) \<le> uval sz x then 2 ^ (8 * sz) else 0)"
proof -
  have w: "Suc (8 * sz - Suc 0) = 8 * sz" using assms by (auto simp: valid_size_def)
  have "bit (uint x) (8 * sz - 1) \<longleftrightarrow> 2 ^ (8 * sz - 1) \<le> uval sz x"
    using bit_top [OF assms] by (simp add: bit_simps)
  then show ?thesis
    using half_size [OF assms] by (simp add: sval_def signed_take_bit_eq_take_bit_minus w uval_def)
qed

section \<open>Addition and subtraction\<close>

lemma add_overflow_iff:
  fixes A B C H R :: int
  assumes "0 \<le> A" "A < 2 * H" "0 \<le> B" "B < 2 * H" "0 \<le> C" "C \<le> 1" "R = (A + B + C) mod (2 * H)"
  shows "(H \<le> A \<longleftrightarrow> H \<le> B) \<and> \<not> (H \<le> A \<longleftrightarrow> H \<le> R) \<longleftrightarrow>
    \<not> (- H \<le> A - (if H \<le> A then 2 * H else 0) + (B - (if H \<le> B then 2 * H else 0)) + C \<and>
       A - (if H \<le> A then 2 * H else 0) + (B - (if H \<le> B then 2 * H else 0)) + C < H)"
proof -
  have "R = (if A + B + C < 2 * H then A + B + C else A + B + C - 2 * H)"
    using assms mod_once(1) [of "A + B + C" "2 * H"] by simp
  then show ?thesis using assms(1-6) by auto
qed

lemma sub_overflow_iff:
  fixes A B C H R :: int
  assumes "0 \<le> A" "A < 2 * H" "0 \<le> B" "B < 2 * H" "0 \<le> C" "C \<le> 1" "R = (A - B - C) mod (2 * H)"
  shows "\<not> (H \<le> A \<longleftrightarrow> H \<le> B) \<and> \<not> (H \<le> A \<longleftrightarrow> H \<le> R) \<longleftrightarrow>
    \<not> (- H \<le> A - (if H \<le> A then 2 * H else 0) - (B - (if H \<le> B then 2 * H else 0)) - C \<and>
       A - (if H \<le> A then 2 * H else 0) - (B - (if H \<le> B then 2 * H else 0)) - C < H)"
proof -
  have "R = (if 0 \<le> A - B - C then A - B - C else A - B - C + 2 * H)"
    using assms mod_once(2) [of "2 * H" "A - B - C"] by simp
  then show ?thesis using assms(1-6) by auto
qed

lemma uval_add3:
  assumes "valid_size sz"
  shows "uval sz (a + b + of_flag c) = (uval sz a + uval sz b + of_bool c) mod 2 ^ (8 * sz)"
    "uval sz (a - b - of_flag c) = (uval sz a - uval sz b - of_bool c) mod 2 ^ (8 * sz)"
proof -
  have n: "8 * sz \<le> 64" using assms by (auto simp: valid_size_def)
  show "uval sz (a + b + of_flag c) = (uval sz a + uval sz b + of_bool c) mod 2 ^ (8 * sz)"
    unfolding uval_def take_bit_eq_mod [symmetric] take_bit_arith3
    unfolding take_bit_uint_arith(1) [OF n] uint_of_flag
    using take_bit_uint_arith(1) [OF n, of a b] take_bit_arith3(1) [of "8 * sz" "uint (a + b)" 0 "of_bool c"]
      take_bit_arith3(1) [of "8 * sz" "uint a + uint b" 0 "of_bool c"] by simp
  show "uval sz (a - b - of_flag c) = (uval sz a - uval sz b - of_bool c) mod 2 ^ (8 * sz)"
    unfolding uval_def take_bit_eq_mod [symmetric] take_bit_arith3
    unfolding take_bit_uint_arith(2) [OF n] uint_of_flag
    using take_bit_uint_arith(2) [OF n, of a b] take_bit_arith3(2) [of "8 * sz" "uint (a - b)" 0 "of_bool c"]
      take_bit_arith3(2) [of "8 * sz" "uint a - uint b" 0 "of_bool c"] by simp
qed

lemma wide_add:
  "(ucast (ucast a + ucast b + ucast c :: u128) :: u64) = a + b + c"
  "(ucast (ucast a - ucast b - ucast c :: u128) :: u64) = a - b - c"
  by (simp_all add: ucast_down_arith)

lemma alu_add_res: "res (alu_add a b c sz) = take_bit (8 * sz) (a + b + c)"
  by (simp add: alu_add_def Let_def wide_add and_mask_word take_bit_word_arith3)

lemma alu_sub_res: "res (alu_sub a b c sz) = take_bit (8 * sz) (a - b - c)"
  by (simp add: alu_sub_def Let_def wide_add and_mask_word take_bit_word_arith3)

lemma uint_ucast_sum:
  "uint (ucast (a :: u64) + ucast (b :: u64) + of_flag c :: u128) = uint a + uint b + of_bool c"
  using uint_lt2p [of a] uint_lt2p [of b]
  by (simp add: uint_word_ariths mod_pos_pos_trivial of_bool_def)

lemma alu_add_cf:
  assumes "valid_size sz"
  shows "res_cf (alu_add a b (of_flag c) sz) \<longleftrightarrow> 2 ^ (8 * sz) \<le> uval sz a + uval sz b + of_bool c"
proof -
  let ?wide = "ucast (take_bit (8 * sz) a) + ucast (take_bit (8 * sz) b) + of_flag c :: u128"
  have "res_cf (alu_add a b (of_flag c) sz) \<longleftrightarrow> bit ?wide (8 * sz)"
    by (simp add: alu_add_def Let_def and_mask_word mult.commute bit_drop_bit_eq)
  also have "\<dots> \<longleftrightarrow> bit (uint ?wide) (8 * sz)"
    by (simp add: bit_uint_iff bit_imp_le_length) (auto dest: bit_imp_le_length)
  also have "uint ?wide = uval sz a + uval sz b + of_bool c"
    by (simp only: uint_ucast_sum uval_take_bit)
  also have "bit (uval sz a + uval sz b + of_bool c) (8 * sz) \<longleftrightarrow> 2 ^ (8 * sz) \<le> uval sz a + uval sz b + of_bool c"
    using uval_bounds [of sz a] uval_bounds [of sz b] by (intro bit_carry_out) (auto simp: of_bool_def)
  finally show ?thesis .
qed

lemma bit_res_top:
  assumes "valid_size sz"
  shows "bit (take_bit (8 * sz) x) (8 * sz - 1) \<longleftrightarrow> bit x (8 * sz - 1)"
  using assms by (auto simp: bit_simps valid_size_def)

lemma alu_of_res:
  "res_of (alu_add a b c sz) \<longleftrightarrow>
     (NOT (take_bit (8 * sz) a XOR take_bit (8 * sz) b) AND (take_bit (8 * sz) a XOR res (alu_add a b c sz)))
       AND sign_bit sz \<noteq> 0"
  "res_of (alu_sub a b c sz) \<longleftrightarrow>
     ((take_bit (8 * sz) a XOR take_bit (8 * sz) b) AND (take_bit (8 * sz) a XOR res (alu_sub a b c sz)))
       AND sign_bit sz \<noteq> 0"
  by (simp_all add: alu_add_def alu_sub_def Let_def and_mask_word)

lemma alu_add_of:
  assumes "valid_size sz"
  shows "res_of (alu_add a b (of_flag c) sz) \<longleftrightarrow>
    \<not> (- (2 ^ (8 * sz - 1)) \<le> sval sz a + sval sz b + of_bool c \<and>
       sval sz a + sval sz b + of_bool c < 2 ^ (8 * sz - 1))"
proof -
  let ?k = "8 * sz - 1" and ?r = "a + b + of_flag c"
  have k: "sz * 8 - Suc 0 = ?k" "?k < 64" "8 * sz - Suc 0 < 8 * sz" by (use assms in \<open>auto simp: valid_size_def\<close>)
  have "res_of (alu_add a b (of_flag c) sz) \<longleftrightarrow> (bit a ?k \<longleftrightarrow> bit b ?k) \<and> \<not> (bit a ?k \<longleftrightarrow> bit ?r ?k)"
    unfolding alu_of_res alu_add_res using k by (simp add: bit_simps)
  also have "\<dots> \<longleftrightarrow> (2 ^ ?k \<le> uval sz a \<longleftrightarrow> 2 ^ ?k \<le> uval sz b) \<and> \<not> (2 ^ ?k \<le> uval sz a \<longleftrightarrow> 2 ^ ?k \<le> uval sz ?r)"
    by (simp only: bit_top [OF assms])
  finally show ?thesis
    using add_overflow_iff [of "uval sz a" "2 ^ ?k" "uval sz b" "of_bool c" "uval sz ?r"]
      uval_bounds [of sz a] uval_bounds [of sz b]
    by (simp only: half_size [OF assms] uval_add3(1) [OF assms] sval_uval [OF assms]) simp
qed

lemma alu_sub_cf:
  assumes "valid_size sz"
  shows "res_cf (alu_sub a b (of_flag c) sz) \<longleftrightarrow> uval sz a < uval sz b + of_bool c"
proof -
  have "uint (ucast (take_bit (8 * sz) b) + of_flag c :: u128) = uval sz b + of_bool c"
    using uint_ucast_sum [of 0 "take_bit (8 * sz) b" c] by (simp add: uval_take_bit)
  then show ?thesis
    by (simp add: alu_sub_def Let_def and_mask_word word_less_alt uval_take_bit)
qed

lemma alu_sub_of:
  assumes "valid_size sz"
  shows "res_of (alu_sub a b (of_flag c) sz) \<longleftrightarrow>
    \<not> (- (2 ^ (8 * sz - 1)) \<le> sval sz a - sval sz b - of_bool c \<and>
       sval sz a - sval sz b - of_bool c < 2 ^ (8 * sz - 1))"
proof -
  let ?k = "8 * sz - 1" and ?r = "a - b - of_flag c"
  have k: "sz * 8 - Suc 0 = ?k" "?k < 64" "8 * sz - Suc 0 < 8 * sz" by (use assms in \<open>auto simp: valid_size_def\<close>)
  have "res_of (alu_sub a b (of_flag c) sz) \<longleftrightarrow> \<not> (bit a ?k \<longleftrightarrow> bit b ?k) \<and> \<not> (bit a ?k \<longleftrightarrow> bit ?r ?k)"
    unfolding alu_of_res alu_sub_res using k by (simp add: bit_simps)
  also have "\<dots> \<longleftrightarrow> \<not> (2 ^ ?k \<le> uval sz a \<longleftrightarrow> 2 ^ ?k \<le> uval sz b) \<and> \<not> (2 ^ ?k \<le> uval sz a \<longleftrightarrow> 2 ^ ?k \<le> uval sz ?r)"
    by (simp only: bit_top [OF assms])
  finally show ?thesis
    using sub_overflow_iff [of "uval sz a" "2 ^ ?k" "uval sz b" "of_bool c" "uval sz ?r"]
      uval_bounds [of sz a] uval_bounds [of sz b]
    by (simp only: half_size [OF assms] uval_add3(2) [OF assms] sval_uval [OF assms]) simp
qed

lemma apply_flags_fields [simp]:
  "flag_cf (apply_flags m r f) = (if bit m 0 then res_cf r else flag_cf f)"
  "pf (apply_flags m r f) = (if bit m 1 then res_pf r else pf f)"
  "af (apply_flags m r f) = (if bit m 2 then res_af r else af f)"
  "flag_zf (apply_flags m r f) = (if bit m 3 then res_zf r else flag_zf f)"
  "flag_sf (apply_flags m r f) = (if bit m 4 then res_sf r else flag_sf f)"
  "flag_of (apply_flags m r f) = (if bit m 5 then res_of r else flag_of f)"
  "flag_df (apply_flags m r f) = flag_df f"
  "flag_if (apply_flags m r f) = flag_if f"
  by (simp_all add: apply_flags_def is_none_def Let_def)

lemma bit_FM_ALL [simp]:
  "bit FM_ALL 0" "bit FM_ALL 1" "bit FM_ALL (Suc 0)" "bit FM_ALL 2" "bit FM_ALL 3" "bit FM_ALL 4" "bit FM_ALL 5"
  by (simp_all add: FM_ALL_def)

lemma take_bit_eq_0_uval: "take_bit (8 * sz) x = 0 \<longleftrightarrow> uval sz x = 0"
  by (metis uval_take_bit uint_0_iff)

lemma alu_zf_sf:
  assumes "valid_size sz"
  shows "res_zf (alu_add a b c sz) \<longleftrightarrow> uval sz (a + b + c) = 0"
    "res_zf (alu_sub a b c sz) \<longleftrightarrow> uval sz (a - b - c) = 0"
    "res_sf (alu_add a b c sz) \<longleftrightarrow> sval sz (a + b + c) < 0"
    "res_sf (alu_sub a b c sz) \<longleftrightarrow> sval sz (a - b - c) < 0"
proof -
  have k: "sz * 8 - Suc 0 = 8 * sz - 1" "8 * sz - 1 < 8 * sz" by (use assms in \<open>auto simp: valid_size_def\<close>)
  have s: "bit x (8 * sz - 1) \<longleftrightarrow> sval sz x < 0" for x
    using uval_bounds [of sz x] by (simp only: bit_top [OF assms] sval_uval [OF assms]) auto
  have "res_zf (alu_add a b c sz) \<longleftrightarrow> res (alu_add a b c sz) = 0"
    "res_zf (alu_sub a b c sz) \<longleftrightarrow> res (alu_sub a b c sz) = 0"
    "res_sf (alu_add a b c sz) \<longleftrightarrow> bit (res (alu_add a b c sz)) (8 * sz - 1)"
    "res_sf (alu_sub a b c sz) \<longleftrightarrow> bit (res (alu_sub a b c sz)) (8 * sz - 1)"
    by (simp_all add: alu_add_def alu_sub_def Let_def k)
  then show "res_zf (alu_add a b c sz) \<longleftrightarrow> uval sz (a + b + c) = 0"
    "res_zf (alu_sub a b c sz) \<longleftrightarrow> uval sz (a - b - c) = 0"
    "res_sf (alu_add a b c sz) \<longleftrightarrow> sval sz (a + b + c) < 0"
    "res_sf (alu_sub a b c sz) \<longleftrightarrow> sval sz (a - b - c) < 0"
    unfolding alu_add_res alu_sub_res using k(2) s by (simp_all add: take_bit_eq_0_uval bit_take_bit_iff)
qed

lemma alu_af:
  "res_af (alu_add a b (of_flag c) sz) \<longleftrightarrow> 16 \<le> uint (take_bit (8 * sz) a) mod 16 + uint (take_bit (8 * sz) b) mod 16 + of_bool c"
  "res_af (alu_sub a b (of_flag c) sz) \<longleftrightarrow> uint (take_bit (8 * sz) a) mod 16 < uint (take_bit (8 * sz) b) mod 16 + of_bool c"
proof -
  define x y where "x = take_bit (8 * sz) a AND 0xF" and "y = take_bit (8 * sz) b AND 0xF"
  have m: "(z AND 0xF) = take_bit 4 z" for z :: u64 by (simp add: take_bit_eq_mask mask_eq_exp_minus_1)
  have u4: "uint (take_bit 4 z) = uint z mod 16" for z :: u64
    using take_bit_eq_mod [of 4 "uint z"] by (simp add: unsigned_take_bit_eq)
  have u: "uint x = uint (take_bit (8 * sz) a) mod 16" "uint y = uint (take_bit (8 * sz) b) mod 16"
    unfolding x_def y_def m by (simp_all only: u4)
  have b: "0 \<le> uint x" "uint x < 16" "0 \<le> uint y" "uint y < 16" by (simp_all add: u)
  have sum: "uint (x + y + of_flag c) = uint x + uint y + of_bool c" "uint (y + of_flag c) = uint y + of_bool c"
    using b by (simp_all add: uint_word_ariths mod_pos_pos_trivial of_bool_def)
  have "bit (x + y + of_flag c) 4 \<longleftrightarrow> bit (uint (x + y + of_flag c)) 4" by (simp add: bit_uint_iff)
  also have "\<dots> \<longleftrightarrow> 2 ^ 4 \<le> uint x + uint y + of_bool c"
    unfolding sum using b by (intro bit_carry_out) (auto simp: of_bool_def)
  finally show "res_af (alu_add a b (of_flag c) sz) \<longleftrightarrow>
      16 \<le> uint (take_bit (8 * sz) a) mod 16 + uint (take_bit (8 * sz) b) mod 16 + of_bool c"
    by (simp add: alu_add_def Let_def and_mask_word x_def [symmetric] y_def [symmetric] u [symmetric])
  show "res_af (alu_sub a b (of_flag c) sz) \<longleftrightarrow>
      uint (take_bit (8 * sz) a) mod 16 < uint (take_bit (8 * sz) b) mod 16 + of_bool c"
    by (simp add: alu_sub_def Let_def and_mask_word x_def [symmetric] y_def [symmetric] u [symmetric] word_less_alt sum)
qed

lemma sub_less_iff:
  fixes A B H R :: int
  assumes "0 \<le> A" "A < 2 * H" "0 \<le> B" "B < 2 * H" "R = (A - B) mod (2 * H)"
  shows "R = 0 \<longleftrightarrow> A = B"
    "(H \<le> R) \<noteq> (\<not> (- H \<le> A - (if H \<le> A then 2 * H else 0) - (B - (if H \<le> B then 2 * H else 0)) \<and>
       A - (if H \<le> A then 2 * H else 0) - (B - (if H \<le> B then 2 * H else 0)) < H)) \<longleftrightarrow>
     A - (if H \<le> A then 2 * H else 0) < B - (if H \<le> B then 2 * H else 0)"
proof -
  have "R = (if 0 \<le> A - B then A - B else A - B + 2 * H)"
    using assms mod_once(2) [of "2 * H" "A - B"] by simp
  then show "R = 0 \<longleftrightarrow> A = B"
    "(H \<le> R) \<noteq> (\<not> (- H \<le> A - (if H \<le> A then 2 * H else 0) - (B - (if H \<le> B then 2 * H else 0)) \<and>
       A - (if H \<le> A then 2 * H else 0) - (B - (if H \<le> B then 2 * H else 0)) < H)) \<longleftrightarrow>
     A - (if H \<le> A then 2 * H else 0) < B - (if H \<le> B then 2 * H else 0)"
    using assms(1-4) by auto
qed

lemma cmp_flags:
  assumes "valid_size sz"
  shows "res_zf (alu_sub a b 0 sz) \<longleftrightarrow> uval sz a = uval sz b"
    "res_cf (alu_sub a b 0 sz) \<longleftrightarrow> uval sz a < uval sz b"
    "res_sf (alu_sub a b 0 sz) \<noteq> res_of (alu_sub a b 0 sz) \<longleftrightarrow> sval sz a < sval sz b"
proof -
  have z: "(0 :: u64) = of_flag False" by (simp add: of_flag_def)
  let ?H = "2 ^ (8 * sz - 1) :: int" and ?r = "a - b - of_flag False"
  have r: "uval sz ?r = (uval sz a - uval sz b) mod (2 * ?H)"
    using uval_add3(2) [OF assms, of a b False] by (simp add: half_size [OF assms])
  have bnd: "0 \<le> uval sz a" "uval sz a < 2 * ?H" "0 \<le> uval sz b" "uval sz b < 2 * ?H"
    using uval_bounds [of sz a] uval_bounds [of sz b] half_size [OF assms] by auto
  note s = sub_less_iff [OF bnd r]
  show "res_zf (alu_sub a b 0 sz) \<longleftrightarrow> uval sz a = uval sz b"
    unfolding z alu_zf_sf [OF assms] by (rule s(1))
  show "res_cf (alu_sub a b 0 sz) \<longleftrightarrow> uval sz a < uval sz b"
    unfolding z alu_sub_cf [OF assms] by simp
  have "sval sz ?r < 0 \<longleftrightarrow> ?H \<le> uval sz ?r"
    using uval_bounds [of sz ?r] by (simp add: sval_uval [OF assms])
  then show "res_sf (alu_sub a b 0 sz) \<noteq> res_of (alu_sub a b 0 sz) \<longleftrightarrow> sval sz a < sval sz b"
    unfolding z alu_zf_sf [OF assms] alu_sub_of [OF assms]
    using s(2) by (simp only: sval_uval [OF assms, of a] sval_uval [OF assms, of b] half_size [OF assms]) simp
qed

section \<open>Sign extension\<close>

lemma sint_sign_extend:
  assumes "valid_size sz"
  shows "sint (sign_extend v sz) = sval sz v"
proof (cases "sz = 8")
  case True
  then show ?thesis by (simp add: sign_extend_def sval_def sint_uint)
next
  case False
  then have "0 < 8 * sz" "8 * sz \<le> LENGTH(64)" "sz < 8" using assms by (auto simp: valid_size_def)
  then show ?thesis
    using sint_signed_shift [of "8 * sz" v] by (simp add: sign_extend_def sval_def Let_def mult.commute)
qed

lemma sint_sign_extend_128:
  assumes "0 < n" "n \<le> 128"
  shows "sint (sign_extend_128 v n) = signed_take_bit (n - 1) (uint v)"
proof (cases "n = 128")
  case True
  then show ?thesis by (simp add: sign_extend_128_def sint_uint)
next
  case False
  then show ?thesis using assms sint_signed_shift [of n v] by (simp add: sign_extend_128_def)
qed

section \<open>Division\<close>

definition dividend :: "u64 \<Rightarrow> u64 \<Rightarrow> nat \<Rightarrow> u128" where
  "dividend hi lo sz = push_bit (8 * sz) (ucast (take_bit (8 * sz) hi)) OR ucast (take_bit (8 * sz) lo)"

lemma uint_dividend:
  assumes "valid_size sz"
  shows "uint (dividend hi lo sz) = uval sz hi * 2 ^ (8 * sz) + uval sz lo"
proof -
  have w: "8 * sz \<le> 64" using assms by (auto simp: valid_size_def)
  have "uint (dividend hi lo sz) = concat_bit (8 * sz) (uval sz lo) (uval sz hi)"
    using w by (intro bit_eqI) (auto simp: dividend_def bit_simps bit_concat_bit_iff uval_def)
  then show ?thesis
    by (simp add: concat_bit_eq push_bit_eq_mult uval_def)
qed

lemma signed_dividend:
  assumes "valid_size sz"
  shows "sint (sign_extend_128 (dividend hi lo sz) (2 * (8 * sz))) = sval sz hi * 2 ^ (8 * sz) + uval sz lo"
proof -
  let ?w = "8 * sz" and ?x = "uint (dividend hi lo sz)"
  have w: "0 < 2 * ?w" "2 * ?w \<le> 128" "Suc (2 * ?w - 1) = 2 * ?w" "2 * ?w - 1 = ?w + (?w - 1)"
    using assms by (auto simp: valid_size_def)
  have x: "?x = uval sz hi * 2 ^ ?w + uval sz lo" by (rule uint_dividend [OF assms])
  have lo: "0 \<le> uval sz lo" "uval sz lo < 2 ^ ?w" and hi: "0 \<le> uval sz hi" "uval sz hi < 2 ^ ?w"
    by (rule uval_bounds)+
  have "?x < 2 ^ (2 * ?w)"
  proof -
    have "?x < (uval sz hi + 1) * 2 ^ ?w" unfolding x using lo(2) by (simp add: algebra_simps)
    also have "\<dots> \<le> 2 ^ ?w * 2 ^ ?w" using hi(2) by (intro mult_right_mono) auto
    finally show ?thesis by (simp only: power_add mult_2)
  qed
  then have t: "take_bit (2 * ?w) ?x = ?x" by (simp add: take_bit_int_eq_self)
  have b: "bit ?x (2 * ?w - 1) \<longleftrightarrow> 2 ^ (?w - 1) \<le> uval sz hi"
  proof -
    have "bit ?x (2 * ?w - 1) \<longleftrightarrow> bit (uval sz hi) (?w - 1)"
    proof -
      have "?x = concat_bit ?w (uval sz lo) (uval sz hi)"
        by (simp add: x concat_bit_eq push_bit_eq_mult uval_def)
      then show ?thesis using w(4) by (simp add: bit_concat_bit_iff)
    qed
    also have "\<dots> \<longleftrightarrow> bit hi (?w - 1)" using assms by (auto simp: uval_def bit_simps valid_size_def)
    finally show ?thesis by (simp only: bit_top [OF assms])
  qed
  have "sint (sign_extend_128 (dividend hi lo sz) (2 * ?w)) = signed_take_bit (2 * ?w - 1) ?x"
    by (rule sint_sign_extend_128 [OF w(1,2)])
  also have "\<dots> = ?x - (if 2 ^ (?w - 1) \<le> uval sz hi then 2 ^ (2 * ?w) else 0)"
    unfolding signed_take_bit_eq_take_bit_minus b w(3) t by simp
  also have "(2 :: int) ^ (2 * ?w) = 2 ^ ?w * 2 ^ ?w" by (simp only: mult_2 power_add)
  finally show ?thesis
    unfolding x sval_uval [OF assms]
    by (cases "2 ^ (8 * sz - 1) \<le> uval sz hi") (simp_all add: left_diff_distrib)
qed

lemma take_bit_divisor: "take_bit (8 * sz) (divisor :: u64) = 0 \<longleftrightarrow> uval sz divisor = 0"
  by (rule take_bit_eq_0_uval)

lemma uint_ge_mask:
  assumes "valid_size sz"
  shows "ucast (mask (8 * sz) :: u64) < (q :: u128) \<longleftrightarrow> 2 ^ (8 * sz) \<le> uint q"
proof -
  have "8 * sz \<le> 64" using assms by (auto simp: valid_size_def)
  then have "uint (mask (8 * sz) :: u64) = mask (8 * sz)"
    by (intro bit_eqI) (auto simp: bit_simps)
  then have "uint (mask (8 * sz) :: u64) = 2 ^ (8 * sz) - 1"
    using mask_eq_exp_minus_1 [where 'a = int, of "8 * sz"] by simp
  then show ?thesis by (auto simp: word_less_alt)
qed

definition udividend :: "nat \<Rightarrow> u64 \<Rightarrow> u64 \<Rightarrow> int" where
  "udividend sz hi lo = uval sz hi * 2 ^ (8 * sz) + uval sz lo"

definition sdividend :: "nat \<Rightarrow> u64 \<Rightarrow> u64 \<Rightarrow> int" where
  "sdividend sz hi lo = sval sz hi * 2 ^ (8 * sz) + uval sz lo"

lemma divide_unsigned_aux:
  fixes hi lo divisor :: u64
  assumes "valid_size sz"
  defines "n \<equiv> udividend sz hi lo" and "d \<equiv> uval sz divisor"
  shows "divide hi lo divisor sz False =
    (if d = 0 \<or> 2 ^ (8 * sz) \<le> n div d then None else Some (of_int (n div d), of_int (n mod d)))"
proof -
  let ?D = "dividend hi lo sz" and ?d = "take_bit (8 * sz) divisor"
  have u: "uint ?D = n" "uint ?d = d"
    unfolding n_def d_def udividend_def by (simp_all add: uint_dividend [OF assms(1)] uval_take_bit)
  have q: "uint (?D div ucast ?d) = n div d" "uint (?D mod ucast ?d) = n mod d"
    by (simp_all add: uint_div uint_mod u)
  have c: "(ucast x :: u64) = of_int (uint x)" for x :: u128 by (rule ucast_eq)
  have "divide hi lo divisor sz False =
    (if ?d = 0 then None
     else if ucast (mask (8 * sz) :: u64) < ?D div ucast ?d then None
     else Some (ucast (?D div ucast ?d), ucast (?D mod ucast ?d)))"
    by (simp add: divide_def Let_def and_mask_word dividend_def mult.commute)
  then show ?thesis
    unfolding uint_ge_mask [OF assms(1)] take_bit_divisor c q d_def [symmetric] by simp
qed

lemma divide_signed_aux:
  fixes hi lo divisor :: u64
  assumes "valid_size sz"
  defines "n \<equiv> sdividend sz hi lo" and "d \<equiv> sval sz divisor"
  shows "divide hi lo divisor sz True =
    (if d = 0 \<or> \<not> (- (2 ^ (8 * sz - 1)) \<le> n sdiv d \<and> n sdiv d < 2 ^ (8 * sz - 1)) then None
     else Some (take_bit (8 * sz) (of_int (n sdiv d)), take_bit (8 * sz) (of_int (n smod d))))"
proof -
  let ?D = "dividend hi lo sz" and ?d = "take_bit (8 * sz) divisor"
  have sd: "sint (sign_extend_128 ?D (2 * (8 * sz))) = n"
    unfolding n_def sdividend_def by (rule signed_dividend [OF assms(1)])
  have "sval sz ?d = sval sz divisor"
    using assms(1) by (simp add: sval_uval uval_take_bit)
  then have dv: "sint (sign_extend ?d sz) = d"
    unfolding d_def by (simp add: sint_sign_extend [OF assms(1)])
  have d0: "?d = 0 \<longleftrightarrow> d = 0"
  proof -
    have "0 < (2 :: int) ^ (8 * sz - 1)" by simp
    then show ?thesis
      unfolding take_bit_divisor d_def sval_uval [OF assms(1)] using uval_bounds [of sz divisor]
      by (auto simp del: zero_less_power)
  qed
  have lim: "(2 :: int) ^ (8 * sz - 1) \<le> 2 ^ 127" using assms(1) by (auto simp: valid_size_def)
  have ov: "\<not> n sdiv d < 2 ^ (8 * sz - 1)" if "n = - (2 ^ 127)" "d = - 1"
    using lim that by (simp add: signed_divide_int_def)
  have "divide hi lo divisor sz True =
    (if ?d = 0 then None
     else case (checked_div n d, checked_rem n d) of
            (Some q, Some r) \<Rightarrow>
              if q < - (2 ^ (8 * sz - 1)) \<or> q \<ge> 2 ^ (8 * sz - 1) then None
              else Some (take_bit (8 * sz) (of_int q), take_bit (8 * sz) (of_int r))
          | _ \<Rightarrow> None)"
    unfolding divide_def Let_def size_mask_eq and_mask_word mult.commute [of sz 8]
      dividend_def [symmetric] sd dv by simp
  then show ?thesis
    unfolding d0 using ov by (auto simp: checked_div_def checked_rem_def not_le not_less)
qed

section \<open>Rotation through carry\<close>

text \<open>The operand and the carry as one ring of \<open>8 * sz + 1\<close> bits, the carry on top.\<close>

definition ring_bit :: "nat \<Rightarrow> u64 \<times> bool \<Rightarrow> nat \<Rightarrow> bool" where
  "ring_bit sz s i = (if i = 8 * sz then snd s else bit (fst s) i)"

definition rcl_step :: "nat \<Rightarrow> u64 \<times> bool \<Rightarrow> u64 \<times> bool" where
  "rcl_step sz s = (take_bit (8 * sz) (push_bit 1 (fst s) OR of_flag (snd s)), bit (fst s) (8 * sz - 1))"

definition rcr_step :: "nat \<Rightarrow> u64 \<times> bool \<Rightarrow> u64 \<times> bool" where
  "rcr_step sz s = (drop_bit 1 (fst s) OR push_bit (8 * sz - 1) (of_flag (snd s)), bit (fst s) 0)"

lemma rcl_steps: "rcl v n cf sz = (rcl_step sz ^^ n) (v, cf)"
  by (induction n arbitrary: v cf)
    (simp_all add: Let_def and_mask_word rcl_step_def mult.commute bit_drop_bit_eq funpow_swap1)

lemma rcr_steps: "rcr v n cf sz = (rcr_step sz ^^ n) (v, cf)"
  by (induction n arbitrary: v cf)
    (simp_all add: Let_def rcr_step_def mult.commute funpow_swap1)

lemma ring_rcl_step:
  assumes "valid_size sz" "i \<le> 8 * sz"
  shows "ring_bit sz (rcl_step sz s) i = ring_bit sz s ((i + 8 * sz) mod (8 * sz + 1))"
proof (cases i)
  case 0
  then show ?thesis using assms(1) by (auto simp: ring_bit_def rcl_step_def bit_simps valid_size_def)
next
  case (Suc j)
  have w: "0 < sz" "8 * sz \<le> 64" using assms(1) by (auto simp: valid_size_def)
  have "(i + 8 * sz) mod (8 * sz + 1) = j"
    using Suc assms(2) mod_add_self2 [of j "8 * sz + 1"] by (simp add: ac_simps)
  moreover have "8 * sz - Suc 0 = j" if "Suc j = 8 * sz" using that by simp
  ultimately show ?thesis
    using Suc assms(2) w by (auto simp: ring_bit_def rcl_step_def bit_simps)
qed

lemma ring_rcr_step:
  assumes "valid_size sz" "i \<le> 8 * sz" "take_bit (8 * sz) (fst s) = fst s"
  shows "ring_bit sz (rcr_step sz s) i = ring_bit sz s ((i + 1) mod (8 * sz + 1))"
proof -
  have w: "0 < sz" "8 * sz \<le> 64" using assms(1) by (auto simp: valid_size_def)
  have hi: "\<not> bit (fst s) (8 * sz)" using bit_take_bit_iff [of "8 * sz" "fst s" "8 * sz"] by (simp add: assms(3))
  consider "i = 8 * sz" | "i = 8 * sz - 1" "i < 8 * sz" | "i < 8 * sz - 1" using assms(2) by linarith
  then show ?thesis
  proof cases
    case 1
    then show ?thesis using w by (simp add: ring_bit_def rcr_step_def)
  next
    case 2
    then show ?thesis using w hi by (auto simp: ring_bit_def rcr_step_def bit_simps)
  next
    case 3
    then show ?thesis using w by (auto simp: ring_bit_def rcr_step_def bit_simps)
  qed
qed

lemma rcr_step_masked:
  assumes "valid_size sz" "take_bit (8 * sz) (fst s) = fst s"
  shows "take_bit (8 * sz) (fst (rcr_step sz s)) = fst (rcr_step sz s)"
proof (rule bit_word_eqI)
  fix k assume "k < LENGTH(64)"
  have "\<not> bit (fst s) (Suc k)" if "8 * sz \<le> k"
    using that bit_take_bit_iff [of "8 * sz" "fst s" "Suc k"] by (simp add: assms(2))
  moreover have "0 < sz" using assms(1) by (auto simp: valid_size_def)
  ultimately show "bit (take_bit (8 * sz) (fst (rcr_step sz s))) k \<longleftrightarrow> bit (fst (rcr_step sz s)) k"
    by (auto simp: rcr_step_def bit_simps not_less)
qed

lemma rcl_ring:
  assumes "valid_size sz" "i \<le> 8 * sz"
  shows "ring_bit sz (rcl v n cf sz) i = ring_bit sz (v, cf) ((i + n * (8 * sz)) mod (8 * sz + 1))"
  using assms(2)
proof (induction n arbitrary: i)
  case 0
  then show ?case by (simp add: rcl_steps)
next
  case (Suc n)
  let ?m = "8 * sz + 1"
  have "ring_bit sz (rcl v (Suc n) cf sz) i = ring_bit sz (rcl v n cf sz) ((i + 8 * sz) mod ?m)"
    using ring_rcl_step [OF assms(1) Suc.prems] by (simp add: rcl_steps)
  also have "\<dots> = ring_bit sz (v, cf) (((i + 8 * sz) mod ?m + n * (8 * sz)) mod ?m)"
    by (rule Suc.IH) (simp add: less_Suc_eq_le [symmetric])
  also have "((i + 8 * sz) mod ?m + n * (8 * sz)) mod ?m = (i + Suc n * (8 * sz)) mod ?m"
    by (simp only: mod_add_left_eq) (simp add: algebra_simps)
  finally show ?case .
qed

lemma rcr_ring:
  assumes "valid_size sz" "i \<le> 8 * sz" "take_bit (8 * sz) v = v"
  shows "ring_bit sz (rcr v n cf sz) i = ring_bit sz (v, cf) ((i + n) mod (8 * sz + 1))"
    and "take_bit (8 * sz) (fst (rcr v n cf sz)) = fst (rcr v n cf sz)"
proof -
  show m: "take_bit (8 * sz) (fst (rcr v n cf sz)) = fst (rcr v n cf sz)" for n
    using assms by (induction n) (simp_all add: rcr_steps rcr_step_masked)
  show "ring_bit sz (rcr v n cf sz) i = ring_bit sz (v, cf) ((i + n) mod (8 * sz + 1))"
    using assms(2)
  proof (induction n arbitrary: i)
    case 0
    then show ?case by (simp add: rcr_steps)
  next
    case (Suc n)
    let ?m = "8 * sz + 1"
    have "ring_bit sz (rcr v (Suc n) cf sz) i = ring_bit sz (rcr v n cf sz) ((i + 1) mod ?m)"
      using ring_rcr_step [OF assms(1) Suc.prems m [of n]] by (simp add: rcr_steps)
    also have "\<dots> = ring_bit sz (v, cf) (((i + 1) mod ?m + n) mod ?m)"
      by (rule Suc.IH) (simp add: less_Suc_eq_le [symmetric])
    also have "((i + 1) mod ?m + n) mod ?m = (i + Suc n) mod ?m"
      by (simp only: mod_add_left_eq) simp
    finally show ?case .
  qed
qed

lemma ring_bit_inject:
  assumes "take_bit (8 * sz) (fst s) = fst s" "take_bit (8 * sz) (fst t) = fst t"
    and "\<And>i. i \<le> 8 * sz \<Longrightarrow> ring_bit sz s i = ring_bit sz t i"
  shows "s = t"
proof -
  have "fst s = fst t"
  proof (rule bit_word_eqI)
    fix k
    have "bit (fst s) k \<longleftrightarrow> k < 8 * sz \<and> bit (fst s) k" "bit (fst t) k \<longleftrightarrow> k < 8 * sz \<and> bit (fst t) k"
      using bit_take_bit_iff [of "8 * sz" "fst s" k] bit_take_bit_iff [of "8 * sz" "fst t" k] by (simp_all add: assms(1,2))
    then show "bit (fst s) k \<longleftrightarrow> bit (fst t) k"
      using assms(3) [of k] by (auto simp: ring_bit_def)
  qed
  moreover have "snd s = snd t" using assms(3) [of "8 * sz"] by (simp add: ring_bit_def)
  ultimately show ?thesis by (simp add: prod_eq_iff)
qed

lemma rcl_masked:
  "take_bit (8 * sz) v = v \<Longrightarrow> take_bit (8 * sz) (fst (rcl v n cf sz)) = fst (rcl v n cf sz)"
  by (induction n) (simp_all add: rcl_steps rcl_step_def)

section \<open>Bit deposit and extract\<close>

definition rank :: "u64 \<Rightarrow> nat \<Rightarrow> nat" where
  "rank b t = length (filter (bit b) [0..<t])"

lemma rank_Suc: "rank b (Suc t) = rank b t + of_bool (bit b t)"
  by (simp add: rank_def)

lemma rank_mono: "s \<le> t \<Longrightarrow> rank b s \<le> rank b t"
  by (induction t) (auto simp: rank_Suc le_Suc_eq)

lemma rank_less: "s < t \<Longrightarrow> bit b s \<Longrightarrow> rank b s < rank b t"
  using rank_mono [of "Suc s" t b] by (simp add: rank_Suc)

lemma rank_inj: "bit b s \<Longrightarrow> bit b t \<Longrightarrow> rank b s = rank b t \<Longrightarrow> s = t"
  using rank_less [of s t b] rank_less [of t s b] by (metis linorder_neqE_nat nat_neq_iff)

lemma rank_surj: "j < rank b n \<Longrightarrow> \<exists>t<n. bit b t \<and> rank b t = j"
proof (induction n)
  case 0
  then show ?case by (simp add: rank_def)
next
  case (Suc n)
  then consider "j < rank b n" | "bit b n" "j = rank b n"
    by (cases "bit b n") (auto simp: rank_Suc less_Suc_eq)
  then show ?case using Suc.IH by cases (auto simp: less_Suc_eq)
qed

lemma pdep_scan_bits:
  assumes "i \<le> n" "n \<le> 64"
  shows "bit (pdep_scan a b [i..<n] (rank b i) r) j \<longleftrightarrow>
    bit r j \<or> (i \<le> j \<and> j < n \<and> bit b j \<and> bit a (rank b j))"
  using assms
proof (induction "n - i" arbitrary: i r)
  case 0
  then show ?case by auto
next
  case (Suc k)
  then have u: "[i..<n] = i # [Suc i..<n]" by (simp add: upt_rec)
  have split: "i \<le> j \<and> P \<longleftrightarrow> (i = j \<and> P) \<or> (Suc i \<le> j \<and> P)" for P by auto
  let ?r = "if bit b i then r OR push_bit i (drop_bit (rank b i) a AND 1) else r"
  have "pdep_scan a b [i..<n] (rank b i) r = pdep_scan a b [Suc i..<n] (rank b (Suc i)) ?r"
    by (simp add: u rank_Suc bit_drop_bit_eq)
  also have "bit \<dots> j \<longleftrightarrow> bit ?r j \<or> (Suc i \<le> j \<and> j < n \<and> bit b j \<and> bit a (rank b j))"
    using Suc.hyps(2) Suc.prems by (intro Suc.hyps(1)) auto
  also have "bit ?r j \<longleftrightarrow> bit r j \<or> (i = j \<and> j < n \<and> bit b j \<and> bit a (rank b j))"
    using Suc.hyps(2) Suc.prems by (auto simp: bit_simps bit_and_1)
  finally show ?case by (simp only: split) blast
qed

lemma pext_scan_bits:
  assumes "i \<le> n" "n \<le> 64"
  shows "bit (pext_scan a b [i..<n] (rank b i) r) j \<longleftrightarrow>
    bit r j \<or> (\<exists>t. i \<le> t \<and> t < n \<and> bit b t \<and> rank b t = j \<and> bit a t)"
  using assms
proof (induction "n - i" arbitrary: i r)
  case 0
  then show ?case by auto
next
  case (Suc k)
  have "rank b i \<le> i" by (induction i) (auto simp: rank_Suc rank_def)
  then have r: "rank b i < 64" using Suc.hyps(2) Suc.prems by linarith
  have u: "[i..<n] = i # [Suc i..<n]" using Suc.hyps(2) by (simp add: upt_rec)
  have split: "(\<exists>t. i \<le> t \<and> P t) \<longleftrightarrow> P i \<or> (\<exists>t. Suc i \<le> t \<and> P t)" for P
    by (metis Suc_le_eq le_less)
  let ?r = "if bit b i then r OR push_bit (rank b i) (drop_bit i a AND 1) else r"
  have "pext_scan a b [i..<n] (rank b i) r = pext_scan a b [Suc i..<n] (rank b (Suc i)) ?r"
    by (simp add: u rank_Suc bit_drop_bit_eq)
  also have "bit \<dots> j \<longleftrightarrow> bit ?r j \<or> (\<exists>t. Suc i \<le> t \<and> t < n \<and> bit b t \<and> rank b t = j \<and> bit a t)"
    using Suc.hyps(2) Suc.prems by (intro Suc.hyps(1)) auto
  also have "bit ?r j \<longleftrightarrow> bit r j \<or> (i < n \<and> bit b i \<and> rank b i = j \<and> bit a i)"
    using r Suc.hyps(2) by (auto simp: bit_simps bit_and_1)
  finally show ?case by (simp only: split [of "\<lambda>t. t < n \<and> bit b t \<and> rank b t = j \<and> bit a t"]) blast
qed

lemma bit_pdep:
  assumes "valid_size sz"
  shows "bit (fst (bmi_result a b sz Pdep)) j \<longleftrightarrow>
    j < 8 * sz \<and> bit b j \<and> rank (take_bit (8 * sz) b) j < 8 * sz \<and> bit a (rank (take_bit (8 * sz) b) j)"
proof -
  have n: "8 * sz \<le> 64" using assms by (auto simp: valid_size_def)
  have "fst (bmi_result a b sz Pdep) =
      take_bit (8 * sz) (pdep_scan (take_bit (8 * sz) a) (take_bit (8 * sz) b) [0..<8 * sz] (rank (take_bit (8 * sz) b) 0) 0)"
    by (simp add: bmi_result_def Let_def and_mask_word mult.commute rank_def)
  then show ?thesis
    using pdep_scan_bits [of 0 "8 * sz" "take_bit (8 * sz) a" "take_bit (8 * sz) b" 0 j] n
    by (auto simp: bit_take_bit_iff)
qed

lemma bit_pext:
  assumes "valid_size sz"
  shows "bit (fst (bmi_result a b sz Pext)) j \<longleftrightarrow>
    j < 8 * sz \<and> (\<exists>t<8 * sz. bit b t \<and> rank (take_bit (8 * sz) b) t = j \<and> bit a t)"
proof -
  have n: "8 * sz \<le> 64" using assms by (auto simp: valid_size_def)
  have "fst (bmi_result a b sz Pext) =
      take_bit (8 * sz) (pext_scan (take_bit (8 * sz) a) (take_bit (8 * sz) b) [0..<8 * sz] (rank (take_bit (8 * sz) b) 0) 0)"
    by (simp add: bmi_result_def Let_def and_mask_word mult.commute rank_def)
  then show ?thesis
    using pext_scan_bits [of 0 "8 * sz" "take_bit (8 * sz) a" "take_bit (8 * sz) b" 0 j] n
    by (auto simp: bit_take_bit_iff)
qed

lemma rank_le: "rank b t \<le> t"
  by (induction t) (auto simp: rank_Suc rank_def)

lemma pdep_after_pext:
  assumes "valid_size sz"
  shows "fst (bmi_result (fst (bmi_result a b sz Pext)) b sz Pdep) = take_bit (8 * sz) (a AND b)"
proof (rule bit_word_eqI)
  fix j
  let ?b = "take_bit (8 * sz) b"
  have "s = t" if "bit b s" "bit b t" "s < 8 * sz" "t < 8 * sz" "rank ?b s = rank ?b t" for s t
    by (rule rank_inj [of ?b]) (use that in \<open>simp_all add: bit_take_bit_iff\<close>)
  moreover have "rank ?b j < 8 * sz" if "j < 8 * sz" using rank_le [of ?b j] that by simp
  ultimately show "bit (fst (bmi_result (fst (bmi_result a b sz Pext)) b sz Pdep)) j \<longleftrightarrow>
     bit (take_bit (8 * sz) (a AND b)) j"
    unfolding bit_pdep [OF assms] bit_pext [OF assms] bit_take_bit_iff bit_and_iff by blast
qed

lemma pext_after_pdep:
  assumes "valid_size sz"
  shows "fst (bmi_result (fst (bmi_result a b sz Pdep)) b sz Pext) =
    take_bit (count_ones (take_bit (8 * sz) b)) a"
proof (rule bit_word_eqI)
  fix j
  let ?b = "take_bit (8 * sz) b"
  have n: "8 * sz \<le> 64" using assms by (auto simp: valid_size_def)
  have c: "count_ones ?b = rank ?b (8 * sz)"
  proof -
    have "[0..<64] = [0..<8 * sz] @ [8 * sz..<64]" using n upt_add_eq_append [of 0 "8 * sz" "64 - 8 * sz"] by simp
    moreover have "filter (bit ?b) [8 * sz..<64] = []" by (simp add: filter_empty_conv bit_take_bit_iff)
    ultimately show ?thesis by (simp add: count_ones_def rank_def)
  qed
  have le: "rank ?b (8 * sz) \<le> 8 * sz" by (rule rank_le)
  have bb: "bit ?b t \<longleftrightarrow> t < 8 * sz \<and> bit b t" for t by (simp add: bit_take_bit_iff)
  have ex: "(\<exists>t<8 * sz. bit b t \<and> rank ?b t = j) \<longleftrightarrow> j < rank ?b (8 * sz)"
    using rank_surj [of j ?b "8 * sz"] rank_less [of _ "8 * sz" ?b] by (auto simp: bb)
  show "bit (fst (bmi_result (fst (bmi_result a b sz Pdep)) b sz Pext)) j \<longleftrightarrow>
     bit (take_bit (count_ones ?b) a) j"
    unfolding bit_pdep [OF assms] bit_pext [OF assms] bit_take_bit_iff c using ex le by auto
qed

section \<open>Properties\<close>

text \<open>
  Property C13: addition with carry.  The result is the sum at the operand size; CF is the carry out, OF says
  that the signed sum leaves the operand's range, AF is the carry out of the low nibble, and ZF, SF and PF
  describe the result.
\<close>
theorem alu_add_correct:
  assumes "valid_size sz"
  shows "res (alu_add a b (of_flag c) sz) = take_bit (8 * sz) (a + b + of_flag c) \<and>
    uval sz (res (alu_add a b (of_flag c) sz)) = (uval sz a + uval sz b + of_bool c) mod 2 ^ (8 * sz) \<and>
    (res_cf (alu_add a b (of_flag c) sz) \<longleftrightarrow> 2 ^ (8 * sz) \<le> uval sz a + uval sz b + of_bool c) \<and>
    (res_of (alu_add a b (of_flag c) sz) \<longleftrightarrow>
       sval sz a + sval sz b + of_bool c \<notin> {- (2 ^ (8 * sz - 1)) ..< 2 ^ (8 * sz - 1)}) \<and>
    (res_af (alu_add a b (of_flag c) sz) \<longleftrightarrow>
       16 \<le> uint (take_bit (8 * sz) a) mod 16 + uint (take_bit (8 * sz) b) mod 16 + of_bool c) \<and>
    (res_zf (alu_add a b (of_flag c) sz) \<longleftrightarrow> uval sz (a + b + of_flag c) = 0) \<and>
    (res_sf (alu_add a b (of_flag c) sz) \<longleftrightarrow> sval sz (a + b + of_flag c) < 0) \<and>
    res_pf (alu_add a b (of_flag c) sz) = parity (res (alu_add a b (of_flag c) sz))"
proof -
  have "uval sz (res (alu_add a b (of_flag c) sz)) = uval sz (a + b + of_flag c)"
    by (simp add: alu_add_res uval_take_bit)
  moreover have "res_pf (alu_add a b (of_flag c) sz) = parity (res (alu_add a b (of_flag c) sz))"
    by (simp add: alu_add_def Let_def)
  ultimately show ?thesis
    by (simp add: alu_add_res uval_add3 [OF assms] alu_add_cf [OF assms] alu_add_of [OF assms] alu_af alu_zf_sf [OF assms] not_le)
qed

theorem alu_add_correct_witness:
  "uval 1 (res (alu_add 0xFF 1 (of_flag True) 1)) = 1 \<and> res_cf (alu_add 0xFF 1 (of_flag True) 1)"
  using alu_add_correct [of 1 "0xFF" 1 True] by (simp add: valid_size_def uval_def of_flag_def)

text \<open>
  Property C4: subtraction with borrow.  CF is the borrow, OF says that the signed difference leaves the
  operand's range, AF is the borrow into the low nibble, and ZF, SF and PF describe the result.
\<close>
theorem alu_sub_correct:
  assumes "valid_size sz"
  shows "res (alu_sub a b (of_flag c) sz) = take_bit (8 * sz) (a - b - of_flag c) \<and>
    uval sz (res (alu_sub a b (of_flag c) sz)) = (uval sz a - uval sz b - of_bool c) mod 2 ^ (8 * sz) \<and>
    (res_cf (alu_sub a b (of_flag c) sz) \<longleftrightarrow> uval sz a < uval sz b + of_bool c) \<and>
    (res_of (alu_sub a b (of_flag c) sz) \<longleftrightarrow>
       sval sz a - sval sz b - of_bool c \<notin> {- (2 ^ (8 * sz - 1)) ..< 2 ^ (8 * sz - 1)}) \<and>
    (res_af (alu_sub a b (of_flag c) sz) \<longleftrightarrow>
       uint (take_bit (8 * sz) a) mod 16 < uint (take_bit (8 * sz) b) mod 16 + of_bool c) \<and>
    (res_zf (alu_sub a b (of_flag c) sz) \<longleftrightarrow> uval sz (a - b - of_flag c) = 0) \<and>
    (res_sf (alu_sub a b (of_flag c) sz) \<longleftrightarrow> sval sz (a - b - of_flag c) < 0) \<and>
    res_pf (alu_sub a b (of_flag c) sz) = parity (res (alu_sub a b (of_flag c) sz))"
proof -
  have "uval sz (res (alu_sub a b (of_flag c) sz)) = uval sz (a - b - of_flag c)"
    by (simp add: alu_sub_res uval_take_bit)
  moreover have "res_pf (alu_sub a b (of_flag c) sz) = parity (res (alu_sub a b (of_flag c) sz))"
    by (simp add: alu_sub_def Let_def)
  ultimately show ?thesis
    by (simp add: alu_sub_res uval_add3 [OF assms] alu_sub_cf [OF assms] alu_sub_of [OF assms] alu_af alu_zf_sf [OF assms] not_le)
qed

theorem alu_sub_correct_witness:
  "uval 1 (res (alu_sub 0x10 1 (of_flag False) 1)) = 0xF \<and> res_af (alu_sub 0x10 1 (of_flag False) 1)"
  using alu_sub_correct [of 1 "0x10" 1 False] by (simp add: valid_size_def uval_def of_flag_def)

text \<open>
  Property C12: after a compare, every condition code decides the comparison it is named after: equality,
  the unsigned orders on \<open>uval\<close> and the signed orders on \<open>sval\<close>.
\<close>
theorem cmp_conditions:
  assumes "valid_size sz"
  shows "(let f' = apply_flags FM_ALL (alu_sub a b 0 sz) f in
    (eval_cond Eq f' \<longleftrightarrow> uval sz a = uval sz b) \<and> (eval_cond Ne f' \<longleftrightarrow> uval sz a \<noteq> uval sz b) \<and>
    (eval_cond Below f' \<longleftrightarrow> uval sz a < uval sz b) \<and> (eval_cond AboveEq f' \<longleftrightarrow> uval sz a \<ge> uval sz b) \<and>
    (eval_cond BelowEq f' \<longleftrightarrow> uval sz a \<le> uval sz b) \<and> (eval_cond Above f' \<longleftrightarrow> uval sz a > uval sz b) \<and>
    (eval_cond Less f' \<longleftrightarrow> sval sz a < sval sz b) \<and> (eval_cond GreaterEq f' \<longleftrightarrow> sval sz a \<ge> sval sz b) \<and>
    (eval_cond LessEq f' \<longleftrightarrow> sval sz a \<le> sval sz b) \<and> (eval_cond Greater f' \<longleftrightarrow> sval sz a > sval sz b))"
proof -
  have "uval sz a = uval sz b \<longleftrightarrow> sval sz a = sval sz b"
    using uval_bounds [of sz a] uval_bounds [of sz b] by (auto simp: sval_uval [OF assms])
  then show ?thesis
    using cmp_flags [OF assms, of a b] by (auto simp: Let_def)
qed

theorem cmp_conditions_witness:
  "eval_cond Above (apply_flags FM_ALL (alu_sub 0xFF 1 0 1) flags_default) \<and>
   eval_cond Less (apply_flags FM_ALL (alu_sub 0xFF 1 0 1) flags_default)"
  using cmp_conditions [of 1 "0xFF" 1 flags_default] by (simp add: valid_size_def uval_def sval_def Let_def)

text \<open>
  Property C7: division.  The unsigned form divides the double-width dividend and the signed form truncates
  towards zero; the result is \<open>None\<close> (the divide error) exactly when the divisor is zero or the quotient
  does not fit the operand size.
\<close>
theorem divide_correct:
  assumes "valid_size sz"
  shows "divide hi lo divisor sz False =
      (let n = udividend sz hi lo; d = uval sz divisor
       in if d = 0 \<or> 2 ^ (8 * sz) \<le> n div d then None else Some (of_int (n div d), of_int (n mod d))) \<and>
    divide hi lo divisor sz True =
      (let n = sdividend sz hi lo; d = sval sz divisor
       in if d = 0 \<or> n sdiv d \<notin> {- (2 ^ (8 * sz - 1)) ..< 2 ^ (8 * sz - 1)} then None
          else Some (take_bit (8 * sz) (of_int (n sdiv d)), take_bit (8 * sz) (of_int (n smod d))))"
  using divide_unsigned_aux [OF assms, of hi lo divisor] divide_signed_aux [OF assms, of hi lo divisor]
  by (simp add: Let_def)

theorem divide_correct_witness:
  "divide 1 0 0 4 False = None \<and> divide 0 7 2 4 False = Some (3, 1)"
  using divide_correct [of 4 1 0 0] divide_correct [of 4 0 7 2]
  by (simp add: valid_size_def uval_def udividend_def Let_def)

text \<open>
  Property C17: rotating right through carry undoes rotating left through carry by the same count, and a
  rotation by the size of the ring, operand bits plus carry, is the identity.
\<close>
theorem rcl_rcr_inverse:
  assumes "valid_size sz" "take_bit (8 * sz) v = v"
  shows "rcr (fst (rcl v n cf sz)) n (snd (rcl v n cf sz)) sz = (v, cf) \<and> rcl v (8 * sz + 1) cf sz = (v, cf)"
proof
  let ?l = "rcl v n cf sz" and ?m = "8 * sz + 1"
  have l: "take_bit (8 * sz) (fst ?l) = fst ?l" by (rule rcl_masked [OF assms(2)])
  show "rcr (fst ?l) n (snd ?l) sz = (v, cf)"
  proof (rule ring_bit_inject)
    fix i assume i: "i \<le> 8 * sz"
    have "ring_bit sz (rcr (fst ?l) n (snd ?l) sz) i = ring_bit sz ?l ((i + n) mod ?m)"
      using rcr_ring(1) [OF assms(1) i l, of n "snd ?l"] by simp
    also have "\<dots> = ring_bit sz (v, cf) (((i + n) mod ?m + n * (8 * sz)) mod ?m)"
      by (rule rcl_ring [OF assms(1)]) (simp add: less_Suc_eq_le [symmetric])
    also have "((i + n) mod ?m + n * (8 * sz)) mod ?m = (i + n * ?m) mod ?m"
      by (simp only: mod_add_left_eq) (simp add: algebra_simps)
    also have "\<dots> = i" using i mod_mult_self1 [of i n ?m] by (simp only: mod_less le_imp_less_Suc Suc_eq_plus1)
    finally show "ring_bit sz (rcr (fst ?l) n (snd ?l) sz) i = ring_bit sz (v, cf) i" .
  qed (use assms rcr_ring(2) [OF assms(1) order_refl l] in auto)
  show "rcl v ?m cf sz = (v, cf)"
  proof (rule ring_bit_inject)
    fix i assume i: "i \<le> 8 * sz"
    then have "(i + ?m * (8 * sz)) mod ?m = i"
      by (simp only: mod_mult_self2 mod_less le_imp_less_Suc Suc_eq_plus1)
    then show "ring_bit sz (rcl v ?m cf sz) i = ring_bit sz (v, cf) i"
      using rcl_ring [OF assms(1) i, of v ?m cf] by simp
  qed (use assms(2) in \<open>simp_all only: fst_conv rcl_masked [OF assms(2)]\<close>)
qed

theorem rcl_rcr_inverse_witness:
  "rcr (fst (rcl 0x81 5 True 1)) 5 (snd (rcl 0x81 5 True 1)) 1 = (0x81, True)"
  using rcl_rcr_inverse [of 1 "0x81" 5 True] by (simp add: valid_size_def)

text \<open>
  Property C18: bit deposit undoes bit extract up to the mask, and bit extract undoes bit deposit up to the
  number of bits in the mask.
\<close>
theorem pdep_pext_inverse:
  assumes "valid_size sz"
  shows "fst (bmi_result (fst (bmi_result a b sz Pext)) b sz Pdep) = take_bit (8 * sz) (a AND b) \<and>
    fst (bmi_result (fst (bmi_result a b sz Pdep)) b sz Pext) = take_bit (count_ones (take_bit (8 * sz) b)) a"
  using pdep_after_pext [OF assms] pext_after_pdep [OF assms] by simp

theorem pdep_pext_inverse_witness:
  "fst (bmi_result (fst (bmi_result 0x35 0xF0 1 Pext)) 0xF0 1 Pdep) = 0x30"
  using pdep_pext_inverse [of 1 "0x35" "0xF0"] by (simp add: valid_size_def)

end
