(* ===== verification/X86_Flag_Agree.thy ===== *)
theory X86_Flag_Agree
  imports X86_Elide X86_Alu_Correct
begin

text \<open>
  How every interpreter operation depends on the status flags.  \<open>flag_blind F\<close> says that \<open>F\<close> neither reads nor
  writes them; \<open>st_agree L\<close> relates two states that differ only in flags outside the set \<open>L\<close>, and the
  lemmas show for each operation that agreement on the flags live before it gives the same effect and agreement on
  the flags live after it.
\<close>

unbundle bit_operations_syntax

section \<open>Operations that ignore the flags\<close>

definition put_flags :: "Flags \<Rightarrow> istate \<Rightarrow> istate" where
  "put_flags f st = st\<lparr>icpu := (icpu st)\<lparr>flags := f\<rparr>\<rparr>"

definition put_result :: "Flags \<Rightarrow> exec_result \<Rightarrow> exec_result" where
  "put_result f r = map_option (apfst (put_flags f)) r"

definition flag_blind :: "(istate \<Rightarrow> exec_result) \<Rightarrow> bool" where
  "flag_blind F \<longleftrightarrow> (\<forall>f st. F (put_flags f st) = put_result f (F st))"

lemma put_flags_sel [simp]:
  "itemps (put_flags f st) = itemps st" "imem (put_flags f st) = imem st"
  "icpu (put_flags f st) = (icpu st)\<lparr>flags := f\<rparr>"
  by (simp_all add: put_flags_def)

lemma read_reg_flags [simp]: "read_reg (c\<lparr>flags := f\<rparr>) reg = read_reg c reg"
  by (simp add: read_reg_def split: option.splits Reg.splits)

lemma write_gpr_flags [simp]: "write_gpr i v sz (c\<lparr>flags := f\<rparr>) = map_option (\<lambda>c. c\<lparr>flags := f\<rparr>) (write_gpr i v sz c)"
  by (simp add: write_gpr_def Let_def)

lemma write_reg_flags [simp]: "write_reg reg v sz (c\<lparr>flags := f\<rparr>) = map_option (\<lambda>c. c\<lparr>flags := f\<rparr>) (write_reg reg v sz c)"
  by (simp add: write_reg_def split: option.splits Reg.splits)

lemma set_temp_if: "set_temp t v st = (if t < length (itemps st) then Some (st\<lparr>itemps := (itemps st)[t := v]\<rparr>) else None)"
  by (simp add: set_temp_def set_idx_def)

lemma id_run_flags [simp]:
  "cpuid_run (c\<lparr>flags := f\<rparr>) = map_option (\<lambda>c. c\<lparr>flags := f\<rparr>) (cpuid_run c)"
  "xgetbv_run (c\<lparr>flags := f\<rparr>) = map_option (\<lambda>c. c\<lparr>flags := f\<rparr>) (xgetbv_run c)"
  by (simp_all add: cpuid_run_def xgetbv_run_def Let_def split: prod.split bind_split option.split)

lemmas blind_rules = put_result_def set_temp_if next_op_def stop_op_def trap_op_def trap_out_def Let_def put_flags_def
  set_gpr_def upd_flags_def

lemma blind_int:
  "flag_blind (exec_read_reg dst reg)" "flag_blind (exec_write_reg reg src sz)"
  "flag_blind (exec_sext dst a sz)" "flag_blind (exec_bswap dst a sz)"
  "flag_blind (exec_div cur q r hi lo d sz sg)" "flag_blind (exec_crc32 dst a b n)"
  "flag_blind exec_cpuid" "flag_blind exec_xgetbv"
  unfolding flag_blind_def exec_read_reg_def exec_write_reg_def exec_sext_def exec_bswap_def exec_div_def
    exec_crc32_def exec_cpuid_def exec_xgetbv_def
  by (simp_all add: blind_rules split: bind_split option.split)

lemma blind_memory:
  "flag_blind (exec_load cur dst a sz)" "flag_blind (exec_store cur a s sz)"
  "flag_blind (exec_atomic_rmw cur dst a s sz op)" "flag_blind (exec_atomic_cas cur dst a e s sz)"
  unfolding flag_blind_def exec_load_def exec_store_def exec_atomic_rmw_def exec_atomic_cas_def
  by (simp_all add: blind_rules split: bind_split option.split prod.split sum.split)

lemma blind_control:
  "flag_blind (exec_jump t)" "flag_blind (exec_hlt e)" "flag_blind (exec_trap cur v adv)"
  "flag_blind (exec_call cur t ra slot w)" "flag_blind (exec_ret cur slot pe w)" "flag_blind (exec_port_io be p pv sz out)"
  unfolding flag_blind_def exec_jump_def exec_hlt_def exec_trap_def exec_call_def exec_ret_def exec_port_io_def
  by (simp_all add: blind_rules split: bind_split option.split prod.split sum.split)

definition put_machine :: "Flags \<Rightarrow> machine \<Rightarrow> machine" where
  "put_machine f s = ((fst s)\<lparr>flags := f\<rparr>, snd s)"

lemma set_gpr16_flags [simp]: "set_gpr16 i v (c\<lparr>flags := f\<rparr>) = (set_gpr16 i v c)\<lparr>flags := f\<rparr>"
  by (simp add: set_gpr16_def set_gpr_def)

lemma ss_addr_flags [simp]: "ss_addr (c\<lparr>flags := f\<rparr>) sp = ss_addr c sp"
  by (simp add: ss_addr_def)

lemma push16_flags: "push16 cur w (put_machine f s) = apfst (put_machine f) (push16 cur w s)"
  by (auto simp: push16_def put_machine_def trap_out_def Let_def split: prod.splits sum.splits)

lemma pop16_flags: "pop16 cur (put_machine f s) = apfst (put_machine f) (pop16 cur s)"
  by (auto simp: pop16_def put_machine_def trap_out_def Let_def split: prod.splits sum.splits)

lemma push_words_flags: "push_words cur ws (put_machine f s) = apfst (put_machine f) (push_words cur ws s)"
proof (induction ws arbitrary: s)
  case (Cons w ws)
  obtain s' r where "push16 cur w s = (s', r)" by fastforce
  with Cons show ?case by (cases r) (simp_all add: push16_flags)
qed simp

lemma pop_slots_flags: "pop_slots cur slots (put_machine f s) = apfst (put_machine f) (pop_slots cur slots s)"
proof (induction slots arbitrary: s)
  case (Cons slot slots)
  obtain c m r where "pop16 cur s = ((c, m), r)" by (metis prod.exhaust)
  moreover have "put_machine f (c, m) = (c\<lparr>flags := f\<rparr>, m)" by (simp add: put_machine_def)
  moreover have "(case slot of Some i \<Rightarrow> (set_gpr16 i v (c\<lparr>flags := f\<rparr>), m) | None \<Rightarrow> (c\<lparr>flags := f\<rparr>, m))
     = put_machine f (case slot of Some i \<Rightarrow> (set_gpr16 i v c, m) | None \<Rightarrow> (c, m))" for v
    by (simp add: put_machine_def split: option.splits)
  ultimately show ?case
    using Cons by (cases r) (simp_all add: pop16_flags)
qed simp

lemma enter_display_flags:
  "enter_display cur k bp (put_machine f s) = apfst (put_machine f) (enter_display cur k bp s)"
proof (induction k arbitrary: bp s)
  case (Suc k)
  let ?c = "set_gpr16 RBP (bp - 2) (fst s)"
  obtain m r where m: "mem_read (ss_addr ?c (bp - 2)) 2 (snd s) = (m, r)" by fastforce
  have c: "fst (put_machine f s) = (fst s)\<lparr>flags := f\<rparr>" "snd (put_machine f s) = snd s" by (simp_all add: put_machine_def)
  show ?case
  proof (cases r)
    case (Inl t)
    with m show ?thesis by (simp add: c Let_def trap_out_def put_machine_def)
  next
    case (Inr v)
    obtain s' x where p: "push16 cur (ucast v) (?c, m) = (s', x)" by fastforce
    then have "push16 cur (ucast v) (?c\<lparr>flags := f\<rparr>, m) = (put_machine f s', x)"
      using push16_flags [of cur "ucast v" f "(?c, m)"] by (simp add: put_machine_def)
    with m Inr p Suc show ?thesis by (cases x) (simp_all add: c Let_def)
  qed
qed simp

lemma put_machine_sel [simp]:
  "gpr (fst (put_machine f s)) = gpr (fst s)" "put_machine f (c, m) = (c\<lparr>flags := f\<rparr>, m)"
  by (simp_all add: put_machine_def)

lemma enter_nested_flags:
  "enter_nested cur lvl (put_machine f s) = apfst (put_machine f) (enter_nested cur lvl s)"
proof -
  obtain s2 r2 where "enter_display cur (lvl - 1) (ucast (gpr (fst s) RBP)) s = (s2, r2)" by fastforce
  then show ?thesis by (cases r2) (simp_all add: enter_nested_def Let_def enter_display_flags push16_flags)
qed

lemma enter_frame_flags:
  "enter_frame cur alloc lv (put_machine f s) = apfst (put_machine f) (enter_frame cur alloc lv s)"
proof -
  obtain s1 r1 where 1: "push16 cur (ucast (gpr (fst s) RBP)) s = (s1, r1)" by fastforce
  obtain s2 r2 where "enter_nested cur (unat (lv AND 31)) s1 = (s2, r2)" by fastforce
  moreover obtain c2 m2 where "s2 = (c2, m2)" by fastforce
  ultimately have "enter_nested cur (unat (lv AND 31)) s1 = ((c2, m2), r2)" by simp
  with 1 show ?thesis
    by (cases r1; cases r2) (simp_all add: enter_frame_def Let_def push16_flags enter_nested_flags)
qed

lemma on_machine_blind:
  assumes "\<And>f s. F (put_machine f s) = apfst (put_machine f) (F s)"
  shows "flag_blind (on_machine F)"
  unfolding flag_blind_def
proof (intro allI)
  fix f and st :: istate
  obtain c m r where r: "F (icpu st, imem st) = ((c, m), r)" by (metis prod.exhaust)
  then have "F ((icpu st)\<lparr>flags := f\<rparr>, imem st) = ((c\<lparr>flags := f\<rparr>, m), r)"
    using assms [of f "(icpu st, imem st)"] by (simp add: put_machine_def)
  with r show "on_machine F (put_flags f st) = put_result f (on_machine F st)"
    by (cases r) (simp_all add: on_machine_def blind_rules)
qed

lemma blind_stack:
  "flag_blind (exec_popa_real cur)" "flag_blind (exec_enter_real cur alloc lv)"
  unfolding exec_popa_real_def exec_enter_real_def
  by (rule on_machine_blind, rule pop_slots_flags) (rule on_machine_blind, rule enter_frame_flags)

lemma blind_pusha: "flag_blind (exec_pusha_real cur)"
proof -
  have "pusha_words (c\<lparr>flags := f\<rparr>) = pusha_words c" for c f by (simp add: pusha_words_def)
  moreover have "flag_blind (on_machine (push_words cur ws))" for ws
    by (rule on_machine_blind) (rule push_words_flags)
  ultimately show ?thesis by (simp add: flag_blind_def exec_pusha_real_def)
qed

section \<open>Agreement of flags, states and results\<close>

definition flags_agree :: "u8 \<Rightarrow> Flags \<Rightarrow> Flags \<Rightarrow> bool" where
  "flags_agree L f g \<longleftrightarrow>
     (bit L 0 \<longrightarrow> flag_cf f = flag_cf g) \<and> (bit L 1 \<longrightarrow> pf_src f = pf_src g) \<and>
     (bit L 2 \<longrightarrow> af_src f = af_src g) \<and> (bit L 3 \<longrightarrow> flag_zf f = flag_zf g) \<and>
     (bit L 4 \<longrightarrow> flag_sf f = flag_sf g) \<and> (bit L 5 \<longrightarrow> flag_of f = flag_of g) \<and>
     flag_df f = flag_df g \<and> flag_if f = flag_if g"

definition st_agree :: "u8 \<Rightarrow> istate \<Rightarrow> istate \<Rightarrow> bool" where
  "st_agree L st st' \<longleftrightarrow>
     st' = put_flags (flags (icpu st')) st \<and> flags_agree L (flags (icpu st)) (flags (icpu st'))"

abbreviation res_agree :: "u8 \<Rightarrow> exec_result \<Rightarrow> exec_result \<Rightarrow> bool" where
  "res_agree L \<equiv> rel_option (rel_prod (st_agree L) (=))"

lemma flags_agree_mono:
  assumes "flags_agree L f g" and "\<And>i. i < 6 \<Longrightarrow> bit K i \<Longrightarrow> bit L i"
  shows "flags_agree K f g"
  using assms(1) assms(2) [of 0] assms(2) [of 1] assms(2) [of 2] assms(2) [of 3] assms(2) [of 4] assms(2) [of 5]
  unfolding flags_agree_def by simp

lemma disj_imp_conv: "(P \<or> Q \<longrightarrow> R) \<longleftrightarrow> (P \<longrightarrow> R) \<and> (Q \<longrightarrow> R)" by blast

lemma flags_agree_or [simp]: "flags_agree (K OR L) f g \<longleftrightarrow> flags_agree K f g \<and> flags_agree L f g"
  unfolding flags_agree_def bit_or_iff disj_imp_conv by (simp only: conj_ac conj_absorb conj_left_absorb)

lemma flags_agree_all: "flags_agree 0x3F f g \<longleftrightarrow> f = g"
  by (cases f; cases g) (simp add: flags_agree_def)

lemma flags_agree_refl [simp]: "flags_agree L f f"
  by (simp add: flags_agree_def)

lemma flags_agree_subset:
  assumes "h AND NOT L = 0" "flags_agree L f g" shows "flags_agree h f g"
proof -
  have "bit L i" if "bit h i" "i < 6" for i
    using arg_cong [OF assms(1), of "\<lambda>x. bit x i"] that by (simp add: bit_simps)
  with assms(2) show ?thesis by (intro flags_agree_mono [OF assms(2)])
qed

lemma st_agree_iff [simp]:
  "st_agree L st (put_flags f st) \<longleftrightarrow> flags_agree L (flags (icpu st)) f"
  by (simp add: st_agree_def)

lemma put_flags_self [simp]: "put_flags (flags (icpu st)) st = st"
  by (simp add: put_flags_def)

lemma st_agreeE:
  assumes "st_agree L st st'"
  obtains f where "st' = put_flags f st" "flags_agree L (flags (icpu st)) f"
  using assms by (auto simp: st_agree_def)

lemma put_result_flags:
  assumes "flag_blind F" "F st = Some (st1, x)"
  shows "flags (icpu st1) = flags (icpu st)"
proof -
  have "F st = put_result (flags (icpu st)) (F st)"
    using assms(1) by (metis flag_blind_def put_flags_self)
  then have "st1 = put_flags (flags (icpu st)) st1" using assms(2) by (simp add: put_result_def)
  from arg_cong [OF this, of "\<lambda>s. flags (icpu s)"] show ?thesis by simp
qed

lemma blind_agree:
  assumes "flag_blind F" "st_agree L st st'"
  shows "res_agree L (F st) (F st')"
proof -
  obtain f where f: "st' = put_flags f st" "flags_agree L (flags (icpu st)) f" using assms(2) by (rule st_agreeE)
  have "F st' = put_result f (F st)" using assms(1) f(1) by (simp add: flag_blind_def)
  then show ?thesis
    using f(2) put_result_flags [OF assms(1)] by (cases "F st") (auto simp: put_result_def)
qed

lemma upd_flags_put: "upd_flags h (put_flags f st) = put_flags (h f) st"
  by (simp add: upd_flags_def put_flags_def)

lemma st_agree_upd:
  assumes "st_agree L' st st'" and "\<And>f g. flags_agree L' f g \<Longrightarrow> flags_agree L (h f) (h' g)"
  shows "st_agree L (upd_flags h st) (upd_flags h' st')"
proof -
  obtain f where f: "st' = put_flags f st" "flags_agree L' (flags (icpu st)) f" using assms(1) by (rule st_agreeE)
  have "put_flags (h' f) st = put_flags (h' f) (upd_flags h st)" by (simp add: put_flags_def upd_flags_def)
  moreover have "flags (icpu (upd_flags h st)) = h (flags (icpu st))" by (simp add: upd_flags_def)
  ultimately show ?thesis
    using assms(2) [OF f(2)] st_agree_iff [of L "upd_flags h st" "h' f"] unfolding f(1) upd_flags_put by simp
qed

lemma st_agree_upd_left:
  assumes "st_agree L st st'" and "\<And>f. flags_agree L f (h f)"
  shows "st_agree L (upd_flags h st) st'"
proof -
  have "st_agree L (upd_flags h st) (upd_flags (\<lambda>x. x) st')"
  proof (rule st_agree_upd [OF assms(1)])
    fix f g assume "flags_agree L f g" then show "flags_agree L (h f) g"
      using assms(2) [of f] unfolding flags_agree_def by simp
  qed
  then show ?thesis by (simp add: upd_flags_def)
qed

lemma st_agree_temps:
  assumes "st_agree L st st'"
  shows "rel_option (st_agree L) (set_temp t v st) (set_temp t v st')"
proof -
  obtain f where f: "st' = put_flags f st" "flags_agree L (flags (icpu st)) f" using assms(1) by (rule st_agreeE)
  have "st_agree L (st\<lparr>itemps := x\<rparr>) ((put_flags f st)\<lparr>itemps := x\<rparr>)" for x
    using f(2) by (simp add: put_flags_def st_agree_def)
  then show ?thesis by (simp add: set_temp_if f(1))
qed

lemma st_agree_itemps: "st_agree L st st' \<Longrightarrow> itemps st' = itemps st"
  by (auto elim: st_agreeE)

section \<open>Operations with a flag mask\<close>

lemma apply_flags_src [simp]:
  "pf_src (apply_flags m r f) = (if bit m 1 then pf_src (set_pf (res_pf r) f) else pf_src f)"
  "af_src (apply_flags m r f) = (if bit m 2 then af_src (set_af (res_af r) f) else af_src f)"
  by (simp_all add: apply_flags_def is_none_def Let_def set_pf_def set_af_def)

lemma pf_src_set [simp]:
  "pf_src (set_pf v f) = (if v then PF_SRC_ONE else PF_SRC_ZERO)" "af_src (set_af v f) = (if v then AF_SRC_ONE else AF_SRC_ZERO)"
  "pf_src (set_af v f) = pf_src f" "af_src (set_pf v f) = af_src f"
  by (simp_all add: set_pf_def set_af_def)

lemma apply_agree:
  "flags_agree (L AND NOT (m AND L)) f g \<Longrightarrow> flags_agree L (apply_flags m r f) (apply_flags (m AND L) r g)"
  unfolding flags_agree_def by (simp add: bit_and_iff bit_not_iff bit_or_iff)

lemma apply_agree':
  "flags_agree L f g \<Longrightarrow> flags_agree L (apply_flags m r f) (apply_flags (m AND L) r g)"
  unfolding flags_agree_def by (simp add: bit_and_iff)

lemma apply_flags_none [simp]: "is_none m \<Longrightarrow> apply_flags m r = (\<lambda>f. f)"
  by (simp add: apply_flags_def fun_eq_iff)

lemma upd_flags_id [simp]: "upd_flags (\<lambda>f. f) st = st"
  by (simp add: upd_flags_def)

definition kept :: "bool \<Rightarrow> FlagMask \<Rightarrow> u8 \<Rightarrow> u8" where
  "kept skip m L = L AND NOT (if skip then 0 else m AND L)"

lemma kept_weaken: "flags_agree L f g \<Longrightarrow> flags_agree (kept skip m L) f g"
  by (erule flags_agree_mono) (simp add: kept_def bit_and_iff)

lemma kept_skip [simp]: "kept True m L = L"
  by (simp add: kept_def)

lemma st_agree_mono: "st_agree K st st' \<Longrightarrow> (\<And>f g. flags_agree K f g \<Longrightarrow> flags_agree L f g) \<Longrightarrow> st_agree L st st'"
  by (auto simp: st_agree_def)

lemma alu_finish_agree:
  assumes "st_agree (kept False m L) st st'"
  shows "res_agree L (alu_finish d m r st) (alu_finish d (m AND L) r st')"
proof -
  have u: "st_agree L (upd_flags (apply_flags m r) s) (upd_flags (apply_flags (m AND L) r) s')"
    if "st_agree (kept False m L) s s'" for s s'
    by (rule st_agree_upd [OF that]) (simp add: kept_def apply_agree)
  show ?thesis
    using st_agree_temps [OF assms, of d "res r"] u
    by (cases "set_temp d (res r) st"; cases "set_temp d (res r) st'") (simp_all add: alu_finish_def next_op_def)
qed

lemma shift_finish_agree:
  assumes "st_agree (kept skip m L) st st'" and "\<not> skip \<Longrightarrow> cnt \<noteq> 0"
  shows "res_agree L (shift_finish d m cnt r fl st) (shift_finish d (m AND L) cnt r fl st')"
proof -
  have n: "(if \<not> is_none k \<and> cnt \<noteq> 0 then upd_flags (apply_flags k fl) s else s)
      = (if cnt \<noteq> 0 then upd_flags (apply_flags k fl) s else s)" for k s by simp
  have u: "st_agree L (upd_flags (apply_flags m fl) s) (upd_flags (apply_flags (m AND L) fl) s')"
    if "st_agree (kept skip m L) s s'" for s s'
    by (rule st_agree_upd [OF that]) (auto simp: kept_def apply_agree apply_agree' split: if_splits)
  have "st_agree L s s'" if "st_agree (kept skip m L) s s'" "cnt = 0" for s s'
    using that assms(2) by (cases skip) simp_all
  with u show ?thesis
    using st_agree_temps [OF assms(1), of d r]
    by (cases "set_temp d r st"; cases "set_temp d r st'")
      (simp_all add: shift_finish_def next_op_def n)
qed

lemma res_agree_bind:
  assumes "\<And>v. x = Some v \<Longrightarrow> res_agree L (F v) (G v)"
  shows "res_agree L (Option.bind x F) (Option.bind x G)"
  using assms by (cases x) auto

lemma res_agree_if:
  assumes "P \<Longrightarrow> res_agree L A A'" "\<not> P \<Longrightarrow> res_agree L B B'"
  shows "res_agree L (if P then A else B) (if P then A' else B')"
  using assms by simp

lemma st_agree_sel:
  assumes "st_agree L st st'"
  shows "itemps st' = itemps st" "imem st' = imem st" "gpr (icpu st') = gpr (icpu st)"
  using assms by (auto elim: st_agreeE)

lemma st_agree_cf: "st_agree L st st' \<Longrightarrow> bit L 0 \<Longrightarrow> flag_cf (flags (icpu st')) = flag_cf (flags (icpu st))"
  by (auto elim!: st_agreeE simp: flags_agree_def)

lemma mask_alu_agree:
  assumes "st_agree (kept False m L) st st'"
  shows "res_agree L (exec_add d a b sz m st) (exec_add d a b sz (m AND L) st')"
    "res_agree L (exec_sub d a b sz m st) (exec_sub d a b sz (m AND L) st')"
    "res_agree L (exec_and d a b sz m st) (exec_and d a b sz (m AND L) st')"
    "res_agree L (exec_or d a b sz m st) (exec_or d a b sz (m AND L) st')"
    "res_agree L (exec_xor d a b sz m st) (exec_xor d a b sz (m AND L) st')"
  unfolding exec_add_def exec_sub_def exec_and_def exec_or_def exec_xor_def st_agree_sel [OF assms]
  by (intro res_agree_bind alu_finish_agree [OF assms])+

lemma carry_alu_agree:
  assumes "st_agree (kept False m L OR F_CF) st st'"
  shows "res_agree L (exec_adc d a b sz m st) (exec_adc d a b sz (m AND L) st')"
    "res_agree L (exec_sbb d a b sz m st) (exec_sbb d a b sz (m AND L) st')"
proof -
  have k: "st_agree (kept False m L) st st'" using assms by (rule st_agree_mono) simp
  have c: "flag_cf (flags (icpu st')) = flag_cf (flags (icpu st))"
    by (rule st_agree_cf [OF assms]) (simp add: F_CF_def bit_simps)
  show "res_agree L (exec_adc d a b sz m st) (exec_adc d a b sz (m AND L) st')"
    "res_agree L (exec_sbb d a b sz m st) (exec_sbb d a b sz (m AND L) st')"
    unfolding exec_adc_def exec_sbb_def st_agree_sel [OF assms] c Let_def
    by (intro res_agree_bind alu_finish_agree [OF k])+
qed

lemma shift_mask_count:
  "shift_mask sz = (if sz = 8 then 0x3F else 0x1F)"
  by (simp add: shift_mask_def)

lemma count_nonzero:
  assumes "\<not> count_may_skip b sz False" "read_val b ts = Some vb"
  shows "vb AND shift_mask sz \<noteq> 0"
  using assms by (cases b) (auto simp: count_may_skip_def shift_mask_count Let_def split: if_splits)

lemma shift_agree:
  assumes "st_agree (kept (count_may_skip b sz False) m L) st st'"
  shows "res_agree L (exec_shl d a b sz m st) (exec_shl d a b sz (m AND L) st')"
    "res_agree L (exec_shr d a b sz m st) (exec_shr d a b sz (m AND L) st')"
    "res_agree L (exec_sar d a b sz m st) (exec_sar d a b sz (m AND L) st')"
    "res_agree L (exec_rol d a b sz m st) (exec_rol d a b sz (m AND L) st')"
    "res_agree L (exec_ror d a b sz m st) (exec_ror d a b sz (m AND L) st')"
  unfolding exec_shl_def exec_shr_def exec_sar_def exec_rol_def exec_ror_def st_agree_sel [OF assms] Let_def
  by (intro res_agree_bind shift_finish_agree [OF assms] count_nonzero; assumption)+

section \<open>Counted and wide operations\<close>

lemma rotate_count_nonzero:
  assumes "\<not> count_may_skip b sz True" "read_val b ts = Some vb"
  shows "(of_nat (unat ((ucast vb :: u32) AND ucast (shift_mask sz)) mod (sz * 8 + 1)) :: u64) \<noteq> 0"
proof -
  have "(ucast vb :: u32) AND ucast (shift_mask sz) = ucast (vb AND shift_mask sz)"
    by (rule bit_word_eqI) (simp add: bit_simps)
  moreover have "unat (ucast (vb AND shift_mask sz) :: u32) = unat (vb AND shift_mask sz)"
  proof -
    have "vb AND shift_mask sz \<le> 0x3F"
      using word_and_le1 [of vb "shift_mask sz"] by (cases "sz = 8") (auto simp: shift_mask_count intro: order_trans [of _ 31])
    then show ?thesis by (simp add: unsigned_ucast_eq unsigned_take_bit_eq word_le_nat_alt take_bit_nat_eq_self)
  qed
  moreover have "unat (vb AND shift_mask sz) mod (sz * 8 + 1) \<noteq> 0"
    using assms(1,2) by (cases b) (auto simp: count_may_skip_def shift_mask_count Let_def split: if_splits)
  moreover have "unat (vb AND shift_mask sz) mod (sz * 8 + 1) < 2 ^ LENGTH(64)"
    by (rule le_less_trans [OF mod_less_eq_dividend unsigned_less])
  ultimately show ?thesis
    by (metis mod_less unat_0 unat_of_nat)
qed

lemma through_carry_agree:
  assumes "st_agree (kept (count_may_skip b sz True) m L OR F_CF) st st'"
  shows "res_agree L (exec_rcl d a b sz m st) (exec_rcl d a b sz (m AND L) st')"
    "res_agree L (exec_rcr d a b sz m st) (exec_rcr d a b sz (m AND L) st')"
proof -
  have k: "st_agree (kept (count_may_skip b sz True) m L) st st'" using assms by (rule st_agree_mono) simp
  have c: "flag_cf (flags (icpu st')) = flag_cf (flags (icpu st))"
    by (rule st_agree_cf [OF assms]) (simp add: F_CF_def bit_simps)
  show "res_agree L (exec_rcl d a b sz m st) (exec_rcl d a b sz (m AND L) st')"
    "res_agree L (exec_rcr d a b sz m st) (exec_rcr d a b sz (m AND L) st')"
    unfolding exec_rcl_def exec_rcr_def st_agree_sel [OF k] c Let_def case_prod_unfold
    by (intro res_agree_bind shift_finish_agree [OF k] rotate_count_nonzero; assumption)+
qed

lemma st_agree_set_temp:
  assumes "st_agree K st st'" "\<And>s s'. st_agree K s s' \<Longrightarrow> res_agree L (F s) (G s')"
  shows "res_agree L (Option.bind (set_temp t v st) F) (Option.bind (set_temp t v st') G)"
  using st_agree_temps [OF assms(1), of t v] assms(2)
  by (cases "set_temp t v st"; cases "set_temp t v st'") simp_all

lemma mask_next_agree:
  assumes "st_agree (kept skip m L) st st'"
  shows "res_agree L (next_op (if \<not> is_none m then upd_flags (apply_flags m r) st else st))
    (next_op (if \<not> is_none (m AND L) then upd_flags (apply_flags (m AND L) r) st' else st'))"
proof -
  have n: "(if \<not> is_none k then upd_flags (apply_flags k r) s else s) = upd_flags (apply_flags k r) s" for k s by simp
  have "st_agree L (upd_flags (apply_flags m r) st) (upd_flags (apply_flags (m AND L) r) st')"
    by (rule st_agree_upd [OF assms]) (auto simp: kept_def apply_agree apply_agree' split: if_splits)
  then show ?thesis by (simp only: n next_op_def option.rel_inject rel_prod_inject)
qed

lemma mul_agree:
  assumes "st_agree (kept False m L) st st'"
  shows "res_agree L (exec_mul lo hi a b sz sg m st) (exec_mul lo hi a b sz sg (m AND L) st')"
  unfolding exec_mul_def st_agree_sel [OF assms] case_prod_unfold Let_def
  by (intro res_agree_bind st_agree_set_temp [OF assms], erule st_agree_set_temp, erule mask_next_agree)

lemma double_shift_agree:
  assumes "st_agree (kept (count_may_skip c sz False) m L) st st'"
  shows "res_agree L (exec_double_shift d a b c sz left m st) (exec_double_shift d a b c sz left (m AND L) st')"
proof -
  let ?K = "kept (count_may_skip c sz False) m L"
  have z: "res_agree L (next_op s) (next_op s')"
    if "st_agree ?K s s'" "read_val c (itemps st) = Some vc" "vc AND shift_mask sz = 0" for s s' vc
    using count_nonzero [of c sz] that by (cases "count_may_skip c sz False") (auto simp: next_op_def)
  have p: "(if \<not> is_none k then next_op (upd_flags (apply_flags k r) s) else next_op s)
      = next_op (if \<not> is_none k then upd_flags (apply_flags k r) s else s)" for k r s by simp
  show ?thesis
    unfolding exec_double_shift_def st_agree_sel [OF assms] case_prod_unfold Let_def
    by (intro res_agree_bind res_agree_if st_agree_set_temp [OF assms]; (unfold p)?; erule mask_next_agree z)
qed

section \<open>Operations that write flags unconditionally\<close>

lemma next_agree: "st_agree L st st' \<Longrightarrow> res_agree L (next_op st) (next_op st')"
  by (simp add: next_op_def)

lemma writer_agree:
  assumes "st_agree L st st'"
  shows "res_agree L (exec_popcnt d s sz st) (exec_popcnt d s sz st')"
    "res_agree L (exec_bt d a b sz bop st) (exec_bt d a b sz bop st')"
    "res_agree L (exec_bmi d a b sz mop st) (exec_bmi d a b sz mop st')"
proof -
  have u: "st_agree L (upd_flags h s) (upd_flags h s')"
    if "st_agree L s s'" "\<And>f g. flags_agree L f g \<Longrightarrow> flags_agree L (h f) (h g)" for s s' h
    using that by (rule st_agree_upd)
  have w: "st_agree L (if P then upd_flags h st else st) (if P then upd_flags h st' else st')"
    if "\<And>f g. flags_agree L f g \<Longrightarrow> flags_agree L (h f) (h g)" for P h
    using u [OF assms that] assms by simp
  show "res_agree L (exec_popcnt d s sz st) (exec_popcnt d s sz st')"
    unfolding exec_popcnt_def st_agree_sel [OF assms] Let_def
    by (intro res_agree_bind st_agree_set_temp [OF assms] next_agree, erule u)
      (simp add: flags_agree_def set_pf_def set_af_def)
  show "res_agree L (exec_bt d a b sz bop st) (exec_bt d a b sz bop st')"
    unfolding exec_bt_def st_agree_sel [OF assms] Let_def
    by (intro res_agree_bind, rule st_agree_set_temp [OF u [OF assms] next_agree])
      (simp_all add: flags_agree_def)
  show "res_agree L (exec_bmi d a b sz mop st) (exec_bmi d a b sz mop st')"
    unfolding exec_bmi_def st_agree_sel [OF assms] Let_def case_prod_unfold
    by (intro res_agree_bind, rule st_agree_set_temp [OF w next_agree]) (simp_all add: flags_agree_def)
qed

lemma bit_scan_agree:
  assumes "flags_agree L f g"
  shows "fst (bit_scan_result op s o_v sz g) = fst (bit_scan_result op s o_v sz f)"
    "flags_agree L (snd (bit_scan_result op s o_v sz f)) (snd (bit_scan_result op s o_v sz g))"
  using assms by (cases op; simp add: bit_scan_result_def Let_def flags_agree_def)+

lemma exec_bit_scan_agree:
  assumes "st_agree L st st'"
  shows "res_agree L (exec_bit_scan d s old sz op st) (exec_bit_scan d s old sz op st')"
proof -
  obtain f where f: "st' = put_flags f st" "flags_agree L (flags (icpu st)) f" using assms by (rule st_agreeE)
  have r: "fst (bit_scan_result op v w sz (flags (icpu st'))) = fst (bit_scan_result op v w sz (flags (icpu st)))" for v w
    using bit_scan_agree(1) [OF f(2)] f(1) by simp
  have u: "st_agree L (upd_flags (\<lambda>_. x) st) (upd_flags (\<lambda>_. y) st')" if "flags_agree L x y" for x y
    by (rule st_agree_upd [OF assms]) (rule that)
  show ?thesis
    unfolding exec_bit_scan_def st_agree_sel [OF assms] Let_def case_prod_unfold r
    by (intro res_agree_bind, rule st_agree_set_temp [OF u next_agree])
      (simp_all add: f bit_scan_agree(2))
qed

lemma flag_move_agree:
  assumes "st_agree L st st'"
  shows "res_agree L (exec_set_df v st) (exec_set_df v st')"
    "res_agree L (next_op (upd_flags (\<lambda>f. f\<lparr>flag_if := v\<rparr>) st)) (next_op (upd_flags (\<lambda>f. f\<lparr>flag_if := v\<rparr>) st'))"
    "res_agree L (exec_set_cf (Some v) st) (exec_set_cf (Some v) st')"
    "res_agree L (exec_sahf st) (exec_sahf st')"
  unfolding exec_set_df_def exec_set_cf_def exec_sahf_def st_agree_sel [OF assms] Let_def
  by (rule next_agree, rule st_agree_upd [OF assms], simp add: flags_agree_def set_pf_def set_af_def)+

lemma set_cf_agree: "st_agree L st st' \<Longrightarrow> bit L 0 \<Longrightarrow> res_agree L (exec_set_cf v st) (exec_set_cf v st')"
  unfolding exec_set_cf_def by (rule next_agree, erule st_agree_upd) (simp add: flags_agree_def split: option.splits)

lemma get_cond_agree:
  assumes "st_agree (L OR cond_reads cond) st st'"
  shows "eval_cond cond (flags (icpu st')) = eval_cond cond (flags (icpu st))"
    "res_agree L (exec_get_cond d cond st) (exec_get_cond d cond st')"
    "res_agree L (exec_branch cond t fl st) (exec_branch cond t fl st')"
proof -
  obtain f where f: "st' = put_flags f st" "flags_agree L (flags (icpu st)) f" "flags_agree (cond_reads cond) (flags (icpu st)) f"
    using assms by (auto elim: st_agreeE)
  show e: "eval_cond cond (flags (icpu st')) = eval_cond cond (flags (icpu st))"
    using f(3) by (cases cond) (auto simp: f(1) flags_agree_def F_CF_def F_PF_def F_AF_def F_ZF_def F_SF_def F_OF_def bit_simps pf_def)
  have L: "st_agree L st st'" using assms by (rule st_agree_mono) simp
  show "res_agree L (exec_get_cond d cond st) (exec_get_cond d cond st')"
    unfolding exec_get_cond_def e by (rule st_agree_set_temp [OF L next_agree])
  show "res_agree L (exec_branch cond t fl st) (exec_branch cond t fl st')"
    using f(2) unfolding exec_branch_def e by (simp add: f(1) stop_op_def put_flags_def st_agree_def)
qed

section \<open>String operations\<close>

definition str_agree :: "u8 \<Rightarrow> CpuState \<times> 'm \<times> StrFault option \<Rightarrow> CpuState \<times> 'm \<times> StrFault option \<Rightarrow> bool" where
  "str_agree L r r' \<longleftrightarrow>
     fst r' = (fst r)\<lparr>flags := flags (fst r')\<rparr> \<and> snd r' = snd r \<and> flags_agree L (flags (fst r)) (flags (fst r'))"

lemma str_agree_iff: "str_agree L (c, m, x) (c', m', x') \<longleftrightarrow>
    c' = c\<lparr>flags := flags c'\<rparr> \<and> m' = m \<and> x' = x \<and> flags_agree L (flags c) (flags c')"
  by (simp add: str_agree_def)

definition compares :: "StrOp \<Rightarrow> bool" where
  "compares op \<longleftrightarrow> op = Scas \<or> op = Cmps"

lemma flags_agree_apply_all: "flags_agree L f g \<Longrightarrow> flags_agree 0x3F (apply_flags FM_ALL r f) (apply_flags FM_ALL r g)"
  by (simp add: flags_agree_def)

lemma flags_agree_from_all: "flags_agree 0x3F f g \<Longrightarrow> flags_agree L f g"
  by (simp add: flags_agree_all)

lemma write_gpr_flags_eq: "write_gpr i v sz c = Some c' \<Longrightarrow> flags c' = flags c"
  by (auto simp: write_gpr_def Let_def split: if_splits)

definition step_agree :: "u8 \<Rightarrow> StrOp \<Rightarrow> CpuState \<times> 'm \<times> StrFault option \<Rightarrow> CpuState \<times> 'm \<times> StrFault option \<Rightarrow> bool" where
  "step_agree L op r r' \<longleftrightarrow> str_agree L r r' \<and>
     (compares op \<and> snd (snd r) = None \<longrightarrow> flag_zf (flags (fst r')) = flag_zf (flags (fst r)))"

lemma string_step_agree:
  assumes "flags_agree L (flags c) g"
  shows "rel_option (step_agree L op)
     (string_step ld stor op elem cur ab sb db step c m)
     (string_step ld stor op elem cur ab sb db step (c\<lparr>flags := g\<rparr>) m)"
proof (cases "op = Lods")
  case True
  show ?thesis
  proof (cases "ld (sb + (gpr c RSI AND addr_mask ab)) elem m")
    case (Pair m1 r)
    then show ?thesis
    proof (cases r)
      case (Inr v)
      with True Pair assms show ?thesis
        by (cases "write_gpr RAX v elem c")
          (simp_all add: string_step_def Let_def set_gpr_def step_agree_def compares_def str_agree_iff write_gpr_flags_eq)
    qed (use True Pair assms in \<open>simp add: string_step_def str_trap_def Let_def step_agree_def str_agree_iff\<close>)
  qed
next
  case False
  then show ?thesis
    using assms flags_agree_from_all [OF flags_agree_apply_all [OF assms]]
    by (cases op)
      (auto simp: string_step_def str_trap_def Let_def set_gpr_def compares_def step_agree_def str_agree_iff
         split: prod.split sum.split)
qed

definition rep_reads_zf :: "StrOp \<Rightarrow> RepKind \<Rightarrow> bool" where
  "rep_reads_zf op rep \<longleftrightarrow> (rep = Repe \<or> rep = Repne) \<and> \<not> compares op"

lemma set_gpr_flags [simp]:
  "set_gpr i v (c\<lparr>flags := f\<rparr>) = (set_gpr i v c)\<lparr>flags := f\<rparr>" "flags (set_gpr i v c) = flags c"
  by (simp_all add: set_gpr_def)

lemma string_loop_agree:
  assumes "rep_reads_zf op rep \<Longrightarrow> bit L 3" "flags_agree L (flags c) g"
  shows "rel_option (str_agree L)
     (string_loop n ld stor op elem rep cur ab sb db step c m)
     (string_loop n ld stor op elem rep cur ab sb db step (c\<lparr>flags := g\<rparr>) m)"
  using assms(2)
proof (induction n arbitrary: c g m)
  case (Suc n)
  let ?s = "string_step ld stor op elem cur ab sb db step"
  note st = string_step_agree [OF Suc.prems, of op ld stor elem cur ab sb db step m]
  show ?case
  proof (cases "?s c m")
    case None
    with st have "?s (c\<lparr>flags := g\<rparr>) m = None" by simp
    with None Suc.prems show ?thesis by (simp add: str_agree_iff)
  next
    case (Some r)
    obtain c1 m1 x where r: "r = (c1, m1, x)" by (cases r)
    obtain r' where r': "?s (c\<lparr>flags := g\<rparr>) m = Some r'" and sa: "step_agree L op r r'"
      using Some st by (cases "?s (c\<lparr>flags := g\<rparr>) m") auto
    define g1 where "g1 = flags (fst r')"
    have s2: "?s (c\<lparr>flags := g\<rparr>) m = Some (c1\<lparr>flags := g1\<rparr>, m1, x)" and ag: "flags_agree L (flags c1) g1"
      and z: "compares op \<and> x = None \<Longrightarrow> flag_zf g1 = flag_zf (flags c1)"
      using sa r' unfolding g1_def step_agree_def str_agree_def r by (cases r'; simp)+
    note Suc.IH [of "set_gpr RCX (advance ab (- 1) (gpr c1 RCX)) c1" g1 m1]
    moreover have "flag_zf g1 = flag_zf (flags c1)" if "rep = Repe \<or> rep = Repne" "x = None"
      using that z ag assms(1) by (cases "compares op") (auto simp: rep_reads_zf_def flags_agree_def)
    ultimately show ?thesis
      using Suc.prems ag by (cases rep; cases x) (simp_all add: Some r s2 str_agree_iff Let_def)
  qed
qed simp

lemma str_finish_agree:
  assumes "rel_option (str_agree L) r r'" "st' = put_flags g st"
  shows "res_agree L (str_finish r st) (str_finish r' st')"
  using assms
  by (cases r; cases r') (auto simp: str_finish_def str_agree_def st_agree_def put_flags_def)

lemma string_agree:
  assumes "rep_reads_zf op rep \<Longrightarrow> bit L 3" "st_agree L st st'"
  shows "res_agree L (exec_rep_string cur op elem rep ab sb st) (exec_rep_string cur op elem rep ab sb st')"
    "res_agree L (exec_rep_string_real cur op elem rep ds es st) (exec_rep_string_real cur op elem rep ds es st')"
proof -
  obtain g where g: "st' = put_flags g st" "flags_agree L (flags (icpu st)) g" using assms(2) by (rule st_agreeE)
  have d: "flag_df g = flag_df (flags (icpu st))" using g(2) by (simp add: flags_agree_def)
  have "rel_option (str_agree L) (string_run_impl mem_read mem_write op elem rep cur k sb db (icpu st) (imem st))
      (string_run_impl mem_read mem_write op elem rep cur k sb db (icpu st') (imem st'))" for k sb db
    by (simp add: string_run_impl_def Let_def g(1) d string_fuel_def string_loop_agree [OF assms(1) g(2)] del: string_loop.simps)
  note f = str_finish_agree [OF this g(1)]
  show "res_agree L (exec_rep_string cur op elem rep ab sb st) (exec_rep_string cur op elem rep ab sb st')"
    "res_agree L (exec_rep_string_real cur op elem rep ds es st) (exec_rep_string_real cur op elem rep ds es st')"
    unfolding exec_rep_string_def exec_rep_string_real_def st_agree_sel(1) [OF assms(2)] string_run_def
    by (intro res_agree_bind f)+
qed

section \<open>Far transfers and flag pops\<close>

lemma pop_words_flags: "pop_words cur k (put_machine f s) = apfst (put_machine f) (pop_words cur k s)"
proof (induction k arbitrary: s)
  case (Suc k)
  obtain s1 r1 where 1: "pop16 cur s = (s1, r1)" by fastforce
  obtain s2 r2 where 2: "pop_words cur k s1 = (s2, r2)" by fastforce
  with 1 Suc show ?case by (cases r1; cases r2) (simp_all add: pop16_flags)
qed simp

lemma far_blind:
  "flag_blind (\<lambda>st. do { r \<leftarrow> exec_far_jump (itemps st) cs ip (icpu st, imem st); ends_block r st })"
  "flag_blind (\<lambda>st. do { r \<leftarrow> exec_far_call (itemps st) cur cs ip ret (icpu st, imem st); ends_block r st })"
  "flag_blind (\<lambda>st. ends_block (exec_far_ret cur pe (icpu st, imem st)) st)"
proof -
  show "flag_blind (\<lambda>st. do { r \<leftarrow> exec_far_jump (itemps st) cs ip (icpu st, imem st); ends_block r st })"
    unfolding flag_blind_def exec_far_jump_def ends_block_def by (simp add: blind_rules split: bind_split)
  show "flag_blind (\<lambda>st. do { r \<leftarrow> exec_far_call (itemps st) cur cs ip ret (icpu st, imem st); ends_block r st })"
    unfolding flag_blind_def
  proof (intro allI)
    fix f and st :: istate
    let ?p = "push_words cur [cs_sel (icpu st), ret]"
    obtain c m r where p: "?p (icpu st, imem st) = ((c, m), r)" by (metis prod.exhaust)
    moreover have "?p ((icpu st)\<lparr>flags := f\<rparr>, imem st) = ((c\<lparr>flags := f\<rparr>, m), r)"
      using push_words_flags [of cur "[cs_sel (icpu st), ret]" f "(icpu st, imem st)"] p by simp
    ultimately show "(do { r \<leftarrow> exec_far_call (itemps (put_flags f st)) cur cs ip ret (icpu (put_flags f st), imem (put_flags f st)); ends_block r (put_flags f st) })
      = put_result f (do { r \<leftarrow> exec_far_call (itemps st) cur cs ip ret (icpu st, imem st); ends_block r st })"
      by (cases r) (simp_all add: exec_far_call_def ends_block_def blind_rules del: push_words.simps split: bind_split)
  qed
  show "flag_blind (\<lambda>st. ends_block (exec_far_ret cur pe (icpu st, imem st)) st)"
    unfolding flag_blind_def
  proof (intro allI)
    fix f and st :: istate
    obtain c m r where p: "pop_words cur 2 (icpu st, imem st) = ((c, m), r)" by (metis prod.exhaust)
    moreover have "pop_words cur 2 ((icpu st)\<lparr>flags := f\<rparr>, imem st) = ((c\<lparr>flags := f\<rparr>, m), r)"
      using pop_words_flags [of cur 2 f "(icpu st, imem st)"] p by simp
    ultimately show "ends_block (exec_far_ret cur pe (icpu (put_flags f st), imem (put_flags f st))) (put_flags f st)
      = put_result f (ends_block (exec_far_ret cur pe (icpu st, imem st)) st)"
      by (cases r) (simp_all add: exec_far_ret_def ends_block_def blind_rules set_gpr16_def)
  qed
qed

lemma set_flags16_agree: "flags_agree L f g \<Longrightarrow> set_flags16 img f = set_flags16 img g"
  by (cases f; cases g) (simp add: set_flags16_def flags_agree_def set_pf_def set_af_def)

lemma pop_flags_agree:
  assumes "st_agree L st st'"
  shows "res_agree L (exec_popf_real cur st) (exec_popf_real cur st')"
    "res_agree L (ends_block (exec_iret_real cur (icpu st, imem st)) st)
       (ends_block (exec_iret_real cur (icpu st', imem st')) st')"
proof -
  obtain g where g: "st' = put_flags g st" "flags_agree L (flags (icpu st)) g" using assms by (rule st_agreeE)
  have k: "flags c = flags (icpu st)" if "pop_words cur n (icpu st, imem st) = ((c, m), r)" for n c m r
    using that arg_cong [OF pop_words_flags [of cur n "flags (icpu st)" "(icpu st, imem st)"], of "\<lambda>x. flags (fst (fst x))"]
    by simp
  have w: "pop_words cur n ((icpu st)\<lparr>flags := g\<rparr>, imem st) = apfst (put_machine g) (pop_words cur n (icpu st, imem st))" for n
    using pop_words_flags [of cur n g "(icpu st, imem st)"] by simp
  obtain c m r where 3: "pop_words cur 3 (icpu st, imem st) = ((c, m), r)" by (metis prod.exhaust)
  show "res_agree L (ends_block (exec_iret_real cur (icpu st, imem st)) st)
       (ends_block (exec_iret_real cur (icpu st', imem st')) st')"
    using g(2) k [OF 3] set_flags16_agree [OF g(2)]
    by (cases r) (simp_all add: exec_iret_real_def g(1) 3 w ends_block_def stop_op_def st_agree_def put_flags_def)
  obtain c1 m1 r1 where 1: "pop16 cur (icpu st, imem st) = ((c1, m1), r1)" by (metis prod.exhaust)
  have "flags c1 = flags (icpu st)"
    using 1 arg_cong [OF pop16_flags [of cur "flags (icpu st)" "(icpu st, imem st)"], of "\<lambda>x. flags (fst (fst x))"] by simp
  then show "res_agree L (exec_popf_real cur st) (exec_popf_real cur st')"
    using g(2) set_flags16_agree [OF g(2)] pop16_flags [of cur g "(icpu st, imem st)"] 1
    by (cases r1) (simp_all add: exec_popf_real_def g(1) stop_op_def next_op_def st_agree_def put_flags_def)
qed

end
