(* ===== verification/X86_Mem_Access.thy ===== *)
theory X86_Mem_Access
  imports X86_Memory
begin

text \<open>
  Scalar access to guest memory.  The raw accessors are shown equal to their bytewise reference,
  whatever the alignment of the host address; the region lookup is shown independent of its hint; and
  the contract a client of guest memory relies on -- loads return the bytes, stores change exactly the
  bytes written, traps change nothing -- is the locale \<open>guest_ram\<close>, interpreted here by \<open>mem_read\<close> and
  \<open>mem_write\<close>.
\<close>

unbundle bit_operations_syntax

section \<open>Bytes and words\<close>

lemma bit_from_le_bytes [bit_rules]:
  "bit (from_le_bytes xs :: 'a::len word) n \<longleftrightarrow>
     n < LENGTH('a) \<and> n div 8 < length xs \<and> bit (xs ! (n div 8)) (n mod 8)"
proof (induction xs arbitrary: n)
  case Nil
  show ?case by simp
next
  case (Cons x xs)
  show ?case
  proof (cases "n < 8")
    case True
    then show ?thesis using Cons.IH by (auto simp: bit_simps)
  next
    case False
    then obtain m where n: "n = 8 + m" using le_Suc_ex [of 8 n] by auto
    have "\<not> bit x n" using False by (auto dest: bit_imp_le_length)
    moreover have "n div 8 = Suc (m div 8)" "n mod 8 = m mod 8" by (simp_all add: n)
    ultimately show ?thesis
      using Cons.IH [of m] by (auto simp: n bit_or_iff bit_unsigned_iff bit_push_bit_iff)
  qed
qed

lemma length_to_le_bytes [simp]: "length (to_le_bytes n v) = n"
  by (simp add: to_le_bytes_def)

lemma nth_to_le_bytes [simp]: "i < n \<Longrightarrow> to_le_bytes n v ! i = ucast (drop_bit (8 * i) v)"
  by (simp add: to_le_bytes_def)

lemma bit_plain_read [bit_rules]:
  assumes "sz \<le> 8"
  shows "bit (plain_read b off sz) n \<longleftrightarrow> n < 8 * sz \<and> bit (b (off + n div 8)) (n mod 8)"
proof -
  have "n div 8 < sz \<longleftrightarrow> n < 8 * sz" by (simp add: div_less_iff_less_mult mult.commute)
  then show ?thesis using assms by (auto simp: plain_read_def bit_from_le_bytes nth_append)
qed

lemma plain_write_apply:
  assumes "sz \<le> 8"
  shows "plain_write b off v sz j =
     (if off \<le> j \<and> j < off + sz then ucast (drop_bit (8 * (j - off)) v) else b j)"
  using assms by (auto simp: plain_write_def copy_in_def)

lemma typed_store_plain:
  assumes "LENGTH('a::len) = 8 * n" "n \<le> 8"
  shows "typed_store n b off (ucast v :: 'a word) = plain_write b off v n"
proof
  fix j
  have "ucast (drop_bit (8 * (j - off)) (ucast v :: 'a word)) = (ucast (drop_bit (8 * (j - off)) v) :: u8)"
    if "j - off < n" using assms that by (intro bit_word_eqI) (auto simp: bit_simps)
  then show "typed_store n b off (ucast v :: 'a word) j = plain_write b off v n j"
    by (auto simp: typed_store_def copy_in_def plain_write_apply [OF assms(2)] less_diff_conv2)
qed

lemma typed_load_plain:
  assumes "LENGTH('a::len) = 8 * n" "n \<le> 8"
  shows "ucast (typed_load n b off :: 'a word) = plain_read b off n"
proof (rule bit_word_eqI)
  fix k assume "k < LENGTH(64)"
  have "k div 8 < n \<longleftrightarrow> k < 8 * n" by (simp add: div_less_iff_less_mult mult.commute)
  with assms \<open>k < LENGTH(64)\<close> show "bit (ucast (typed_load n b off :: 'a word) :: u64) k \<longleftrightarrow> bit (plain_read b off n) k"
    by (auto simp: bit_plain_read typed_load_def bit_unsigned_iff bit_from_le_bytes)
qed

lemma atomic_load_le_plain [simp]: "valid_size sz \<Longrightarrow> atomic_load_le ptr b off sz = plain_read b off sz"
  using typed_load_plain [where 'a = 64, of 8 b off]
  by (auto simp: valid_size_def atomic_load_le_def typed_load_plain)

lemma atomic_store_le_plain [simp]:
  "valid_size sz \<Longrightarrow> atomic_store_le ptr b off v sz = plain_write b off v sz"
  using typed_store_plain [where 'a = 64, of 8 b off v]
  by (auto simp: valid_size_def atomic_store_le_def typed_store_plain)

lemma ucast_fetch_op:
  assumes "LENGTH('b::len) \<le> LENGTH('a::len)"
  shows "fetch_op op (ucast cur) (ucast s) = (ucast (fetch_op op (cur :: 'a word) s) :: 'b word)"
  by (cases op) (simp_all add: fetch_op_def ucast_down_arith assms unsigned_and_eq unsigned_or_eq unsigned_xor_eq)

lemma mask_bits_eq [simp]: "mask_bits sz = mask (8 * sz)"
proof (cases "8 \<le> sz")
  case True
  then have "mask (8 * sz) = (- 1 :: u64)" by (intro bit_word_eqI) (simp add: bit_mask_iff)
  with True show ?thesis by (simp add: mask_bits_def)
next
  case False
  then show ?thesis by (simp add: mask_bits_def mult.commute)
qed

lemma apply_rmw_fetch: "apply_rmw old src op sz = take_bit (8 * sz) (fetch_op op old src)"
  by (cases op) (simp_all add: apply_rmw_def fetch_op_def and_mask_word)

lemma plain_write_take_bit: "sz \<le> 8 \<Longrightarrow> plain_write b off (take_bit (8 * sz) v) sz = plain_write b off v sz"
proof
  fix j assume "sz \<le> 8"
  have "ucast (drop_bit (8 * (j - off)) (take_bit (8 * sz) v)) = (ucast (drop_bit (8 * (j - off)) v) :: u8)"
    if "j - off < sz"
  proof (rule bit_word_eqI)
    fix n assume "n < LENGTH(8)"
    with that have "8 * (j - off) + n < 8 * sz" by simp
    then show "bit (ucast (drop_bit (8 * (j - off)) (take_bit (8 * sz) v)) :: u8) n \<longleftrightarrow>
        bit (ucast (drop_bit (8 * (j - off)) v) :: u8) n"
      by (simp add: bit_simps)
  qed
  then show "plain_write b off (take_bit (8 * sz) v) sz j = plain_write b off v sz j"
    using \<open>sz \<le> 8\<close> by (auto simp: plain_write_apply less_diff_conv2)
qed

lemma plain_read_write:
  assumes "sz \<le> 8"
  shows "plain_read (plain_write b off v sz) off sz = take_bit (8 * sz) v"
proof (rule bit_word_eqI)
  fix n assume "n < LENGTH(64)"
  have "n div 8 < sz \<longleftrightarrow> n < 8 * sz" by (simp add: div_less_iff_less_mult mult.commute)
  then show "bit (plain_read (plain_write b off v sz) off sz) n \<longleftrightarrow> bit (take_bit (8 * sz) v) n"
    using assms \<open>n < LENGTH(64)\<close> by (auto simp: bit_plain_read plain_write_apply bit_simps)
qed

lemma plain_read_write_other:
  assumes "sz \<le> 8" "sz' \<le> 8" "off' + sz' \<le> off \<or> off + sz \<le> off'"
  shows "plain_read (plain_write b off v sz) off' sz' = plain_read b off' sz'"
proof -
  have "map (\<lambda>i. plain_write b off v sz (off' + i)) [0..<sz'] = map (\<lambda>i. b (off' + i)) [0..<sz']"
    using assms by (auto simp: plain_write_apply)
  then show ?thesis by (simp only: plain_read_def)
qed

lemma take_bit_plain_read [simp]: "sz \<le> 8 \<Longrightarrow> take_bit (8 * sz) (plain_read b off sz) = plain_read b off sz"
  by (rule bit_word_eqI) (auto simp: bit_simps bit_plain_read)

lemma ucast_typed_load:
  assumes "LENGTH('a::len) = 8 * n" "n \<le> 8"
  shows "(typed_load n b off :: 'a word) = ucast (plain_read b off n)"
proof -
  have "(typed_load n b off :: 'a word) = ucast (ucast (typed_load n b off :: 'a word) :: u64)"
    using assms by (intro bit_word_eqI) (auto simp: bit_simps)
  then show ?thesis by (simp only: typed_load_plain [OF assms])
qed

lemma rmw_arm_plain:
  assumes "LENGTH('a::len) = 8 * n" "n \<le> 8"
  shows "rmw_arm TYPE('a) n ptr b off src n op =
    (plain_read b off n, plain_write b off (apply_rmw (plain_read b off n) src op n) n)"
proof -
  have "fetch_op op (ucast (plain_read b off n)) (ucast src) = (ucast (fetch_op op (plain_read b off n) src) :: 'a word)"
    using assms by (simp add: ucast_fetch_op)
  then show ?thesis
    unfolding rmw_arm_def Let_def ucast_typed_load [OF assms]
    using assms typed_load_plain [OF assms, of b off, unfolded ucast_typed_load [OF assms]]
    by (simp add: typed_store_plain [OF assms] apply_rmw_fetch plain_write_take_bit)
qed

lemma cas_arm_plain:
  assumes "LENGTH('a::len) = 8 * n" "n \<le> 8" "take_bit (8 * n) e = e"
  shows "cas_arm TYPE('a) n ptr b off e src n =
    (plain_read b off n, if plain_read b off n = e then plain_write b off src n else b)"
proof -
  have "(ucast (plain_read b off n) :: 'a word) = ucast e \<longleftrightarrow> plain_read b off n = e"
  proof
    assume eq: "(ucast (plain_read b off n) :: 'a word) = ucast e"
    show "plain_read b off n = e"
    proof (rule bit_word_eqI)
      fix k assume "k < LENGTH(64)"
      have "bit (ucast (plain_read b off n) :: 'a word) k \<longleftrightarrow> bit (ucast e :: 'a word) k" by (simp add: eq)
      moreover have "k < 8 * n" if "bit e k"
        using that bit_take_bit_iff [of "8 * n" e k] by (simp add: assms(3))
      ultimately show "bit (plain_read b off n) k \<longleftrightarrow> bit e k"
        using assms(1) by (auto simp: bit_simps bit_plain_read [OF assms(2)])
    qed
  qed simp
  then show ?thesis
    unfolding cas_arm_def Let_def ucast_typed_load [OF assms(1,2)]
    using typed_load_plain [OF assms(1,2), of b off, unfolded ucast_typed_load [OF assms(1,2)]]
    by (simp add: typed_store_plain [OF assms(1,2)])
qed

lemma atomic_rmw_raw_plain:
  assumes "valid_size sz"
  shows "atomic_rmw_raw ptr b off src sz op =
    (plain_read b off sz, plain_write b off (apply_rmw (plain_read b off sz) src op sz) sz)"
  using assms rmw_arm_plain [where 'a = 8, of 1] rmw_arm_plain [where 'a = 16, of 2]
    rmw_arm_plain [where 'a = 32, of 4] rmw_arm_plain [where 'a = 64, of 8]
  by (auto simp: valid_size_def atomic_rmw_raw_def)

text \<open>
  Property C16: an atomic read-modify-write returns the old value and stores the combined value at its
  width, on the typed path of an aligned host address and on the bytewise path alike.
\<close>
theorem atomic_rmw_raw_alignment:
  assumes "valid_size sz"
  shows "atomic_rmw_raw ptr b off src sz op =
    (plain_read b off sz, plain_write b off (apply_rmw (plain_read b off sz) src op sz) sz)"
  using assms by (rule atomic_rmw_raw_plain)

theorem atomic_rmw_raw_alignment_witness:
  "atomic_rmw_raw 3 (\<lambda>_. 7) 0 5 4 RmwAdd =
     (plain_read (\<lambda>_. 7) 0 4, plain_write (\<lambda>_. 7) 0 (apply_rmw (plain_read (\<lambda>_. 7) 0 4) 5 RmwAdd 4) 4)"
  by (rule atomic_rmw_raw_alignment) (simp add: valid_size_def)

lemma atomic_cas_raw_plain:
  assumes "valid_size sz"
  shows "atomic_cas_raw ptr b off (e AND mask_bits sz) src sz =
    (plain_read b off sz, if plain_read b off sz = e AND mask_bits sz then plain_write b off src sz else b)"
proof -
  have "take_bit (8 * sz) (e AND mask_bits sz) = e AND mask_bits sz" by (simp add: and_mask_word)
  then show ?thesis
    using assms cas_arm_plain [where 'a = 8, of 1 "e AND mask_bits sz"] cas_arm_plain [where 'a = 16, of 2 "e AND mask_bits sz"]
      cas_arm_plain [where 'a = 32, of 4 "e AND mask_bits sz"] cas_arm_plain [where 'a = 64, of 8 "e AND mask_bits sz"]
    by (auto simp: valid_size_def atomic_cas_raw_def)
qed

section \<open>Regions\<close>

text \<open>
  Well-formed region tables: every region lies between the guest base and the size of the model, no
  two regions overlap, and the buffer covers the mapped span.
\<close>

definition region_ok :: "Memory \<Rightarrow> Region \<Rightarrow> bool" where
  "region_ok mem r \<longleftrightarrow>
     guest_base mem \<le> region_start r \<and> unat (region_start r) + unat (region_size r) \<le> unat (mem_size mem)"

definition apart :: "Region \<Rightarrow> Region \<Rightarrow> bool" where
  "apart a b \<longleftrightarrow> \<not> (region_start a < region_end b \<and> region_start b < region_end a)"

definition regions_wf :: "Memory \<Rightarrow> bool" where
  "regions_wf mem \<longleftrightarrow>
     list_all (region_ok mem) (regions mem) \<and> sorted_wrt apart (regions mem) \<and>
     unat (mem_size mem) \<le> unat (guest_base mem) + backing_len mem"

definition lookup_region :: "u64 \<Rightarrow> nat \<Rightarrow> Memory \<Rightarrow> MemTrap + Region" where
  "lookup_region addr sz mem =
     (case region_for addr (of_nat sz) mem of None \<Rightarrow> Inl Unmapped | Some r \<Rightarrow> Inr r)"

lemma apart_sym: "apart a b \<longleftrightarrow> apart b a"
  by (auto simp: apart_def)

lemma unat_region_end: "region_ok mem r \<Longrightarrow> unat (region_end r) = unat (region_start r) + unat (region_size r)"
  unfolding region_ok_def region_end_def
  using unat_u64_less [of "mem_size mem"] by (simp add: unat_word_ariths)

lemma regions_unique:
  assumes "regions_wf mem" "i < length (regions mem)" "j < length (regions mem)"
    and "region_contains addr e (regions mem ! i)" "region_contains addr e (regions mem ! j)" "addr < e"
  shows "i = j"
proof (rule ccontr)
  assume "i \<noteq> j"
  have "sorted_wrt apart (regions mem)" using assms(1) by (simp add: regions_wf_def)
  then have "apart (regions mem ! i) (regions mem ! j)"
    using \<open>i \<noteq> j\<close> assms(2,3) sorted_wrt_nth_less [of apart "regions mem"] apart_sym
    by (metis nat_neq_iff)
  then show False using assms(4-6) by (auto simp: apart_def region_contains_def)
qed

lemma region_at_lookup:
  assumes "regions_wf mem" "0 < sz" "sz < 2 ^ 64"
  shows "snd (region_at addr sz mem) = lookup_region addr sz mem"
proof (cases "checked_add addr (of_nat sz)")
  case None
  then show ?thesis by (simp add: region_at_def lookup_region_def region_for_def)
next
  case (Some e)
  then have "addr < e"
    using checked_add_SomeD [OF Some] assms(2,3) by (simp add: word_less_nat_alt unat_of_nat)
  have u: "position (region_contains addr e) (regions mem) = Some (last_region mem)"
    if "last_region mem < length (regions mem)" "region_contains addr e (regions mem ! last_region mem)"
    unfolding position_Some_iff
  proof (intro conjI allI impI notI)
    fix j assume "j < last_region mem" "region_contains addr e (regions mem ! j)"
    with that show False
      using regions_unique [OF assms(1), of j "last_region mem" addr e] \<open>addr < e\<close> by simp
  qed (use that in auto)
  show ?thesis
    using u by (auto simp: Some region_at_def lookup_region_def region_for_def Let_def find_position split: option.splits)
qed

lemma ex_last_region: "\<exists>h. mem = mem\<lparr>last_region := h\<rparr>"
  by (rule exI [of _ "last_region mem"]) simp

lemma fst_region_at: "\<exists>h. fst (region_at addr sz mem) = mem\<lparr>last_region := h\<rparr>"
  unfolding region_at_def Let_def
  by (simp split: option.splits add: ex_last_region) blast

lemma region_at_cases:
  assumes "regions_wf mem" "0 < sz" "sz < 2 ^ 64"
  obtains h where "region_at addr sz mem = (mem\<lparr>last_region := h\<rparr>, lookup_region addr sz mem)"
  using fst_region_at [of addr sz mem] region_at_lookup [OF assms] by (metis prod.collapse)

lemma region_for_SomeD:
  assumes "regions_wf mem" "region_for addr len mem = Some r"
  shows "r \<in> set (regions mem)" "region_start r \<le> addr"
    "unat addr + unat len \<le> unat (region_start r) + unat (region_size r)"
    "guest_base mem \<le> addr"
    "unat addr + unat len \<le> unat (mem_size mem)"
    "host_off addr mem = unat addr - unat (guest_base mem)"
    "host_off addr mem + unat len \<le> backing_len mem"
proof -
  obtain e where e: "checked_add addr len = Some e" "find (region_contains addr e) (regions mem) = Some r"
    using assms(2) by (auto simp: region_for_def bind_eq_Some_conv)
  then have c: "r \<in> set (regions mem)" "region_contains addr e r"
    by (auto simp: find_Some_iff)
  have ok: "region_ok mem r" using c(1) assms(1) by (auto simp: regions_wf_def list_all_iff)
  note e' = checked_add_SomeD [OF e(1)] unat_region_end [OF ok]
  show "r \<in> set (regions mem)" "region_start r \<le> addr" using c by (auto simp: region_contains_def)
  show le: "unat addr + unat len \<le> unat (region_start r) + unat (region_size r)"
    using c(2) e' by (simp add: region_contains_def word_le_nat_alt)
  then show "unat addr + unat len \<le> unat (mem_size mem)" using ok by (simp add: region_ok_def)
  show gb: "guest_base mem \<le> addr" using c(2) ok by (auto simp: region_contains_def region_ok_def)
  then show off: "host_off addr mem = unat addr - unat (guest_base mem)"
    by (simp add: host_off_def unat_sub)
  show "host_off addr mem + unat len \<le> backing_len mem"
    using gb le ok assms(1) unfolding off by (auto simp: regions_wf_def region_ok_def word_le_nat_alt)
qed

section \<open>Reads and writes\<close>

lemma note_page_fields [simp]:
  "model (note_page w p mem) = model mem" "backing (note_page w p mem) = backing mem"
  "backing_len (note_page w p mem) = backing_len mem" "backing_ptr (note_page w p mem) = backing_ptr mem"
  "backing_owner (note_page w p mem) = backing_owner mem" "regions (note_page w p mem) = regions mem"
  "guest_base (note_page w p mem) = guest_base mem" "last_region (note_page w p mem) = last_region mem"
  "code_page (note_page w p mem) = code_page mem" "code_range (note_page w p mem) = code_range mem"
  "protect_log (note_page w p mem) = protect_log mem"
  by (simp_all add: note_page_def Let_def)

lemma fold_note_page_fields [simp]:
  "model (fold (note_page w) ps mem) = model mem" "backing (fold (note_page w) ps mem) = backing mem"
  "backing_len (fold (note_page w) ps mem) = backing_len mem" "backing_ptr (fold (note_page w) ps mem) = backing_ptr mem"
  "backing_owner (fold (note_page w) ps mem) = backing_owner mem" "regions (fold (note_page w) ps mem) = regions mem"
  "guest_base (fold (note_page w) ps mem) = guest_base mem" "last_region (fold (note_page w) ps mem) = last_region mem"
  "code_page (fold (note_page w) ps mem) = code_page mem" "code_range (fold (note_page w) ps mem) = code_range mem"
  "protect_log (fold (note_page w) ps mem) = protect_log mem"
  by (induction ps arbitrary: mem) simp_all

lemma note_write_fields [simp]:
  "model (note_write a n mem) = model mem" "backing (note_write a n mem) = backing mem"
  "backing_len (note_write a n mem) = backing_len mem" "backing_ptr (note_write a n mem) = backing_ptr mem"
  "backing_owner (note_write a n mem) = backing_owner mem" "regions (note_write a n mem) = regions mem"
  "guest_base (note_write a n mem) = guest_base mem" "last_region (note_write a n mem) = last_region mem"
  "code_page (note_write a n mem) = code_page mem" "code_range (note_write a n mem) = code_range mem"
  "protect_log (note_write a n mem) = protect_log mem"
  by (simp_all add: note_write_def)

definition same_map :: "Memory \<Rightarrow> Memory \<Rightarrow> bool" where
  "same_map m m' \<longleftrightarrow> model m' = model m \<and> regions m' = regions m \<and> guest_base m' = guest_base m \<and>
     backing_len m' = backing_len m \<and> backing_ptr m' = backing_ptr m \<and> backing_owner m' = backing_owner m"

lemma same_map_refl [simp]: "same_map m m"
  by (simp add: same_map_def)

lemma same_mapD:
  assumes "same_map m m'"
  shows "regions_wf m' = regions_wf m" "lookup_region addr sz m' = lookup_region addr sz m"
    "region_for addr len m' = region_for addr len m" "host_off addr m' = host_off addr m"
    "mem_size m' = mem_size m"
proof -
  have s: "mem_size m' = mem_size m" using assms by (simp add: mem_size_def same_map_def)
  then show "mem_size m' = mem_size m" .
  have "region_ok m' = region_ok m" using assms s by (auto simp: region_ok_def same_map_def fun_eq_iff)
  then show "regions_wf m' = regions_wf m" using assms s by (simp add: regions_wf_def same_map_def)
  show "region_for addr len m' = region_for addr len m" "lookup_region addr sz m' = lookup_region addr sz m"
    "host_off addr m' = host_off addr m"
    using assms by (simp_all add: same_map_def region_for_def lookup_region_def host_off_def)
qed

lemma mem_read_spec:
  assumes "regions_wf mem" "valid_size sz"
  shows "snd (mem_read addr sz mem) =
      (case lookup_region addr sz mem of
         Inl t \<Rightarrow> Inl t
       | Inr r \<Rightarrow> if region_kind r = TrapKind then Inl Mmio
                 else Inr (plain_read (backing mem) (host_off addr mem) sz))"
    "\<exists>h. fst (mem_read addr sz mem) = mem\<lparr>last_region := h\<rparr>"
proof -
  have sz: "0 < sz" "sz < 2 ^ 64" using assms(2) by (auto simp: valid_size_def)
  obtain h where h: "region_at addr sz mem = (mem\<lparr>last_region := h\<rparr>, lookup_region addr sz mem)"
    using region_at_cases [OF assms(1) sz] .
  have o: "host_off addr (mem\<lparr>last_region := h\<rparr>) = host_off addr mem" by (simp add: host_off_def)
  show "snd (mem_read addr sz mem) =
      (case lookup_region addr sz mem of
         Inl t \<Rightarrow> Inl t
       | Inr r \<Rightarrow> if region_kind r = TrapKind then Inl Mmio
                 else Inr (plain_read (backing mem) (host_off addr mem) sz))"
    using assms(2) by (simp add: mem_read_def h o split: sum.splits)
  show "\<exists>h. fst (mem_read addr sz mem) = mem\<lparr>last_region := h\<rparr>"
    using ex_last_region by (simp add: mem_read_def h split: sum.splits) blast
qed

text \<open>What \<^verbatim>\<open>write\<close> does once the region is known, with the region hint it leaves behind.\<close>

definition write_effect :: "nat \<Rightarrow> u64 \<Rightarrow> u64 \<Rightarrow> nat \<Rightarrow> Memory \<Rightarrow> Memory \<times> (MemTrap + unit)" where
  "write_effect h addr v sz mem =
     (case lookup_region addr sz mem of
        Inl t \<Rightarrow> (mem\<lparr>last_region := h\<rparr>, Inl t)
      | Inr r \<Rightarrow>
          (case region_kind r of
             TrapKind \<Rightarrow> (mem\<lparr>last_region := h\<rparr>, Inl Mmio)
           | Rom \<Rightarrow> (mem\<lparr>last_region := h\<rparr>, Inr ())
           | Ram \<Rightarrow> (note_write addr (of_nat sz)
               (mem\<lparr>last_region := h, backing := plain_write (backing mem) (host_off addr mem) v sz\<rparr>), Inr ())))"

lemma mem_write_cases:
  assumes "regions_wf mem" "valid_size sz"
  obtains h where "mem_write addr v sz mem = write_effect h addr v sz mem"
proof -
  have sz: "0 < sz" "sz < 2 ^ 64" using assms(2) by (auto simp: valid_size_def)
  obtain h where h: "region_at addr sz mem = (mem\<lparr>last_region := h\<rparr>, lookup_region addr sz mem)"
    using region_at_cases [OF assms(1) sz] .
  have o: "host_off addr (mem\<lparr>last_region := h\<rparr>) = host_off addr mem" by (simp add: host_off_def)
  show ?thesis
    using assms(2)
    by (intro that [of h]) (simp add: mem_write_def write_effect_def h o split: sum.splits RegionKind.splits)
qed

section \<open>The contract of guest memory\<close>

text \<open>The value of \<open>n\<close> bytes from address \<open>a\<close>, least significant byte first.\<close>

definition le_value :: "(u64 \<Rightarrow> u8) \<Rightarrow> u64 \<Rightarrow> nat \<Rightarrow> u64" where
  "le_value f a n = from_le_bytes (map (\<lambda>i. f (a + of_nat i)) [0..<n])"

locale guest_ram =
  fixes load :: "u64 \<Rightarrow> nat \<Rightarrow> 'm \<Rightarrow> 'm \<times> (MemTrap + u64)"
    and store :: "u64 \<Rightarrow> u64 \<Rightarrow> nat \<Rightarrow> 'm \<Rightarrow> 'm \<times> (MemTrap + unit)"
    and wf :: "'m \<Rightarrow> bool"
    and byte :: "'m \<Rightarrow> u64 \<Rightarrow> u8"
    and readable :: "'m \<Rightarrow> u64 \<Rightarrow> nat \<Rightarrow> bool"
    and writable :: "'m \<Rightarrow> u64 \<Rightarrow> nat \<Rightarrow> bool"
  assumes load_ok: "wf m \<Longrightarrow> valid_size n \<Longrightarrow> readable m a n \<Longrightarrow> snd (load a n m) = Inr (le_value (byte m) a n)"
    and load_trap: "wf m \<Longrightarrow> valid_size n \<Longrightarrow> \<not> readable m a n \<Longrightarrow> \<exists>t. snd (load a n m) = Inl t"
    and load_frame: "wf m \<Longrightarrow> valid_size n \<Longrightarrow> wf (fst (load a n m)) \<and> byte (fst (load a n m)) = byte m \<and>
      readable (fst (load a n m)) = readable m \<and> writable (fst (load a n m)) = writable m"
    and store_ok: "wf m \<Longrightarrow> valid_size n \<Longrightarrow> writable m a n \<Longrightarrow> snd (store a v n m) = Inr () \<and>
      byte (fst (store a v n m)) =
        (\<lambda>x. if unat (x - a) < n then ucast (drop_bit (8 * unat (x - a)) v) else byte m x)"
    and store_trap: "wf m \<Longrightarrow> valid_size n \<Longrightarrow> snd (store a v n m) = Inl t \<Longrightarrow> byte (fst (store a v n m)) = byte m"
    and store_frame: "wf m \<Longrightarrow> valid_size n \<Longrightarrow> wf (fst (store a v n m)) \<and>
      readable (fst (store a v n m)) = readable m \<and> writable (fst (store a v n m)) = writable m"
    and writable_readable: "writable m a n \<Longrightarrow> readable m a n"
begin

lemma load_after_store:
  assumes "wf m" "valid_size n" "writable m a n"
  shows "snd (load a n (fst (store a v n m))) = Inr (take_bit (8 * n) v)"
proof -
  let ?m = "fst (store a v n m)"
  have n: "n \<le> 8" using assms(2) by (auto simp: valid_size_def)
  have "snd (load a n ?m) = Inr (le_value (byte ?m) a n)"
    using assms store_frame writable_readable by (intro load_ok) auto
  moreover have "le_value (byte ?m) a n = take_bit (8 * n) v"
  proof (rule bit_word_eqI)
    fix k assume "k < LENGTH(64)"
    have "k div 8 < n \<longleftrightarrow> k < 8 * n" by (simp add: div_less_iff_less_mult mult.commute)
    moreover have "byte ?m (a + of_nat (k div 8)) = ucast (drop_bit (8 * (k div 8)) v)" if "k div 8 < n"
      using that n store_ok [OF assms, of v] by (simp add: unat_of_nat)
    ultimately show "bit (le_value (byte ?m) a n) k \<longleftrightarrow> bit (take_bit (8 * n) v) k"
      using \<open>k < LENGTH(64)\<close> by (auto simp: le_value_def bit_from_le_bytes bit_simps)
  qed
  ultimately show ?thesis by simp
qed

lemma load_after_store_other:
  assumes "wf m" "valid_size n" "valid_size n'" "writable m a n" "readable m a' n'"
    and "\<forall>i<n'. n \<le> unat (a' + of_nat i - a)"
  shows "snd (load a' n' (fst (store a v n m))) = Inr (le_value (byte m) a' n')"
proof -
  let ?m = "fst (store a v n m)"
  have "snd (load a' n' ?m) = Inr (le_value (byte ?m) a' n')"
    using assms store_frame by (intro load_ok) auto
  moreover have "map (\<lambda>i. byte ?m (a' + of_nat i)) [0..<n'] = map (\<lambda>i. byte m (a' + of_nat i)) [0..<n']"
    using store_ok [OF assms(1,2,4), of v] assms(6) by auto
  ultimately show ?thesis by (simp only: le_value_def)
qed

end

section \<open>The contract holds for guest memory\<close>

definition mem_byte :: "Memory \<Rightarrow> u64 \<Rightarrow> u8" where
  "mem_byte mem a = backing mem (host_off a mem)"

definition mem_readable :: "Memory \<Rightarrow> u64 \<Rightarrow> nat \<Rightarrow> bool" where
  "mem_readable mem a n =
     (case lookup_region a n mem of Inl _ \<Rightarrow> False | Inr r \<Rightarrow> region_kind r \<noteq> TrapKind)"

definition mem_writable :: "Memory \<Rightarrow> u64 \<Rightarrow> nat \<Rightarrow> bool" where
  "mem_writable mem a n =
     (case lookup_region a n mem of Inl _ \<Rightarrow> False | Inr r \<Rightarrow> region_kind r = Ram)"

lemma plain_read_le_value:
  assumes "regions_wf mem" "n \<le> 8" "region_for a (of_nat n) mem = Some r"
  shows "plain_read (backing mem) (host_off a mem) n = le_value (mem_byte mem) a n"
proof -
  have n: "unat (of_nat n :: u64) = n" using assms(2) by (simp add: unat_of_nat)
  note b = region_for_SomeD [OF assms(1,3), unfolded n]
  have off: "host_off (a + of_nat i) mem = host_off a mem + i" if "i < n" for i
  proof -
    have "unat (a - guest_base mem) + i < 2 ^ 64"
      using b(5,6) that unat_u64_less [of "mem_size mem"] by (simp add: host_off_def)
    from unat_add_of_nat [OF this] show ?thesis by (simp add: host_off_def diff_add_eq)
  qed
  have "bit (plain_read (backing mem) (host_off a mem) n) k \<longleftrightarrow> bit (le_value (mem_byte mem) a n) k" for k
  proof -
    have "k div 8 < n \<longleftrightarrow> k < 8 * n" by (simp add: div_less_iff_less_mult mult.commute)
    then show ?thesis
      using assms(2) by (auto simp: bit_plain_read le_value_def bit_from_le_bytes mem_byte_def off)
  qed
  then show ?thesis by (simp add: bit_eq_iff)
qed

lemma mem_byte_write:
  assumes "regions_wf mem" "n \<le> 8" "region_for a (of_nat n) mem = Some r"
  shows "plain_write (backing mem) (host_off a mem) v n (host_off x mem) =
    (if unat (x - a) < n then ucast (drop_bit (8 * unat (x - a)) v) else mem_byte mem x)"
proof -
  have n: "unat (of_nat n :: u64) = n" using assms(2) by (simp add: unat_of_nat)
  note b = region_for_SomeD [OF assms(1,3), unfolded n]
  have "unat (a - guest_base mem) + n \<le> 2 ^ 64"
    using b(5,6) unat_u64_less [of "mem_size mem"] by (simp add: host_off_def)
  note w = unat_sub_window [OF this, of x]
  show ?thesis
    using w by (auto simp: plain_write_apply [OF assms(2)] mem_byte_def host_off_def)
qed

lemma lookup_region_Inr: "lookup_region a n mem = Inr r \<longleftrightarrow> region_for a (of_nat n) mem = Some r"
  by (simp add: lookup_region_def split: option.splits)

lemma same_map_hint [simp]: "same_map mem (mem\<lparr>last_region := h\<rparr>)"
  by (simp add: same_map_def)

lemma same_map_views:
  assumes "same_map m m'"
  shows "mem_readable m' = mem_readable m" "mem_writable m' = mem_writable m"
  using same_mapD(2) [OF assms] by (auto simp: mem_readable_def mem_writable_def fun_eq_iff)

lemma mem_read_frame:
  assumes "regions_wf mem" "valid_size n"
  shows "same_map mem (fst (mem_read a n mem))" "mem_byte (fst (mem_read a n mem)) = mem_byte mem"
  using mem_read_spec(2) [OF assms, of a] by (auto simp: mem_byte_def host_off_def fun_eq_iff)

lemma mem_write_same_map:
  assumes "regions_wf mem" "valid_size n"
  shows "same_map mem (fst (mem_write a v n mem))"
proof -
  obtain h where w: "mem_write a v n mem = write_effect h a v n mem"
    using mem_write_cases [OF assms] .
  then show ?thesis by (simp add: write_effect_def same_map_def split: sum.splits RegionKind.splits)
qed

lemma mem_write_ram:
  assumes "regions_wf mem" "valid_size n" "mem_writable mem a n"
  shows "snd (mem_write a v n mem) = Inr ()"
    "mem_byte (fst (mem_write a v n mem)) =
       (\<lambda>x. if unat (x - a) < n then ucast (drop_bit (8 * unat (x - a)) v) else mem_byte mem x)"
proof -
  have n: "n \<le> 8" using assms(2) by (auto simp: valid_size_def)
  obtain r where r: "lookup_region a n mem = Inr r" "region_kind r = Ram"
    using assms(3) by (auto simp: mem_writable_def split: sum.splits)
  obtain h where w: "mem_write a v n mem = write_effect h a v n mem"
    using mem_write_cases [OF assms(1,2)] .
  show "snd (mem_write a v n mem) = Inr ()" by (simp add: w write_effect_def r)
  show "mem_byte (fst (mem_write a v n mem)) =
       (\<lambda>x. if unat (x - a) < n then ucast (drop_bit (8 * unat (x - a)) v) else mem_byte mem x)"
  proof
    fix x
    have "mem_byte (fst (mem_write a v n mem)) x = plain_write (backing mem) (host_off a mem) v n (host_off x mem)"
      by (simp add: w write_effect_def r mem_byte_def host_off_def)
    then show "mem_byte (fst (mem_write a v n mem)) x =
       (if unat (x - a) < n then ucast (drop_bit (8 * unat (x - a)) v) else mem_byte mem x)"
      using mem_byte_write [OF assms(1) n] r(1) by (simp add: lookup_region_Inr)
  qed
qed

lemma mem_write_not_ram:
  assumes "regions_wf mem" "valid_size n" "\<not> mem_writable mem a n"
  shows "mem_byte (fst (mem_write a v n mem)) = mem_byte mem"
proof -
  obtain h where w: "mem_write a v n mem = write_effect h a v n mem"
    using mem_write_cases [OF assms(1,2)] .
  then show ?thesis
    using assms(3) by (auto simp: write_effect_def mem_writable_def mem_byte_def host_off_def fun_eq_iff split: sum.splits RegionKind.splits)
qed

interpretation gm: guest_ram mem_read mem_write regions_wf mem_byte mem_readable mem_writable
proof
  fix m :: Memory and n a v t
  assume wf: "regions_wf m" and n: "valid_size n"
  then have n8: "n \<le> 8" by (auto simp: valid_size_def)
  show "snd (mem_read a n m) = Inr (le_value (mem_byte m) a n)" if "mem_readable m a n"
    using that mem_read_spec(1) [OF wf n, of a] plain_read_le_value [OF wf n8, of a]
    by (cases "lookup_region a n m") (auto simp: mem_readable_def lookup_region_Inr)
  show "\<exists>t. snd (mem_read a n m) = Inl t" if "\<not> mem_readable m a n"
    using that mem_read_spec(1) [OF wf n, of a] by (auto simp: mem_readable_def split: sum.splits)
  show "regions_wf (fst (mem_read a n m)) \<and> mem_byte (fst (mem_read a n m)) = mem_byte m \<and>
      mem_readable (fst (mem_read a n m)) = mem_readable m \<and> mem_writable (fst (mem_read a n m)) = mem_writable m"
    using mem_read_frame [OF wf n, of a] wf same_mapD(1) same_map_views by auto
  show "snd (mem_write a v n m) = Inr () \<and> mem_byte (fst (mem_write a v n m)) =
        (\<lambda>x. if unat (x - a) < n then ucast (drop_bit (8 * unat (x - a)) v) else mem_byte m x)"
    if "mem_writable m a n"
    using mem_write_ram [OF wf n that] by simp
  show "mem_byte (fst (mem_write a v n m)) = mem_byte m" if "snd (mem_write a v n m) = Inl t"
    using that mem_write_ram(1) [OF wf n, of a v] mem_write_not_ram [OF wf n, of a v] by (cases "mem_writable m a n") auto
  show "regions_wf (fst (mem_write a v n m)) \<and>
      mem_readable (fst (mem_write a v n m)) = mem_readable m \<and> mem_writable (fst (mem_write a v n m)) = mem_writable m"
    using mem_write_same_map [OF wf n, of a v] wf same_mapD(1) same_map_views by auto
next
  fix m a n assume "mem_writable m a n"
  then show "mem_readable m a n" by (auto simp: mem_writable_def mem_readable_def split: sum.splits)
qed

section \<open>A concrete memory\<close>

text \<open>One page of RAM at 0 and one page of ROM above it, built by the operations of the model.\<close>

definition demo_memory :: Memory where
  "demo_memory =
     projr (the (mem_map 0x1000 0x1000 ProtR Rom
       (projr (the (mem_map 0 0x1000 ProtRW Ram (the (memory_new (Flat 0x2000) 0)))))))"

lemma demo_memory_fields [simp]:
  "regions demo_memory =
     [\<lparr>region_start = 0, region_size = 0x1000, region_prot = ProtRW, region_kind = Ram\<rparr>,
      \<lparr>region_start = 0x1000, region_size = 0x1000, region_prot = ProtR, region_kind = Rom\<rparr>]"
  "model demo_memory = Flat 0x2000" "guest_base demo_memory = 0" "backing_len demo_memory = 0x2000"
  "backing demo_memory = (\<lambda>_. 0)" "last_region demo_memory = 0" "backing_owner demo_memory = Boxed"
  by (simp_all add: demo_memory_def memory_new_def from_backing_def fresh_code_pages_def MAX_TRACKED_SPAN_def
      CODE_PAGE_BITS_def mem_map_def mem_size_def reprotect_def checked_add_def saturating_add_def region_end_def)

lemma demo_memory_wf [simp]: "regions_wf demo_memory"
  by (simp add: regions_wf_def region_ok_def apart_def region_end_def mem_size_def)

lemma demo_memory_lookup [simp]:
  "lookup_region 0x10 4 demo_memory =
     Inr \<lparr>region_start = 0, region_size = 0x1000, region_prot = ProtRW, region_kind = Ram\<rparr>"
  by (simp add: lookup_region_def region_for_def checked_add_def region_contains_def region_end_def)

section \<open>Properties\<close>

text \<open>
  Property C15: the region an access resolves to does not depend on the cached hint.
\<close>
theorem region_at_hint_irrelevant:
  assumes "regions_wf mem" "valid_size sz"
  shows "snd (region_at addr sz (mem\<lparr>last_region := h\<rparr>)) = snd (region_at addr sz mem)"
proof -
  have sz: "0 < sz" "sz < 2 ^ 64" using assms(2) by (auto simp: valid_size_def)
  have "same_map mem (mem\<lparr>last_region := h\<rparr>)" by simp
  from same_mapD(1,2) [OF this] show ?thesis
    using region_at_lookup [OF _ sz] assms(1) by simp
qed

theorem region_at_hint_irrelevant_witness:
  "snd (region_at 0x10 4 (demo_memory\<lparr>last_region := 1\<rparr>)) = snd (region_at 0x10 4 demo_memory)"
  by (rule region_at_hint_irrelevant) (simp_all add: valid_size_def)

text \<open>
  Property C14: an access that resolves to a region touches only bytes inside the backing buffer, so
  the unchecked pointer accesses behind \<^verbatim>\<open>read\<close>, \<^verbatim>\<open>write\<close> and the atomics stay in bounds.
\<close>
theorem region_at_in_bounds:
  assumes "regions_wf mem" "valid_size sz" "snd (region_at addr sz mem) = Inr r"
  shows "r \<in> set (regions mem) \<and> host_off addr mem + sz \<le> backing_len mem \<and>
    unat addr + sz \<le> unat (region_start r) + unat (region_size r)"
proof -
  have sz: "0 < sz" "sz < 2 ^ 64" "unat (of_nat sz :: u64) = sz"
    using assms(2) by (auto simp: valid_size_def unat_of_nat)
  have "region_for addr (of_nat sz) mem = Some r"
    using assms(3) region_at_lookup [OF assms(1) sz(1,2), of addr] by (simp add: lookup_region_Inr)
  from region_for_SomeD [OF assms(1) this] sz(3) show ?thesis by simp
qed

theorem region_at_in_bounds_witness:
  "snd (region_at 0x10 4 demo_memory) = Inr (regions demo_memory ! 0) \<and>
   host_off 0x10 demo_memory + 4 \<le> backing_len demo_memory"
proof -
  have "snd (region_at 0x10 4 demo_memory) = Inr (regions demo_memory ! 0)"
    by (simp add: region_at_def checked_add_def region_contains_def region_end_def)
  with region_at_in_bounds [of demo_memory 4 "0x10" "regions demo_memory ! 0"] show ?thesis
    by (simp add: valid_size_def)
qed

text \<open>
  Property C8: a store to writable memory succeeds; a load of the same width from the same address
  then returns the stored value at that width.
\<close>
theorem mem_read_after_write:
  assumes "regions_wf mem" "valid_size n" "mem_writable mem a n"
  shows "snd (mem_write a v n mem) = Inr () \<and>
    snd (mem_read a n (fst (mem_write a v n mem))) = Inr (take_bit (8 * n) v)"
  using gm.store_ok [OF assms] gm.load_after_store [OF assms] by simp

theorem mem_read_after_write_witness:
  "snd (mem_write 0x10 0x1FFFFFFFF 4 demo_memory) = Inr () \<and>
   snd (mem_read 0x10 4 (fst (mem_write 0x10 0x1FFFFFFFF 4 demo_memory))) = Inr (take_bit (8 * 4) 0x1FFFFFFFF)"
  by (rule mem_read_after_write) (simp_all add: valid_size_def mem_writable_def)

text \<open>
  Property C5: the effect of a store on every branch.  Exactly the addressed bytes of a RAM region
  change; a store to ROM succeeds and changes no byte; a store to a trap region or outside every region
  is refused with the matching trap and changes no byte.
\<close>
theorem mem_write_effect:
  assumes "regions_wf mem" "valid_size n"
  shows "snd (mem_write a v n mem) =
      (case lookup_region a n mem of
         Inl t \<Rightarrow> Inl t | Inr r \<Rightarrow> if region_kind r = TrapKind then Inl Mmio else Inr ()) \<and>
    mem_byte (fst (mem_write a v n mem)) x =
      (if mem_writable mem a n \<and> unat (x - a) < n then ucast (drop_bit (8 * unat (x - a)) v)
       else mem_byte mem x)"
proof
  obtain h where w: "mem_write a v n mem = write_effect h a v n mem"
    using mem_write_cases [OF assms] .
  show "snd (mem_write a v n mem) =
      (case lookup_region a n mem of
         Inl t \<Rightarrow> Inl t | Inr r \<Rightarrow> if region_kind r = TrapKind then Inl Mmio else Inr ())"
    by (simp add: w write_effect_def split: sum.splits RegionKind.splits)
  show "mem_byte (fst (mem_write a v n mem)) x =
      (if mem_writable mem a n \<and> unat (x - a) < n then ucast (drop_bit (8 * unat (x - a)) v)
       else mem_byte mem x)"
    using mem_write_ram(2) [OF assms, of a v] mem_write_not_ram [OF assms, of a v]
    by (cases "mem_writable mem a n") auto
qed

theorem mem_write_effect_witness:
  "mem_byte (fst (mem_write 0x10 0xAABB 4 demo_memory)) 0x11 = 0xAA \<and>
   mem_byte (fst (mem_write 0x10 0xAABB 4 demo_memory)) 0x14 = 0"
  using mem_write_effect [of demo_memory 4 "0x10" "0xAABB" "0x11"] mem_write_effect [of demo_memory 4 "0x10" "0xAABB" "0x14"]
  by (simp add: valid_size_def mem_writable_def mem_byte_def host_off_def)

end
