(* ===== verification/X86_Elide_Correct.thy ===== *)
theory X86_Elide_Correct
  imports X86_Flag_Agree X86_Mem_Access
begin

text \<open>
  Correctness of \<^verbatim>\<open>elide_dead_flags\<close> (\<^verbatim>\<open>lift/mod.rs\<close>).  Interpreting the narrowed block gives the same
  registers, memory, retirement count and exit as interpreting the original one, and the same flags whenever the block
  is walked to its end, provided no operation uses a flag that \<^verbatim>\<open>op_reads\<close> does not report while that flag
  is dead.  The last section shows that the proviso is needed, and what an exit in the middle of a block observes.
\<close>

unbundle bit_operations_syntax

section \<open>Unreported flag uses\<close>

text \<open>Status flags an operation uses although \<open>op_reads\<close> does not report them.\<close>

definition hidden_reads :: "IrOp \<Rightarrow> u8" where
  "hidden_reads op =
     (case op of
        Lahf \<Rightarrow> 0x1F
      | PushfReal \<Rightarrow> 0x3F
      | IntGate _ _ \<Rightarrow> 0x3F
      | IntoGate _ \<Rightarrow> 0x3F
      | BoundGate _ _ _ _ _ \<Rightarrow> 0x3F
      | SegLimitCheck _ _ _ _ \<Rightarrow> 0x3F
      | Syscall is_amd64 \<Rightarrow> if is_amd64 then 0x3F else 0
      | Bcd _ \<Rightarrow> 0x05
      | SetCf v \<Rightarrow> if v = None then 0x01 else 0
      | LoopCx _ _ _ \<Rightarrow> 0x08
      | RepString sop _ rep _ _ \<Rightarrow> if rep_reads_zf sop rep then 0x08 else 0
      | RepStringReal sop _ rep _ _ \<Rightarrow> if rep_reads_zf sop rep then 0x08 else 0
      | _ \<Rightarrow> 0)"

fun reads_covered :: "IrOp list \<Rightarrow> bool" where
  "reads_covered [] = True"
| "reads_covered (op # os) = (reads_covered os \<and> hidden_reads op AND NOT (snd (elide_walk os)) = 0)"

lemma covered_bit:
  assumes "h AND NOT L = 0" "bit h i"
  shows "bit (L :: u8) i"
  using bit_imp_le_length [OF assms(2)] arg_cong [OF assms(1), of "\<lambda>x. bit x i"] assms(2) by (simp add: bit_simps)

lemma res_agree_refl: "res_agree L r r"
  by (cases r) (auto simp: st_agree_def)

lemma full_agree:
  assumes "st_agree L st st'" "0x3F AND NOT L = 0"
  shows "st' = st"
proof -
  obtain g where g: "st' = put_flags g st" "flags_agree L (flags (icpu st)) g" using assms(1) by (rule st_agreeE)
  from flags_agree_subset [OF assms(2) g(2)] have "g = flags (icpu st)" by (simp add: flags_agree_all)
  with g(1) show ?thesis by simp
qed

lemma lahf_agree:
  assumes "st_agree L st st'" "0x1F AND NOT L = 0"
  shows "res_agree L (exec_lahf st) (exec_lahf st')"
proof -
  obtain g where g: "st' = put_flags g st" "flags_agree L (flags (icpu st)) g" using assms(1) by (rule st_agreeE)
  have "flags_agree 0x1F (flags (icpu st)) g" by (rule flags_agree_subset [OF assms(2) g(2)])
  then have e: "flag_cf g = flag_cf (flags (icpu st))" "pf g = pf (flags (icpu st))" "af g = af (flags (icpu st))"
    "flag_zf g = flag_zf (flags (icpu st))" "flag_sf g = flag_sf (flags (icpu st))"
    by (simp_all add: flags_agree_def pf_def af_def)
  have "to_flags16 g AND 0xFF = to_flags16 (flags (icpu st)) AND 0xFF"
  proof (rule bit_word_eqI)
    fix n assume "n < LENGTH(16)"
    then have "n < 16" by simp
    from less_16_cases [OF this]
    show "bit (to_flags16 g AND 0xFF) n \<longleftrightarrow> bit (to_flags16 (flags (icpu st)) AND 0xFF) n"
      by (elim disjE) (simp_all add: bit_to_flags16 bit_and_iff e)
  qed
  with g show ?thesis by (simp add: exec_lahf_def next_op_def Let_def st_agree_def put_flags_def)
qed

lemma bcd_agree:
  assumes "st_agree L st st'" "0x05 AND NOT L = 0"
  shows "res_agree L (exec_bcd cur kind st) (exec_bcd cur kind st')"
proof -
  obtain g where g: "st' = put_flags g st" "flags_agree L (flags (icpu st)) g" using assms(1) by (rule st_agreeE)
  have "flags_agree 0x05 (flags (icpu st)) g" by (rule flags_agree_subset [OF assms(2) g(2)])
  then have e: "flag_cf g = flag_cf (flags (icpu st))" "af g = af (flags (icpu st))" by (simp_all add: flags_agree_def af_def)
  then show ?thesis using g(2)
    by (cases kind) (simp_all add: exec_bcd_def daa_das_def aaa_aas_def szp_flags_def Let_def next_op_def stop_op_def
        st_agree_def put_flags_def g(1) flags_agree_def e set_pf_def set_af_def)
qed

lemma loop_agree:
  assumes "st_agree L st st'" "0x08 AND NOT L = 0"
  shows "res_agree L (let (c, x) = exec_loop_cx k t fl (icpu st) in stop_op x (st\<lparr>icpu := c\<rparr>))
    (let (c, x) = exec_loop_cx k t fl (icpu st') in stop_op x (st'\<lparr>icpu := c\<rparr>))"
proof -
  obtain g where g: "st' = put_flags g st" "flags_agree L (flags (icpu st)) g" using assms(1) by (rule st_agreeE)
  have "flags_agree 0x08 (flags (icpu st)) g" by (rule flags_agree_subset [OF assms(2) g(2)])
  then have "flag_zf g = flag_zf (flags (icpu st))" by (simp add: flags_agree_def)
  then show ?thesis using g(2)
    by (simp add: exec_loop_cx_def Let_def g(1) stop_op_def st_agree_def put_flags_def set_gpr16_def)
qed

section \<open>One operation\<close>

lemma elide_op_masked:
  "elide_op (Add d a b sz m) L = (Add d a b sz (m AND L), kept False m L)"
  "elide_op (Sub d a b sz m) L = (Sub d a b sz (m AND L), kept False m L)"
  "elide_op (And d a b sz m) L = (And d a b sz (m AND L), kept False m L)"
  "elide_op (Or d a b sz m) L = (Or d a b sz (m AND L), kept False m L)"
  "elide_op (Xor d a b sz m) L = (Xor d a b sz (m AND L), kept False m L)"
  "elide_op (Adc d a b sz m) L = (Adc d a b sz (m AND L), kept False m L OR F_CF)"
  "elide_op (Sbb d a b sz m) L = (Sbb d a b sz (m AND L), kept False m L OR F_CF)"
  "elide_op (Shl d a b sz m) L = (Shl d a b sz (m AND L), kept (count_may_skip b sz False) m L)"
  "elide_op (Shr d a b sz m) L = (Shr d a b sz (m AND L), kept (count_may_skip b sz False) m L)"
  "elide_op (Sar d a b sz m) L = (Sar d a b sz (m AND L), kept (count_may_skip b sz False) m L)"
  "elide_op (Rol d a b sz m) L = (Rol d a b sz (m AND L), kept (count_may_skip b sz False) m L)"
  "elide_op (Ror d a b sz m) L = (Ror d a b sz (m AND L), kept (count_may_skip b sz False) m L)"
  "elide_op (Rcl d a b sz m) L = (Rcl d a b sz (m AND L), kept (count_may_skip b sz True) m L OR F_CF)"
  "elide_op (Rcr d a b sz m) L = (Rcr d a b sz (m AND L), kept (count_may_skip b sz True) m L OR F_CF)"
  "elide_op (DoubleShift d a b c sz left m) L =
     (DoubleShift d a b c sz left (m AND L), kept (count_may_skip c sz False) m L)"
  "elide_op (Mul lo hi a b sz sg m) L = (Mul lo hi a b sz sg (m AND L), kept False m L)"
  by (simp_all add: elide_op_def op_set_flags_def with_flags_def op_reads_def shift_flags_may_skip_def kept_def)

lemma elide_op_plain: "op_set_flags op = None \<Longrightarrow> elide_op op L = (op, L OR op_reads op)"
  by (simp add: elide_op_def)

lemma syscall_blind: "flag_blind (exec_syscall be False)"
  by (simp add: flag_blind_def exec_syscall_def blind_rules)

lemma insn_blind: "flag_blind next_op"
  by (simp add: flag_blind_def blind_rules)

lemmas blind_ops = insn_blind blind_int blind_memory blind_control blind_stack blind_pusha far_blind syscall_blind

lemma plain_op_agree:
  assumes "st_agree (L OR op_reads op) st st'" "hidden_reads op AND NOT L = 0" "op_set_flags op = None"
  shows "res_agree L (exec_op cur be op st) (exec_op cur be op st')"
proof -
  have L: "st_agree L st st'" using assms(1) by (rule st_agree_mono) simp
  note b = blind_ops [THEN blind_agree, OF L]
  have full: "st' = st" if "hidden_reads op = 0x3F" using full_agree [OF L] assms(2) that by simp
  have zf: "bit L 3" if "hidden_reads op = 0x08" using covered_bit [OF assms(2), of 3] that by simp
  have cf: "bit L 0" if "hidden_reads op = 0x01" using covered_bit [OF assms(2), of 0] that by simp
  show ?thesis
    using assms full zf cf
    by (cases op)
      (auto simp: hidden_reads_def op_reads_def op_set_flags_def res_agree_refl split: if_splits
         intro: b writer_agree [OF L] exec_bit_scan_agree [OF L] flag_move_agree [OF L] set_cf_agree [OF L]
           get_cond_agree(2,3) string_agree [OF _ L] pop_flags_agree [OF L] lahf_agree [OF L] bcd_agree [OF L]
           loop_agree [OF L, unfolded Let_def])
qed

lemma masked_op_agree:
  assumes "st_agree (snd (elide_op op L)) st st'" "op_set_flags op = Some m"
  shows "res_agree L (exec_op cur be op st) (exec_op cur be (fst (elide_op op L)) st')"
  using assms
  by (cases op)
    (auto simp: op_set_flags_def elide_op_masked simp del: flags_agree_or
       intro: mask_alu_agree carry_alu_agree shift_agree through_carry_agree mul_agree double_shift_agree)

lemma exec_op_agree:
  assumes "st_agree (snd (elide_op op L)) st st'" "hidden_reads op AND NOT L = 0"
  shows "res_agree L (exec_op cur be op st) (exec_op cur be (fst (elide_op op L)) st')"
  using assms plain_op_agree masked_op_agree
  by (cases "op_set_flags op") (auto simp: elide_op_plain)

definition walk_agree :: "u8 \<Rightarrow> walk_state \<times> 'r \<Rightarrow> walk_state \<times> 'r \<Rightarrow> bool" where
  "walk_agree L x y \<longleftrightarrow>
     snd y = snd x \<and> fst y = (fst x)\<lparr>wst := wst (fst y)\<rparr> \<and> st_agree L (wst (fst x)) (wst (fst y))"

lemma elide_op_shape:
  "fst (elide_op op L) = op \<or> (op_set_flags op \<noteq> None \<and> op_set_flags (fst (elide_op op L)) \<noteq> None)"
  by (cases op) (simp_all add: elide_op_masked elide_op_plain op_set_flags_def)

lemma walk_op_masked:
  "op_set_flags op \<noteq> None \<Longrightarrow>
   walk_op be op w = map_option (\<lambda>(st, r). (w\<lparr>wst := st\<rparr>, r)) (exec_op (cur_addr w) be op (wst w))"
  by (cases op) (auto simp: op_set_flags_def walk_op_def map_option_bind o_def split: bind_split)

lemma walk_op_agree:
  assumes "st_agree (snd (elide_op op L)) (wst w) st'" "hidden_reads op AND NOT L = 0"
  shows "rel_option (walk_agree L) (walk_op be op w) (walk_op be (fst (elide_op op L)) (w\<lparr>wst := st'\<rparr>))"
proof -
  note e = exec_op_agree [OF assms, of "cur_addr w" be]
  show ?thesis
  proof (cases "op_set_flags op")
    case None
    then have op: "elide_op op L = (op, L OR op_reads op)" by (rule elide_op_plain)
    with assms(1) have "st_agree L (wst w) st'" by (auto elim: st_agree_mono)
    then show ?thesis
      using e unfolding op
      by (cases op; cases "exec_op (cur_addr w) be op (wst w)"; cases "exec_op (cur_addr w) be op st'")
        (auto simp: walk_op_def walk_agree_def)
  next
    case (Some m)
    then have m: "op_set_flags op \<noteq> None" "op_set_flags (fst (elide_op op L)) \<noteq> None"
      using elide_op_shape [of op L] by auto
    show ?thesis
      using e unfolding walk_op_masked [OF m(1)] walk_op_masked [OF m(2)]
      by (cases "exec_op (cur_addr w) be op (wst w)"; cases "exec_op (cur_addr w) be (fst (elide_op op L)) st'")
        (auto simp: walk_agree_def)
  qed
qed

section \<open>The walk\<close>

text \<open>The operations a walk leaves unexecuted because an operation before them ended the block.\<close>

fun walk_rest :: "u64 \<Rightarrow> IrOp list \<Rightarrow> walk_state \<Rightarrow> IrOp list" where
  "walk_rest be [] w = []"
| "walk_rest be (op # os) w =
     (case walk_op be op w of Some (w', None) \<Rightarrow> walk_rest be os w' | _ \<Rightarrow> os)"

lemma walk_ops_agree:
  assumes "reads_covered os" "st_agree (snd (elide_walk os)) (wst w) st'"
  shows "rel_option (walk_agree (snd (elide_walk (walk_rest be os w))))
    (walk_ops be os w) (walk_ops be (fst (elide_walk os)) (w\<lparr>wst := st'\<rparr>))"
  using assms
proof (induction os arbitrary: w st')
  case Nil
  then have "st_agree 0x3F (wst w) st'" by simp
  then have "st' = wst w" by (rule full_agree) simp
  then show ?case by (simp add: walk_agree_def st_agree_def)
next
  case (Cons op os)
  let ?L = "snd (elide_walk os)"
  have e: "fst (elide_walk (op # os)) = fst (elide_op op ?L) # fst (elide_walk os)"
    "snd (elide_walk (op # os)) = snd (elide_op op ?L)"
    by (simp_all add: case_prod_unfold Let_def)
  have a: "rel_option (walk_agree ?L) (walk_op be op w) (walk_op be (fst (elide_op op ?L)) (w\<lparr>wst := st'\<rparr>))"
    using Cons.prems by (intro walk_op_agree) (simp_all add: e(2) del: elide_walk.simps)
  show ?case
  proof (cases "walk_op be op w")
    case None
    with a show ?thesis unfolding e(1) by simp
  next
    case (Some x)
    obtain w1 r where x: "x = (w1, r)" by fastforce
    with a Some obtain y where y: "walk_op be (fst (elide_op op ?L)) (w\<lparr>wst := st'\<rparr>) = Some y"
      "walk_agree ?L (w1, r) y" by (cases "walk_op be (fst (elide_op op ?L)) (w\<lparr>wst := st'\<rparr>)") auto
    then have y1: "y = (w1\<lparr>wst := wst (fst y)\<rparr>, r)" "st_agree ?L (wst w1) (wst (fst y))"
      unfolding walk_agree_def by (cases y; simp)+
    show ?thesis
    proof (cases r)
      case None
      have "walk_op be (fst (elide_op op ?L)) (w\<lparr>wst := st'\<rparr>) = Some (w1\<lparr>wst := wst (fst y)\<rparr>, None)"
        using y(1) y1(1) None by metis
      with None Some x show ?thesis
        using Cons.IH [OF _ y1(2)] Cons.prems(1) unfolding e(1) by simp
    next
      case (Some r')
      with \<open>walk_op be op w = Some x\<close> x y show ?thesis unfolding e(1) by (cases y) (simp add: walk_agree_def)
    qed
  qed
qed

lemma st_agree_refl [simp]: "st_agree L st st"
  by (simp add: st_agree_def)

lemma walk_agreeE:
  assumes "a = Some x" "x = (w1, r)" "rel_option (walk_agree L) a b"
  obtains f where "b = Some (w1\<lparr>wst := put_flags f (wst w1)\<rparr>, r)" "flags_agree L (flags (icpu (wst w1))) f"
proof -
  obtain w2 where b: "b = Some (w2, r)" and w2: "w2 = w1\<lparr>wst := wst w2\<rparr>" "st_agree L (wst w1) (wst w2)"
    using assms by (cases b) (auto simp: walk_agree_def)
  from w2(2) obtain f where f: "wst w2 = put_flags f (wst w1)" "flags_agree L (flags (icpu (wst w1))) f"
    by (rule st_agreeE)
  with b w2(1) show ?thesis by (intro that [of f]) simp_all
qed

section \<open>Blocks used below\<close>

definition lahf_block :: IrBlock where
  "lahf_block =
     \<lparr>guest_start = 0x1000,
      ops = [InsnStart 0x1000, Add 0 (Imm 1) (Imm 0xFF) 1 FM_ALL, InsnStart 0x1003, Lahf,
             InsnStart 0x1004, Add 1 (Imm 1) (Imm 1) 1 FM_ALL],
      temp_count = 2, guest_len = 7, icount = 3\<rparr>"

definition fault_block :: IrBlock where
  "fault_block =
     \<lparr>guest_start = 0x1000,
      ops = [InsnStart 0x1000, Add 0 (Imm 1) (Imm 0xFF) 1 FM_ALL, InsnStart 0x1003, Load 1 (Imm 0x3000) 1,
             InsnStart 0x1004, Add 1 (Imm 1) (Imm 1) 1 FM_ALL],
      temp_count = 2, guest_len = 7, icount = 3\<rparr>"

lemmas run_block_defs = interpret_block_def block_start_def block_end_def walk_op_def next_op_def stop_op_def
  set_temp_if upd_flags_def Let_def

lemma lahf_elided: "elide_dead_flags False (ops lahf_block) =
   [InsnStart 0x1000, Add 0 (Imm 1) (Imm 0xFF) 1 0, InsnStart 0x1003, Lahf,
             InsnStart 0x1004, Add 1 (Imm 1) (Imm 1) 1 FM_ALL]"
  by (simp add: elide_dead_flags_def lahf_block_def elide_op_masked elide_op_plain op_set_flags_def op_reads_def kept_def FM_ALL_def)

lemma fault_elided: "elide_dead_flags False (ops fault_block) =
   [InsnStart 0x1000, Add 0 (Imm 1) (Imm 0xFF) 1 0, InsnStart 0x1003, Load 1 (Imm 0x3000) 1,
             InsnStart 0x1004, Add 1 (Imm 1) (Imm 1) 1 FM_ALL]"
  by (simp add: elide_dead_flags_def fault_block_def elide_op_masked elide_op_plain op_set_flags_def op_reads_def kept_def FM_ALL_def)

lemma lahf_values:
  "to_flags16 (apply_flags FM_ALL (alu_add 1 255 0 (Suc 0)) flags_default) AND 255 = 0x57"
  "to_flags16 (apply_flags 0 (alu_add 1 255 0 (Suc 0)) flags_default) AND 255 = 2"
  by code_simp+

lemma fault_values:
  "res_cf (alu_add 1 255 0 (Suc 0))" "\<not> flag_cf flags_default"
  by code_simp+

lemma demo_memory_hole: "\<exists>m. mem_read 0x3000 (Suc 0) demo_memory = (m, Inl Unmapped)"
  by (simp add: mem_read_def region_at_def checked_add_def region_contains_def region_end_def Let_def)

definition straight_block :: IrBlock where
  "straight_block =
     \<lparr>guest_start = 0x1000,
      ops = [InsnStart 0x1000, Add 0 (Imm 1) (Imm 0xFF) 1 FM_ALL, InsnStart 0x1003, Sub 1 (Temp 0) (Imm 1) 1 FM_ALL],
      temp_count = 2, guest_len = 6, icount = 2\<rparr>"

section \<open>Properties\<close>

text \<open>
  Property C1: dead-flag elimination preserves the meaning of a block in which every flag use that \<^verbatim>\<open>op_reads\<close> does not report
  (\<^verbatim>\<open>lahf\<close>, \<^verbatim>\<open>pushf\<close>, interrupt gates, segment-limit checks, \<^verbatim>\<open>syscall\<close>, decimal adjustments, \<^verbatim>\<open>cmc\<close>, the loops on CX and repeated
  compares: the function \<open>hidden_reads\<close>) happens while that flag is live.  For such a block, from every register file
  and memory, the narrowed block panics exactly when the original does and otherwise gives the same registers, memory, retirement
  information and exit.  All flags are equal when the walk reached the end of the block or stopped in its last operation; where it
  stopped earlier, at a fault or an exit in the middle of the block, only the flags live there agree.  The two limits are
  real: the lemmas \<open>elide_loses_lahf\<close> and \<open>elide_changes_fault_flags\<close> below exhibit blocks beyond them.
\<close>
theorem elide_dead_flags_correct:
  assumes "reads_covered (ops ir)"
  shows "case interpret_block ir c m of
      None \<Rightarrow> interpret_block (ir\<lparr>ops := elide_dead_flags off (ops ir)\<rparr>) c m = None
    | Some (c', m', info, r) \<Rightarrow>
        \<exists>f. interpret_block (ir\<lparr>ops := elide_dead_flags off (ops ir)\<rparr>) c m = Some (c'\<lparr>flags := f\<rparr>, m', info, r) \<and>
          flags_agree (snd (elide_walk (walk_rest (block_end ir) (ops ir) (block_start ir c m)))) (flags c') f \<and>
          (walk_rest (block_end ir) (ops ir) (block_start ir c m) = [] \<longrightarrow> f = flags c')"
proof -
  let ?w = "block_start ir c m" and ?be = "block_end ir" and ?ir = "ir\<lparr>ops := elide_dead_flags off (ops ir)\<rparr>"
  let ?L = "snd (elide_walk (walk_rest ?be (ops ir) ?w))"
  have same: "block_start ?ir c m = ?w" "block_end ?ir = ?be" by (simp_all add: block_start_def block_end_def)
  have "rel_option (walk_agree ?L) (walk_ops ?be (ops ir) ?w) (walk_ops ?be (elide_dead_flags off (ops ir)) ?w)"
  proof (cases off)
    case True
    then show ?thesis by (cases "walk_ops ?be (ops ir) ?w") (simp_all add: elide_dead_flags_def walk_agree_def)
  next
    case False
    then show ?thesis
      using walk_ops_agree [OF assms, of ?w "wst ?w" ?be] by (simp add: elide_dead_flags_def)
  qed
  note agree = this
  show ?thesis
  proof (cases "walk_ops ?be (ops ir) ?w")
    case None
    with agree show ?thesis by (simp add: interpret_block_def same)
  next
    case (Some x)
    obtain w1 r where x: "x = (w1, r)" by fastforce
    obtain f where
      "walk_ops ?be (elide_dead_flags off (ops ir)) ?w = Some (w1\<lparr>wst := put_flags f (wst w1)\<rparr>, r)"
      and f: "flags_agree ?L (flags (icpu (wst w1))) f"
      by (rule walk_agreeE [OF Some x agree])
    moreover have "f = flags (icpu (wst w1))" if "walk_rest ?be (ops ir) ?w = []"
      using f that by (simp add: flags_agree_all)
    ultimately show ?thesis
      using Some x f by (auto simp: interpret_block_def same Let_def)
  qed
qed

theorem elide_dead_flags_correct_witness:
  "interpret_block (straight_block\<lparr>ops := elide_dead_flags False (ops straight_block)\<rparr>) cpu_default demo_memory
   = interpret_block straight_block cpu_default demo_memory"
proof -
  have "reads_covered (ops straight_block)"
    by (simp add: straight_block_def hidden_reads_def)
  moreover have "walk_rest (block_end straight_block) (ops straight_block)
      (block_start straight_block cpu_default demo_memory) = []"
    by (simp add: straight_block_def run_block_defs exec_add_def exec_sub_def alu_finish_def)
  ultimately show ?thesis
    using elide_dead_flags_correct [where ir = straight_block and c = cpu_default and m = demo_memory and off = False]
    by (auto split: option.splits)
qed

text \<open>
  \<^verbatim>\<open>op_reads\<close> does not report \<open>Lahf\<close>.  In the block \<^verbatim>\<open>add al, -1; lahf; add\<close> the first addition
  loses its flag mask, and \<^verbatim>\<open>lahf\<close> stores 0x02 into AH instead of 0x57.
\<close>
lemma elide_loses_lahf:
  "map_option (\<lambda>r. gpr (fst r) RAX) (interpret_block lahf_block cpu_default mem) = Some 0x5700 \<and>
   map_option (\<lambda>r. gpr (fst r) RAX)
     (interpret_block (lahf_block\<lparr>ops := elide_dead_flags False (ops lahf_block)\<rparr>) cpu_default mem) = Some 0x0200"
  unfolding lahf_elided
  by (simp add: lahf_block_def run_block_defs exec_add_def alu_finish_def exec_lahf_def set_gpr_def cpu_default_def
      lahf_values)

text \<open>
  An exit in the middle of a block observes flags the elimination dropped.  A load from an unmapped page
  between two additions exits with CF set when the block is run as lifted, and with CF clear after the elimination.
\<close>
lemma elide_changes_fault_flags:
  "map_option (\<lambda>r. flag_cf (flags (fst r))) (interpret_block fault_block cpu_default demo_memory) = Some True \<and>
   map_option (\<lambda>r. flag_cf (flags (fst r)))
     (interpret_block (fault_block\<lparr>ops := elide_dead_flags False (ops fault_block)\<rparr>) cpu_default demo_memory) = Some False"
  unfolding fault_elided using demo_memory_hole
  by (auto simp: fault_block_def run_block_defs exec_add_def alu_finish_def exec_load_def cpu_default_def trap_op_def
      trap_out_def fault_values)

end
