(* ===== verification/X86_Mem_Pages.thy ===== *)
theory X86_Mem_Pages
  imports X86_Mem_Access
begin

text \<open>
  The page bookkeeping of guest memory (\<^verbatim>\<open>memory.rs\<close>): the bitmaps read as sets of pages, the invariant of the
  watch table and its drain, the reports of \<^verbatim>\<open>note_write\<close>, the packed code watermark, the coalescing of dirty
  pages into byte ranges, and the store barrier the JIT emits (\<^verbatim>\<open>codegen/mod.rs\<close>, \<^verbatim>\<open>note_store\<close>).
\<close>

unbundle bit_operations_syntax

section \<open>Bitmaps as sets of pages\<close>

definition word_of :: "u64 \<Rightarrow> nat" where "word_of p = unat (drop_bit 6 p)"

definition slot_of :: "u64 \<Rightarrow> nat" where "slot_of p = unat (p AND 63)"

definition page_set :: "u64 list \<Rightarrow> u64 set" where
  "page_set bs = {p. word_of p < length bs \<and> bit (bs ! word_of p) (slot_of p)}"

lemma slot_less [simp]: "slot_of p < 64"
proof -
  have "p AND 63 \<le> 63" by (rule word_and_le1)
  then show ?thesis by (simp add: slot_of_def word_le_nat_alt)
qed

lemma word_bit_eq: "word_bit p = (word_of p, 2 ^ slot_of p)"
  by (simp add: word_bit_def word_of_def slot_of_def)

lemma word_of_div: "word_of p = unat p div 64"
  by (simp add: word_of_def drop_bit_eq_div unat_div)

lemma slot_of_mod: "slot_of p = unat p mod 64"
proof -
  have "p AND 63 = take_bit 6 p" by (simp add: take_bit_eq_mask mask_eq_exp_minus_1)
  then show ?thesis by (simp add: slot_of_def take_bit_eq_mod unat_mod)
qed

lemma page_eqI: "word_of p = word_of q \<Longrightarrow> slot_of p = slot_of q \<Longrightarrow> p = q"
  unfolding word_of_div slot_of_mod by (metis div_mult_mod_eq word_unat_eq_iff)

lemma unat_of_nat_u64: "n < 2 ^ 64 \<Longrightarrow> unat (of_nat n :: u64) = n"
  by (simp add: unat_of_nat)

lemma page_of_parts:
  assumes "w < 2 ^ 58" "i < 64"
  shows "(push_bit 6 (of_nat w) OR of_nat i :: u64) = of_nat (64 * w + i)"
    "word_of (of_nat (64 * w + i)) = w" "slot_of (of_nat (64 * w + i)) = i"
proof -
  have "take_bit 6 (of_nat i :: u64) = of_nat i"
    using assms(2) by (simp add: take_bit_of_nat take_bit_nat_eq_self)
  then have "\<not> bit (push_bit 6 (of_nat w) :: u64) n \<or> \<not> bit (of_nat i :: u64) n" for n
    by (metis bit_push_bit_iff bit_take_bit_iff not_le)
  then have "(push_bit 6 (of_nat w) OR of_nat i :: u64) = push_bit 6 (of_nat w) + of_nat i"
    by (rule disjunctive_add [symmetric])
  then show "(push_bit 6 (of_nat w) OR of_nat i :: u64) = of_nat (64 * w + i)"
    by (simp add: push_bit_eq_mult mult.commute)
  have "64 * w + i < 2 ^ 64" using assms by simp
  then have "unat (of_nat (64 * w + i) :: u64) = 64 * w + i" by (rule unat_of_nat_u64)
  then show "word_of (of_nat (64 * w + i)) = w" "slot_of (of_nat (64 * w + i)) = i"
    using assms(2) unfolding word_of_div slot_of_mod by simp_all
qed

lemma page_set_insert:
  assumes "word_of p < length bs"
  shows "page_set (bs[word_of p := bs ! word_of p OR 2 ^ slot_of p]) = insert p (page_set bs)"
  using assms by (auto simp: page_set_def nth_list_update bit_or_iff dest: page_eqI)

lemma page_set_remove:
  assumes "word_of p < length bs"
  shows "page_set (bs[word_of p := bs ! word_of p AND NOT (2 ^ slot_of p)]) = page_set bs - {p}"
  using assms by (auto simp: page_set_def nth_list_update bit_and_iff bit_not_iff dest: page_eqI)

lemma page_set_zeroed [simp]: "page_set (zeroed_words n) = {}"
  by (auto simp: page_set_def zeroed_words_def)

lemma is_watched_iff: "is_watched p wp \<longleftrightarrow> p \<in> page_set (watch_bits wp)"
  by (simp add: is_watched_def word_bit_eq page_set_def)

lemma is_code_page_iff: "is_code_page p mem \<longleftrightarrow> p \<in> page_set (code_page mem)"
  by (simp add: is_code_page_def word_bit_eq page_set_def)

section \<open>Draining a word\<close>

lemma tz_from_least:
  assumes "bit v j" "i \<le> j" "j < i + k"
  shows "bit v (tz_from v i k)" "i \<le> tz_from v i k" "\<forall>l. i \<le> l \<and> l < tz_from v i k \<longrightarrow> \<not> bit v l"
proof -
  have "bit v (tz_from v i k) \<and> i \<le> tz_from v i k \<and> (\<forall>l. i \<le> l \<and> l < tz_from v i k \<longrightarrow> \<not> bit v l)"
    using assms
  proof (induction k arbitrary: i)
    case (Suc k)
    show ?case
    proof (cases "bit v i")
      case False
      with Suc.prems have "Suc i \<le> j" by (metis Suc_leI le_neq_implies_less)
      with Suc.IH [of "Suc i"] Suc.prems have t: "bit v (tz_from v (Suc i) k)" "Suc i \<le> tz_from v (Suc i) k"
        "\<forall>l. Suc i \<le> l \<and> l < tz_from v (Suc i) k \<longrightarrow> \<not> bit v l" by simp_all
      then have "\<forall>l. i \<le> l \<and> l < tz_from v (Suc i) k \<longrightarrow> \<not> bit v l"
        using False by (metis Suc_leI le_neq_implies_less)
      with t False show ?thesis by simp
    next
      case True
      then show ?thesis by auto
    qed
  qed simp
  then show "bit v (tz_from v i k)" "i \<le> tz_from v i k" "\<forall>l. i \<le> l \<and> l < tz_from v i k \<longrightarrow> \<not> bit v l"
    by blast+
qed

lemma trailing_zeros_least:
  assumes "v \<noteq> (0 :: u64)"
  shows "bit v (trailing_zeros v)" "j < trailing_zeros v \<Longrightarrow> \<not> bit v j" "trailing_zeros v < 64"
proof -
  obtain j where j: "bit v j" using assms by (metis bit_eqI bit_0_eq bot_apply bot_bool_def)
  then have "j < 64" using bit_imp_le_length [of v j] by simp
  with j tz_from_least [of v j 0 64] show "bit v (trailing_zeros v)"
    and "j < trailing_zeros v \<Longrightarrow> \<not> bit v j" for j by (auto simp: trailing_zeros_def)
  then show "trailing_zeros v < 64" using bit_imp_le_length [of v] by fastforce
qed

lemma clear_lowest:
  assumes "v \<noteq> (0 :: u64)"
  shows "bit (v AND (v - 1)) j \<longleftrightarrow> bit v j \<and> j \<noteq> trailing_zeros v"
proof -
  let ?k = "trailing_zeros v"
  note k = trailing_zeros_least [OF assms]
  have "v - 2 ^ ?k = v AND NOT (2 ^ ?k)"
    by (rule disjunctive_diff) (auto simp: bit_exp_iff k)
  moreover have "v - 1 = (v - 2 ^ ?k) + mask ?k"
    unfolding mask_eq_exp_minus_1 by (simp add: algebra_simps del: exp_minus_1_eq_mask)
  moreover have "(v AND NOT (2 ^ ?k)) + mask ?k = (v AND NOT (2 ^ ?k)) OR mask ?k"
    by (rule disjunctive_add) (auto simp: bit_and_iff bit_mask_iff k)
  ultimately have "v - 1 = (v AND NOT (2 ^ ?k)) OR mask ?k" by simp
  then show ?thesis
    using k bit_imp_le_length [of v j] by (auto simp: bit_and_iff bit_or_iff bit_not_iff bit_mask_iff bit_exp_iff)
qed

lemma set_bits_lowest:
  assumes "v \<noteq> (0 :: u64)"
  shows "filter (bit v) [0..<64] = trailing_zeros v # filter (bit (v AND (v - 1))) [0..<64]"
proof -
  let ?k = "trailing_zeros v"
  note k = trailing_zeros_least [OF assms]
  have u: "[0..<64] = [0..<?k] @ ?k # [Suc ?k..<64]"
    using k(3) by (metis le0 less_imp_le_nat upt_add_eq_append upt_conv_Cons le_add_diff_inverse)
  have "filter (bit v) [0..<?k] = []" "filter (bit (v AND (v - 1))) [0..<?k] = []"
    "filter (bit (v AND (v - 1))) [Suc ?k..<64] = filter (bit v) [Suc ?k..<64]"
    using k by (auto simp: filter_empty_conv clear_lowest [OF assms] intro!: filter_cong)
  then show ?thesis using k(1) by (simp add: u clear_lowest [OF assms])
qed

lemma drain_bits_eq:
  "length (filter (bit b) [0..<64]) \<le> n \<Longrightarrow>
   drain_bits n w b = map (\<lambda>i. push_bit 6 w OR of_nat i) (filter (bit b) [0..<64])"
proof (induction n arbitrary: b)
  case 0
  then show ?case by simp
next
  case (Suc n)
  then show ?case by (cases "b = 0") (simp_all add: set_bits_lowest)
qed

lemma drain_bits_64: "drain_bits 64 w b = map (\<lambda>i. push_bit 6 w OR of_nat i) (filter (bit b) [0..<64])"
  by (rule drain_bits_eq) (metis length_filter_le length_upt diff_zero)

section \<open>The data watch\<close>

definition watch_inv :: "WatchPages \<Rightarrow> bool" where
  "watch_inv wp \<longleftrightarrow>
     length (dirty_bits wp) = length (watch_bits wp) \<and> length (watch_bits wp) \<le> 2 ^ 58 \<and>
     watch_words wp = {w. w < length (watch_bits wp) \<and> watch_bits wp ! w \<noteq> 0} \<and>
     watch_count wp = card (page_set (watch_bits wp)) \<and>
     page_set (dirty_bits wp) \<subseteq> page_set (watch_bits wp)"

lemma div_ceil_le: "unat (div_ceil a b) \<le> Suc (unat a div unat b)"
proof -
  have "unat (a div b + 1) \<le> Suc (unat (a div b))" by (simp add: unat_word_ariths)
  then show ?thesis by (simp add: div_ceil_def unat_div)
qed

lemma watch_inv_new: "watch_inv (watch_pages_new span)"
proof -
  have "unat (div_ceil (div_ceil span CODE_PAGE_SIZE) 64) \<le> Suc (unat (div_ceil span CODE_PAGE_SIZE) div 64)"
    using div_ceil_le [of "div_ceil span CODE_PAGE_SIZE" 64] by simp
  also have "\<dots> \<le> Suc ((2 ^ 64 - 1) div 64)"
    using unat_u64_less [of "div_ceil span CODE_PAGE_SIZE"] by (intro Suc_le_mono [THEN iffD2] div_le_mono) simp
  finally have "unat (div_ceil (div_ceil span CODE_PAGE_SIZE) 64) \<le> 2 ^ 58" by simp
  then show ?thesis
    by (simp add: watch_inv_def watch_pages_new_def Let_def zeroed_words_def page_set_def)
qed

lemma watch_page_set:
  "page_set (watch_bits (watch_page p wp)) =
     (if word_of p < length (watch_bits wp) then insert p (page_set (watch_bits wp)) else page_set (watch_bits wp))"
  "dirty_bits (watch_page p wp) = dirty_bits wp" "length (watch_bits (watch_page p wp)) = length (watch_bits wp)"
  by (auto simp: watch_page_def word_bit_eq Let_def page_set_insert)

lemma watch_inv_watch:
  assumes "watch_inv wp"
  shows "watch_inv (watch_page p wp)"
proof (cases "word_of p < length (watch_bits wp)")
  case True
  let ?b = "watch_bits wp ! word_of p OR 2 ^ slot_of p"
  have "bit ?b (slot_of p)" by (simp add: bit_or_iff)
  then have b: "?b \<noteq> 0" by auto
  have "bit (watch_bits wp ! word_of p) (slot_of p) \<longleftrightarrow> p \<in> page_set (watch_bits wp)"
    using True by (simp add: page_set_def)
  with assms True b page_set_insert [OF True] show ?thesis
    by (auto simp: watch_inv_def watch_page_def word_bit_eq Let_def insert_absorb nth_list_update)
next
  case False
  with assms show ?thesis by (simp add: watch_page_def word_bit_eq)
qed

lemma unwatch_page_inv:
  assumes "watch_inv wp"
  obtains wp' where "unwatch_page p wp = Some wp'" "watch_inv wp'"
    "page_set (watch_bits wp') = page_set (watch_bits wp) - {p}"
    "page_set (dirty_bits wp') = page_set (dirty_bits wp) - {p}"
proof (cases "p \<in> page_set (watch_bits wp)")
  case True
  then have l: "word_of p < length (watch_bits wp)" "word_of p < length (dirty_bits wp)" 
    "bit (watch_bits wp ! word_of p) (slot_of p)"
    using assms by (auto simp: page_set_def watch_inv_def)
  note r = page_set_remove [OF l(1)] page_set_remove [OF l(2)]
  let ?new = "watch_bits wp ! word_of p AND NOT (2 ^ slot_of p)"
  define wp' where "wp' = wp\<lparr>watch_bits := (watch_bits wp)[word_of p := ?new], watch_count := watch_count wp - 1,
    dirty_bits := (dirty_bits wp)[word_of p := dirty_bits wp ! word_of p AND NOT (2 ^ slot_of p)],
    watch_words := (if ?new = 0 then watch_words wp - {word_of p} else watch_words wp)\<rparr>"
  have u: "unwatch_page p wp = Some wp'"
    using l by (simp add: unwatch_page_def word_bit_eq Let_def wp'_def)
  have b: "page_set (watch_bits wp') = page_set (watch_bits wp) - {p}"
    "page_set (dirty_bits wp') = page_set (dirty_bits wp) - {p}" by (simp_all add: wp'_def r)
  have "watch_words wp' = {w. w < length (watch_bits wp') \<and> watch_bits wp' ! w \<noteq> 0}"
    using assms l by (auto simp: watch_inv_def wp'_def nth_list_update)
  moreover have "watch_count wp' = card (page_set (watch_bits wp'))"
    using assms True by (simp only: b) (simp add: watch_inv_def wp'_def)
  moreover have "length (dirty_bits wp') = length (watch_bits wp')" "length (watch_bits wp') \<le> 2 ^ 58"
    using assms by (simp_all add: watch_inv_def wp'_def)
  moreover have "page_set (dirty_bits wp') \<subseteq> page_set (watch_bits wp')"
    using assms by (auto simp: b watch_inv_def)
  ultimately have "watch_inv wp'" unfolding watch_inv_def by blast
  with u show ?thesis using b by (rule that)
next
  case False
  then have d: "p \<notin> page_set (dirty_bits wp)" using assms by (auto simp: watch_inv_def)
  show ?thesis
  proof (cases "word_of p < length (watch_bits wp)")
    case True
    with False have n: "\<not> bit (watch_bits wp ! word_of p) (slot_of p)" by (simp add: page_set_def)
    then have "watch_bits wp ! word_of p AND NOT (2 ^ slot_of p) = watch_bits wp ! word_of p"
      by (intro bit_word_eqI) (auto simp: bit_and_iff bit_not_iff)
    with assms True n False d show ?thesis
      by (intro that [of wp]) (simp_all add: unwatch_page_def word_bit_eq Let_def)
  next
    case F: False
    with assms False d show ?thesis by (intro that [of wp]) (simp_all add: unwatch_page_def word_bit_eq)
  qed
qed

lemma mark_dirty_inv:
  assumes "watch_inv wp" "p \<in> page_set (watch_bits wp)"
  shows "watch_inv (mark_dirty p wp)" "page_set (dirty_bits (mark_dirty p wp)) = insert p (page_set (dirty_bits wp))"
    "watch_bits (mark_dirty p wp) = watch_bits wp"
proof -
  have l: "word_of p < length (dirty_bits wp)" using assms by (auto simp: page_set_def watch_inv_def)
  then have "bit (dirty_bits wp ! word_of p) (slot_of p) \<longleftrightarrow> p \<in> page_set (dirty_bits wp)" by (simp add: page_set_def)
  with assms l page_set_insert [OF l]
  show "watch_inv (mark_dirty p wp)" "page_set (dirty_bits (mark_dirty p wp)) = insert p (page_set (dirty_bits wp))"
    "watch_bits (mark_dirty p wp) = watch_bits wp"
    by (auto simp: mark_dirty_def word_bit_eq watch_inv_def)
qed

lemma drain_words_eq:
  assumes "distinct ws" "\<forall>w\<in>set ws. w < length d"
  shows "drain_words ws d =
    Some (concat (map (\<lambda>w. drain_bits 64 (of_nat w) (d ! w)) ws),
          map (\<lambda>i. if i \<in> set ws then 0 else d ! i) [0..<length d])"
  using assms
proof (induction ws arbitrary: d)
  case Nil
  then show ?case by (simp add: map_nth)
next
  case (Cons w ws)
  then have IH: "drain_words ws (d[w := 0]) =
    Some (concat (map (\<lambda>v. drain_bits 64 (of_nat v) (d[w := 0] ! v)) ws),
          map (\<lambda>i. if i \<in> set ws then 0 else d[w := 0] ! i) [0..<length d])" by simp
  have "map (\<lambda>v. drain_bits 64 (of_nat v) (d[w := 0] ! v)) ws = map (\<lambda>v. drain_bits 64 (of_nat v) (d ! v)) ws"
    by (intro map_cong refl) (metis Cons.prems(1) distinct.simps(2) nth_list_update_neq)
  moreover have "map (\<lambda>i. if i \<in> set ws then 0 else d[w := 0] ! i) [0..<length d]
      = map (\<lambda>i. if i \<in> set (w # ws) then 0 else d ! i) [0..<length d]"
    using Cons.prems by (intro map_cong) (auto simp: nth_list_update)
  ultimately show ?case using IH Cons.prems(2) by (simp del: map_eq_conv)
qed

definition word_pages :: "u64 list \<Rightarrow> nat \<Rightarrow> nat list" where
  "word_pages d w = map (\<lambda>i. 64 * w + i) (filter (bit (d ! w)) [0..<64])"

lemma drain_word_pages:
  assumes "w < 2 ^ 58"
  shows "drain_bits 64 (of_nat w) (d ! w) = map of_nat (word_pages d w)"
  using assms by (auto simp: drain_bits_64 word_pages_def page_of_parts(1))

lemma strict_sorted_word_pages:
  assumes "sorted_wrt (<) ws"
  shows "sorted_wrt (<) (concat (map (word_pages d) ws))"
  using assms
proof (induction ws)
  case (Cons w ws)
  have "sorted_wrt (<) (word_pages d w)"
    unfolding word_pages_def sorted_wrt_map by (rule sorted_wrt_filter) simp
  moreover have "\<forall>x\<in>set (word_pages d w). \<forall>y\<in>set (concat (map (word_pages d) ws)). x < y"
    using Cons.prems by (fastforce simp: word_pages_def)
  ultimately show ?case using Cons by (simp add: sorted_wrt_append)
qed simp

lemma word_pages_less: "x \<in> set (word_pages d w) \<Longrightarrow> w < 2 ^ 58 \<Longrightarrow> x < 2 ^ 64"
  by (auto simp: word_pages_def)

lemma set_word_pages:
  assumes "\<forall>w\<in>W. w < 2 ^ 58 \<and> w < length d"
  shows "of_nat ` (\<Union>w\<in>W. set (word_pages d w)) = {p \<in> page_set d. word_of p \<in> W}"
proof (intro equalityI subsetI)
  fix p :: u64 assume "p \<in> of_nat ` (\<Union>w\<in>W. set (word_pages d w))"
  then obtain w i where wi: "w \<in> W" "i < 64" "bit (d ! w) i" "p = of_nat (64 * w + i)"
    by (auto simp: word_pages_def)
  then have "word_of p = w" "slot_of p = i" using assms page_of_parts(2,3) [of w i] by auto
  with wi assms show "p \<in> {p \<in> page_set d. word_of p \<in> W}" by (simp add: page_set_def)
next
  fix p assume p: "p \<in> {p \<in> page_set d. word_of p \<in> W}"
  have "64 * word_of p + slot_of p = unat p" by (simp add: word_of_div slot_of_mod)
  then have "p = of_nat (64 * word_of p + slot_of p)" by simp
  moreover have "64 * word_of p + slot_of p \<in> set (word_pages d (word_of p))"
    using p by (auto simp: word_pages_def page_set_def)
  ultimately show "p \<in> of_nat ` (\<Union>w\<in>W. set (word_pages d w))" using p by blast
qed

lemma take_dirty_inv:
  assumes "watch_inv wp"
  obtains pages wp' where "take_dirty wp = Some (pages, wp')" "set pages = page_set (dirty_bits wp)"
    "sorted_wrt (<) pages" "watch_inv wp'" "page_set (dirty_bits wp') = {}" "watch_bits wp' = watch_bits wp"
proof (cases "watch_count wp = 0")
  case True
  then have "page_set (watch_bits wp) = {}" using assms by (simp add: watch_inv_def)
  then have "page_set (dirty_bits wp) = {}" using assms by (simp add: watch_inv_def)
  with True assms show ?thesis by (intro that [of "[]" wp]) (simp_all add: take_dirty_def)
next
  case False
  let ?W = "watch_words wp" and ?d = "dirty_bits wp"
  let ?ws = "sorted_list_of_set ?W"
  have W: "?W = {w. w < length (watch_bits wp) \<and> watch_bits wp ! w \<noteq> 0}" using assms by (simp add: watch_inv_def)
  then have fin: "finite ?W" by simp
  have lt: "\<forall>w\<in>?W. w < 2 ^ 58 \<and> w < length ?d" using assms W by (auto simp: watch_inv_def)
  let ?ps = "concat (map (word_pages ?d) ?ws)"
  define wp' where "wp' = wp\<lparr>dirty_bits := map (\<lambda>i. if i \<in> ?W then 0 else ?d ! i) [0..<length ?d]\<rparr>"
  have "map (\<lambda>w. drain_bits 64 (of_nat w) (?d ! w)) ?ws = map (\<lambda>w. map of_nat (word_pages ?d w)) ?ws"
    using lt fin by (intro map_cong) (auto simp: drain_word_pages)
  then have t: "take_dirty wp = Some (map of_nat ?ps, wp')"
    using False lt fin drain_words_eq [of ?ws ?d] by (simp add: take_dirty_def wp'_def map_concat o_def del: map_eq_conv)
  have in_W: "word_of p \<in> ?W" if "p \<in> page_set ?d" for p
  proof -
    have "p \<in> page_set (watch_bits wp)" using that assms by (auto simp: watch_inv_def)
    then show ?thesis unfolding W page_set_def by auto
  qed
  have s: "set (map of_nat ?ps :: u64 list) = page_set ?d"
    using set_word_pages [OF lt] in_W fin by (auto simp: image_Union)
  have "sorted_wrt (<) (map of_nat ?ps :: u64 list)"
  proof -
    have "\<forall>x\<in>set ?ps. x < 2 ^ 64" using lt fin word_pages_less by (auto simp del: One_nat_def)
    then have "(of_nat x :: u64) < of_nat y" if "x \<in> set ?ps" "y \<in> set ?ps" "x < y" for x y
      using that unfolding word_less_nat_alt by (simp only: unat_of_nat_u64)
    then show ?thesis
      unfolding sorted_wrt_map by (rule sorted_wrt_mono_rel) (auto intro: strict_sorted_word_pages)
  qed
  moreover have "page_set (dirty_bits wp') = {}" using in_W by (auto simp: page_set_def wp'_def split: if_splits)
  moreover from this have "watch_inv wp'" using assms by (simp add: watch_inv_def wp'_def)
  ultimately show ?thesis using t s by (intro that [of "map of_nat ?ps" wp']) (simp_all add: wp'_def)
qed

section \<open>Pages touched by a write\<close>

abbreviation page_of :: "u64 \<Rightarrow> u64" where "page_of a \<equiv> drop_bit CODE_PAGE_BITS a"

lemma unat_page_of: "unat (page_of a) = unat a div 4096"
  by (simp add: CODE_PAGE_BITS_def drop_bit_eq_div unat_div)

lemma set_pages_between: "set (pages_between a b) = {a..b}"
proof (intro equalityI subsetI)
  fix p assume "p \<in> set (pages_between a b)"
  then obtain n where n: "unat a \<le> n" "n \<le> unat b" "p = of_nat n" by (auto simp: pages_between_def)
  then have "unat p = n" using unat_u64_less [of b] by (simp add: unat_of_nat)
  with n show "p \<in> {a..b}" by (simp add: word_le_nat_alt)
next
  fix p assume "p \<in> {a..b}"
  then have "unat p \<in> set [unat a..<Suc (unat b)]" by (auto simp: word_le_nat_alt)
  then show "p \<in> set (pages_between a b)" unfolding pages_between_def set_map by (rule rev_image_eqI) simp
qed

lemma unat_last_byte:
  fixes a n :: u64
  assumes "0 < unat n" "unat a + unat n \<le> 2 ^ 64"
  shows "unat (saturating_add a (max n 1 - 1)) = unat a + (unat n - 1)"
proof -
  have "max n 1 = n" using assms(1) by (auto simp: max_def word_le_nat_alt word_unat_eq_iff)
  then have "unat (max n 1 - 1) = unat n - 1" using assms(1) by (simp add: unat_sub word_le_nat_alt)
  then show ?thesis using assms by (auto simp: saturating_add_def word_le_nat_alt unat_word_ariths)
qed

lemma byte_page_in_range:
  assumes "unat (x - a) < unat n" "unat a + unat n \<le> 2 ^ 64"
  shows "page_of x \<in> set (code_page_range a n)"
proof -
  have x: "unat x = unat a + unat (x - a)"
    using unat_add_of_nat [of a "unat (x - a)"] assms by simp
  then show ?thesis
    using unat_last_byte [of n a] assms
    by (simp add: code_page_range_def Let_def set_pages_between word_le_nat_alt unat_page_of div_le_mono)
qed

section \<open>Code pages\<close>

lemma note_page_simps:
  "dirty_code (note_page w p mem) = dirty_code mem @ (if p \<in> page_set (code_page mem) then [p] else [])"
  "dirty_flag (note_page w p mem) \<longleftrightarrow> dirty_flag mem \<or> p \<in> page_set (code_page mem)"
  "watch (note_page w p mem) = (if w \<and> p \<in> page_set (watch_bits (watch mem)) then mark_dirty p (watch mem) else watch mem)"
  by (simp_all add: note_page_def Let_def is_code_page_iff is_watched_iff)

lemma fold_note_page:
  "dirty_code (fold (note_page w) ps mem) = dirty_code mem @ filter (\<lambda>p. p \<in> page_set (code_page mem)) ps"
  "dirty_flag (fold (note_page w) ps mem) \<longleftrightarrow> dirty_flag mem \<or> (\<exists>p\<in>set ps. p \<in> page_set (code_page mem))"
  by (induction ps arbitrary: mem) (auto simp: note_page_simps)

lemma note_write_dirty:
  "dirty_code (note_write a n mem) = dirty_code mem @ filter (\<lambda>p. p \<in> page_set (code_page mem)) (code_page_range a n)"
  "dirty_flag (note_write a n mem) \<longleftrightarrow>
     dirty_flag mem \<or> (\<exists>p\<in>set (code_page_range a n). p \<in> page_set (code_page mem))"
  by (simp_all add: note_write_def fold_note_page)

lemma widen_code_page [simp]: "code_page (widen_code_range p mem) = code_page mem"
  by (simp add: widen_code_range_def Let_def split: prod.split)

lemma mark_code_page_set:
  "page_set (code_page (mark_code_page p mem)) =
     (if word_of p < length (code_page mem) then insert p (page_set (code_page mem)) else page_set (code_page mem))"
  "length (code_page (mark_code_page p mem)) = length (code_page mem)"
  by (simp_all add: mark_code_page_def word_bit_eq page_set_insert)

lemma mark_code_set:
  "page_set (code_page (mark_code a n mem)) =
     page_set (code_page mem) \<union> {p \<in> set (code_page_range a (ucast n)). word_of p < length (code_page mem)}"
proof -
  have "page_set (code_page (fold mark_code_page ps mem)) =
     page_set (code_page mem) \<union> {p \<in> set ps. word_of p < length (code_page mem)}" for ps
    by (induction ps arbitrary: mem) (auto simp: mark_code_page_set)
  then show ?thesis by (simp add: mark_code_def)
qed

lemma clear_code_page_set: "page_set (code_page (clear_code_page p mem)) = page_set (code_page mem) - {p}"
  by (auto simp: clear_code_page_def word_bit_eq page_set_remove) (simp add: page_set_def)

lemma note_watch:
  assumes "watch_inv (watch mem)" "w \<or> page_set (watch_bits (watch mem)) = {}"
  shows "watch_inv (watch (fold (note_page w) ps mem))"
    "watch_bits (watch (fold (note_page w) ps mem)) = watch_bits (watch mem)"
    "page_set (dirty_bits (watch (fold (note_page w) ps mem))) =
       page_set (dirty_bits (watch mem)) \<union> (set ps \<inter> page_set (watch_bits (watch mem)))"
proof -
  have "watch_inv (watch (fold (note_page w) ps mem)) \<and>
    watch_bits (watch (fold (note_page w) ps mem)) = watch_bits (watch mem) \<and>
    page_set (dirty_bits (watch (fold (note_page w) ps mem))) =
       page_set (dirty_bits (watch mem)) \<union> (set ps \<inter> page_set (watch_bits (watch mem)))"
    using assms
  proof (induction ps arbitrary: mem)
    case (Cons p ps)
    let ?m = "note_page w p mem"
    have "watch_inv (watch ?m)" "watch_bits (watch ?m) = watch_bits (watch mem)"
      using Cons.prems(1) mark_dirty_inv [of "watch mem" p] by (auto simp: note_page_simps)
    moreover have "page_set (dirty_bits (watch ?m)) = page_set (dirty_bits (watch mem)) \<union> ({p} \<inter> page_set (watch_bits (watch mem)))"
      using Cons.prems mark_dirty_inv(2) [of "watch mem" p] by (auto simp: note_page_simps)
    ultimately show ?case using Cons.IH [of ?m] Cons.prems(2) by auto
  qed simp
  then show "watch_inv (watch (fold (note_page w) ps mem))"
    "watch_bits (watch (fold (note_page w) ps mem)) = watch_bits (watch mem)"
    "page_set (dirty_bits (watch (fold (note_page w) ps mem))) =
       page_set (dirty_bits (watch mem)) \<union> (set ps \<inter> page_set (watch_bits (watch mem)))" by blast+
qed

lemma note_write_watch:
  assumes "watch_inv (watch mem)"
  shows "watch_inv (watch (note_write a n mem))" "watch_bits (watch (note_write a n mem)) = watch_bits (watch mem)"
    "page_set (dirty_bits (watch (note_write a n mem))) =
       page_set (dirty_bits (watch mem)) \<union> (set (code_page_range a n) \<inter> page_set (watch_bits (watch mem)))"
proof -
  have "watch_count (watch mem) \<noteq> 0 \<or> page_set (watch_bits (watch mem)) = {}"
    using assms by (auto simp: watch_inv_def)
  from note_watch [OF assms this] show "watch_inv (watch (note_write a n mem))"
    "watch_bits (watch (note_write a n mem)) = watch_bits (watch mem)"
    "page_set (dirty_bits (watch (note_write a n mem))) =
       page_set (dirty_bits (watch mem)) \<union> (set (code_page_range a n) \<inter> page_set (watch_bits (watch mem)))"
    by (simp_all add: note_write_def)
qed

text \<open>
  The store barrier the JIT emits after an inlined guest store: the code watermark first, then the watch
  count and the probe of the page of the first byte.  The helper behind the barrier is \<open>note_write\<close>.  The
  probe has no bounds check; \<open>None\<close> is a probe outside the table.
\<close>

definition PAGE_BYTES :: u64 where "PAGE_BYTES = push_bit CODE_PAGE_BITS 1"
definition PAGE_MASK :: u64 where "PAGE_MASK = PAGE_BYTES - 1"

definition note_store :: "u64 \<Rightarrow> nat \<Rightarrow> Memory \<Rightarrow> Memory option" where
  "note_store guest_addr sz mem =
     (let cr = code_range mem;
          store_page = drop_bit CODE_PAGE_BITS guest_addr;
          code_lo = drop_bit 32 cr;
          code_len = (ucast (ucast cr :: u32) :: u64);
          rel = store_page - code_lo;
          doit = note_write guest_addr (of_nat sz) mem
      in if rel < code_len then Some doit
         else if watch_count (watch mem) = 0 then Some mem
         else
           let page = drop_bit CODE_PAGE_BITS guest_addr;
               word_idx = unat (drop_bit 6 page)
           in if length (watch_bits (watch mem)) \<le> word_idx then None
              else
                let word = watch_bits (watch mem) ! word_idx;
                    hit = drop_bit (unat (page AND 63)) word AND 1;
                    off_in_page = guest_addr AND PAGE_MASK;
                    crosses = of_bool (off_in_page + of_nat sz > PAGE_BYTES)
                in if hit OR crosses \<noteq> 0 then Some doit else Some mem)"

section \<open>The code watermark\<close>

definition in_gate :: "u64 \<Rightarrow> u64 \<Rightarrow> bool" where
  "in_gate cr p \<longleftrightarrow> p - drop_bit 32 cr < cr AND 0xFFFFFFFF"

text \<open>
  The page tables for which the packed watermark never overflows: all but those of the largest spans \<^verbatim>\<open>MAX_TRACKED_SPAN\<close>
  admits, whose last word is the word \<open>TRACKED_WORDS\<close>.
\<close>

definition TRACKED_WORDS :: nat where "TRACKED_WORDS = 2 ^ 26 - 1"

lemma TRACKED_WORDS_eq [simp]: "TRACKED_WORDS = 67108863"
  by (simp add: TRACKED_WORDS_def)

definition gate_ok :: "u64 \<Rightarrow> bool" where
  "gate_ok cr \<longleftrightarrow> cr AND 0xFFFFFFFF = 0 \<or>
     (2 \<le> unat (cr AND 0xFFFFFFFF) \<and>
      (unat (drop_bit 32 cr) + unat (cr AND 0xFFFFFFFF) \<le> 64 * TRACKED_WORDS \<or>
       drop_bit 32 cr = 0 \<and> unat (cr AND 0xFFFFFFFF) \<le> 64 * TRACKED_WORDS + 1))"

lemma mask_32: "(0xFFFFFFFF :: u64) = mask 32"
  by (simp add: mask_eq_exp_minus_1 del: exp_minus_1_eq_mask)

lemma ucast_low32: "(ucast (ucast (cr :: u64) :: u32) :: u64) = cr AND 0xFFFFFFFF"
  unfolding mask_32 by (auto intro!: bit_word_eqI simp: bit_simps)

lemma in_gate_span:
  assumes "gate_ok cr"
  shows "in_gate cr p \<longleftrightarrow> unat (drop_bit 32 cr) \<le> unat p \<and> unat p < unat (drop_bit 32 cr) + unat (cr AND 0xFFFFFFFF)"
proof (cases "drop_bit 32 cr \<le> p")
  case True
  then have "unat (p - drop_bit 32 cr) = unat p - unat (drop_bit 32 cr)" by (simp add: unat_sub)
  with True show ?thesis by (auto simp: in_gate_def word_less_nat_alt word_le_nat_alt)
next
  case False
  then have "unat (p - drop_bit 32 cr) = 2 ^ 64 + unat p - unat (drop_bit 32 cr)"
    by (simp add: unat_sub_if' word_le_nat_alt)
  with False assms show ?thesis by (auto simp: in_gate_def gate_ok_def word_less_nat_alt word_le_nat_alt)
qed

lemma pack_range:
  assumes "unat a < 2 ^ 32" "unat b < 2 ^ 32"
  shows "drop_bit 32 (push_bit 32 a OR b) = (a :: u64)" "(push_bit 32 a OR b) AND 0xFFFFFFFF = b"
proof -
  have ab: "take_bit 32 a = a" "take_bit 32 b = b"
    using assms by (simp_all add: word_unat_eq_iff unsigned_take_bit_eq take_bit_nat_eq_self)
  have a: "\<not> bit a n" if "32 \<le> n" for n using ab(1) that by (metis bit_take_bit_iff linorder_not_le)
  have b: "\<not> bit b n" if "32 \<le> n" for n using ab(2) that by (metis bit_take_bit_iff linorder_not_le)
  show "drop_bit 32 (push_bit 32 a OR b) = a" using a b by (intro bit_word_eqI) (force simp: bit_simps not_le [symmetric])
  show "(push_bit 32 a OR b) AND 0xFFFFFFFF = b" unfolding mask_32 using b by (intro bit_word_eqI) (force simp: bit_simps not_le [symmetric])
qed

text \<open>A page outside the range: the stored range becomes the smallest skewed range with both.\<close>

lemma widen_outside:
  assumes "gate_ok cr" "unat p < 64 * TRACKED_WORDS" "lo = drop_bit 32 cr" "len = cr AND 0xFFFFFFFF" "\<not> (len \<noteq> 0 \<and> p - lo < len)"
    and nlo: "nlo = min (if len = 0 then p else lo + 1) p" and nhi: "nhi = max (if len = 0 then p else lo + len - 1) p"
  defines "pk \<equiv> push_bit 32 (saturating_sub nlo 1) OR (nhi - nlo + 2)"
  shows "gate_ok pk \<and> in_gate pk p \<and> (in_gate cr q \<longrightarrow> in_gate pk q)"
proof -
  have "\<not> in_gate cr p" using assms(3-5) by (auto simp: in_gate_def)
  then have out: "\<not> (unat lo \<le> unat p \<and> unat p < unat lo + unat len)"
    using in_gate_span [OF assms(1)] assms(3,4) by simp
  have ok: "len = 0 \<or> 2 \<le> unat len \<and> unat lo + unat len \<le> 64 * TRACKED_WORDS"
    using assms(1,2) out by (auto simp: gate_ok_def assms(3,4))
  have lo': "unat nlo = (if len = 0 then unat p else min (unat lo + 1) (unat p))"
    using ok by (auto simp: nlo min_def word_le_nat_alt unat_word_ariths)
  have hi': "unat nhi = (if len = 0 then unat p else max (unat lo + unat len - 1) (unat p))"
    using ok by (auto simp: nhi max_def word_le_nat_alt unat_word_ariths unat_sub_if')
  have sub: "unat (saturating_sub nlo 1) = unat nlo - 1"
    by (auto simp: saturating_sub_def word_le_nat_alt unat_sub)
  have le: "unat nlo \<le> unat nhi" "unat nhi < 64 * TRACKED_WORDS" using lo' hi' ok assms(2) by auto
  then have dif: "unat (nhi - nlo + 2) = unat nhi - unat nlo + 2"
    by (simp add: unat_word_ariths unat_sub word_le_nat_alt)
  have pk: "drop_bit 32 pk = saturating_sub nlo 1" "pk AND 0xFFFFFFFF = nhi - nlo + 2"
    using pack_range [of "saturating_sub nlo 1" "nhi - nlo + 2"] le sub dif by (simp_all add: pk_def)
  have pk_ok: "gate_ok pk"
    using le sub dif by (cases "unat nlo") (auto simp: gate_ok_def pk word_unat_eq_iff)
  have new: "in_gate pk x" if "unat nlo - 1 \<le> unat x" "unat x \<le> unat nhi" for x
    using in_gate_span [OF pk_ok, of x] that sub dif le by (auto simp: pk)
  have "in_gate pk q" if "in_gate cr q"
    using that in_gate_span [OF assms(1), of q] new [of q] lo' hi' by (auto simp: assms(3,4) split: if_splits)
  moreover have "in_gate pk p" using lo' hi' by (intro new) auto
  ultimately show ?thesis using pk_ok by simp
qed

lemma widen_code_gate:
  assumes "gate_ok (code_range mem)" "unat p < 64 * TRACKED_WORDS"
  shows "gate_ok (code_range (widen_code_range p mem)) \<and> in_gate (code_range (widen_code_range p mem)) p \<and>
    (in_gate (code_range mem) q \<longrightarrow> in_gate (code_range (widen_code_range p mem)) q)"
proof (cases "code_range mem AND 0xFFFFFFFF \<noteq> 0 \<and> p - drop_bit 32 (code_range mem) < code_range mem AND 0xFFFFFFFF")
  case True
  with assms(1) show ?thesis by (simp add: widen_code_range_def in_gate_def)
next
  case False
  from widen_outside [OF assms refl refl False refl refl, of q] False show ?thesis
    by (cases "code_range mem AND 0xFFFFFFFF = 0") (auto simp: widen_code_range_def Let_def)
qed

definition code_inv :: "Memory \<Rightarrow> bool" where
  "code_inv mem \<longleftrightarrow> length (code_page mem) \<le> TRACKED_WORDS \<and> gate_ok (code_range mem) \<and>
     (\<forall>p\<in>page_set (code_page mem). in_gate (code_range mem) p)"

lemma mark_code_page_inv: 
  assumes "code_inv mem"
  shows "code_inv (mark_code_page p mem)"
proof (cases "word_of p < length (code_page mem)")
  case True
  let ?m = "mem\<lparr>code_page := (code_page mem)[word_of p := code_page mem ! word_of p OR 2 ^ slot_of p]\<rparr>"
  have p: "unat p < 64 * TRACKED_WORDS" using True assms div_less_iff_less_mult [of 64 "unat p" "length (code_page mem)"] by (simp add: code_inv_def word_of_div)
  have "gate_ok (code_range ?m)" using assms by (simp add: code_inv_def)
  from widen_code_gate [OF this p] assms True mark_code_page_set(1) [of p mem] show ?thesis
    by (auto simp: code_inv_def mark_code_page_set(2)) (auto simp: mark_code_page_def word_bit_eq)
next
  case False
  then show ?thesis using assms by (simp add: mark_code_page_def word_bit_eq)
qed

lemma mark_code_inv: "code_inv mem \<Longrightarrow> code_inv (mark_code a n mem)"
proof -
  have "code_inv mem \<Longrightarrow> code_inv (fold mark_code_page ps mem)" for ps
    by (induction ps arbitrary: mem) (auto simp: mark_code_page_inv)
  then show "code_inv mem \<Longrightarrow> code_inv (mark_code a n mem)" by (simp add: mark_code_def)
qed

lemma clear_code_inv: "code_inv mem \<Longrightarrow> code_inv (clear_code_page p mem)"
  using clear_code_page_set [of p mem] by (auto simp: code_inv_def clear_code_page_def word_bit_eq split: if_splits)

section \<open>Coalescing\<close>

definition range_bytes :: "u64 \<times> u64 \<Rightarrow> u64 set" where
  "range_bytes = (\<lambda>(a, l). {x. unat a \<le> unat x \<and> unat x < unat a + unat l})"

definition range_before :: "u64 \<times> u64 \<Rightarrow> u64 \<times> u64 \<Rightarrow> bool" where
  "range_before = (\<lambda>(a, l) (b, m). unat a + unat l < unat b)"

lemma page_start:
  fixes p :: u64
  assumes "unat p < 2 ^ 40"
  shows "unat (push_bit CODE_PAGE_BITS p) = unat p * 4096" "unat CODE_PAGE_SIZE = 4096"
  using assms by (simp_all add: CODE_PAGE_SIZE_def CODE_PAGE_BITS_def push_bit_eq_mult unat_word_ariths)

lemma page_bytes:
  assumes "unat p < 2 ^ 40"
  shows "range_bytes (push_bit CODE_PAGE_BITS p, CODE_PAGE_SIZE) = {x. page_of x = p}"
proof -
  have "unat p * 4096 \<le> unat x \<and> unat x < unat p * 4096 + 4096 \<longleftrightarrow> unat x div 4096 = unat p" for x :: u64
    by (auto simp: div_nat_eqI)
  then show ?thesis
    using page_start [OF assms] by (auto simp: range_bytes_def word_unat_eq_iff unat_page_of)
qed

definition coalesce_pre :: "u64 list \<Rightarrow> (u64 \<times> u64) list \<Rightarrow> bool" where
  "coalesce_pre ps out \<longleftrightarrow> sorted_wrt (<) ps \<and> (\<forall>p\<in>set ps. unat p < 2 ^ 40) \<and>
     sorted_wrt (\<lambda>r s. range_before s r) out \<and>
     (\<forall>p\<in>set ps. \<forall>(a, l)\<in>set out. unat a + unat l \<le> unat p * 4096)"

lemma coalesce_extend:
  assumes "coalesce_pre (p # ps) ((a, l) # out)" "push_bit CODE_PAGE_BITS p = a + l"
  shows "coalesce_pre ps ((a, l + CODE_PAGE_SIZE) # out) \<and>
    range_bytes (a, l + CODE_PAGE_SIZE) = range_bytes (a, l) \<union> {x. page_of x = p}"
proof -
  have p: "unat p < 2 ^ 40" "unat a + unat l \<le> unat p * 4096" using assms(1) by (auto simp: coalesce_pre_def)
  then have al: "unat a + unat l = unat p * 4096"
    using page_start(1) [OF p(1)] assms(2) by (simp add: unat_word_ariths)
  have l: "unat (l + CODE_PAGE_SIZE) = unat l + 4096"
    using p al page_start(2) [OF p(1)] by (simp add: unat_word_ariths)
  have "unat p * 4096 + 4096 \<le> unat q * 4096" if "q \<in> set ps" for q
    using that assms(1) by (auto simp: coalesce_pre_def word_less_nat_alt)
  then have "unat a + (unat l + 4096) \<le> unat q * 4096" if "q \<in> set ps" for q using that al by fastforce
  with assms(1) have "coalesce_pre ps ((a, l + CODE_PAGE_SIZE) # out)"
    by (auto simp: coalesce_pre_def range_before_def l)
  moreover have "range_bytes (a, l + CODE_PAGE_SIZE) = range_bytes (a, l) \<union> range_bytes (push_bit CODE_PAGE_BITS p, CODE_PAGE_SIZE)"
    using al page_start [OF p(1)] by (auto simp: range_bytes_def l)
  ultimately show ?thesis using page_bytes [OF p(1)] by simp
qed

lemma coalesce_push:
  assumes "coalesce_pre (p # ps) out" "out = [] \<or> push_bit CODE_PAGE_BITS p \<noteq> fst (hd out) + snd (hd out)"
  shows "coalesce_pre ps ((push_bit CODE_PAGE_BITS p, CODE_PAGE_SIZE) # out)"
proof -
  have p: "unat p < 2 ^ 40" using assms(1) by (simp add: coalesce_pre_def)
  have q: "unat p * 4096 + 4096 \<le> unat q * 4096" if "q \<in> set ps" for q
    using that assms(1) by (auto simp: coalesce_pre_def word_less_nat_alt)
  have "unat a + unat l < unat p * 4096" if r: "(a, l) \<in> set out" for a l
  proof (cases out)
    case Nil
    then show ?thesis using r by simp
  next
    case (Cons h t)
    obtain b m where h: "h = (b, m)" by (cases h)
    have le: "unat b + unat m \<le> unat p * 4096" using assms(1) Cons h by (auto simp: coalesce_pre_def)
    have "b + m \<noteq> push_bit CODE_PAGE_BITS p" using assms(2) Cons h by auto
    then have "unat b + unat m \<noteq> unat p * 4096"
      using page_start(1) [OF p] p by (auto simp: word_unat_eq_iff unat_word_ariths)
    with le have bm: "unat b + unat m < unat p * 4096" by simp
    show ?thesis
    proof (cases "(a, l) = h")
      case True
      with bm h show ?thesis by simp
    next
      case False
      with r Cons assms(1) h have "unat a + unat l < unat b" by (auto simp: coalesce_pre_def range_before_def)
      with bm show ?thesis by simp
    qed
  qed
  with assms(1) q page_start [OF p] show ?thesis by (auto simp: coalesce_pre_def range_before_def)
qed

lemma coalesce_correct:
  assumes "coalesce_pre ps out"
  shows "\<Union> (range_bytes ` set (coalesce ps out)) = \<Union> (range_bytes ` set out) \<union> {x. page_of x \<in> set ps} \<and>
    sorted_wrt range_before (coalesce ps out)"
  using assms
proof (induction ps arbitrary: out)
  case Nil
  then show ?case by (simp add: coalesce_pre_def sorted_wrt_rev)
next
  case (Cons p ps)
  let ?r = "(push_bit CODE_PAGE_BITS p, CODE_PAGE_SIZE)"
  have p: "unat p < 2 ^ 40" using Cons.prems by (simp add: coalesce_pre_def)
  show ?case
  proof (cases "out = [] \<or> push_bit CODE_PAGE_BITS p \<noteq> fst (hd out) + snd (hd out)")
    case True
    then have "coalesce (p # ps) out = coalesce ps (?r # out)" by (cases out) (auto simp: Let_def)
    moreover have "{x. page_of x \<in> set (p # ps)} = range_bytes ?r \<union> {x. page_of x \<in> set ps}"
      using page_bytes [OF p] by auto
    ultimately show ?thesis using Cons.IH [OF coalesce_push [OF Cons.prems True]] by (simp add: ac_simps)
  next
    case False
    then obtain a l t where o: "out = (a, l) # t" "push_bit CODE_PAGE_BITS p = a + l" by (cases out) auto
    from coalesce_extend [OF Cons.prems [unfolded o(1)] o(2)]
    have e: "coalesce_pre ps ((a, l + CODE_PAGE_SIZE) # t)"
      "range_bytes (a, l + CODE_PAGE_SIZE) = range_bytes (a, l) \<union> {x. page_of x = p}" by simp_all
    have "{x. page_of x \<in> set (p # ps)} = {x. page_of x = p} \<union> {x. page_of x \<in> set ps}" by auto
    with Cons.IH [OF e(1)] e(2) o show ?thesis by (simp add: ac_simps)
  qed
qed

section \<open>The JIT barrier\<close>

lemma note_page_id:
  assumes "p \<notin> page_set (code_page mem)" "\<not> (w \<and> p \<in> page_set (watch_bits (watch mem)))"
  shows "note_page w p mem = mem"
  using assms by (auto simp: note_page_def Let_def is_code_page_iff is_watched_iff)

lemma note_write_id:
  assumes "\<forall>p\<in>set (code_page_range a n). p \<notin> page_set (code_page mem) \<and>
    \<not> (watch_count (watch mem) \<noteq> 0 \<and> p \<in> page_set (watch_bits (watch mem)))"
  shows "note_write a n mem = mem"
proof -
  have "fold (note_page w) ps mem = mem"
    if "\<forall>p\<in>set ps. p \<notin> page_set (code_page mem) \<and> \<not> (w \<and> p \<in> page_set (watch_bits (watch mem)))" for w ps
    using that by (induction ps) (simp_all add: note_page_id)
  from this [OF assms] show ?thesis by (simp add: note_write_def)
qed

lemma store_pages:
  assumes "0 < n" "n \<le> 64" "unat a + n \<le> 2 ^ 64" "p \<in> set (code_page_range a (of_nat n))"
  shows "p = page_of a \<or> p = page_of a + 1 \<and> PAGE_BYTES < (a AND PAGE_MASK) + of_nat n"
proof -
  have "unat (of_nat n :: u64) = n" using assms(2) by (simp add: unat_of_nat)
  then have "unat (saturating_add a (max (of_nat n) 1 - 1)) = unat a + (n - 1)"
    using unat_last_byte [of "of_nat n" a] assms by simp
  then have p: "unat a div 4096 \<le> unat p" "unat p \<le> (unat a + (n - 1)) div 4096"
    using assms(4) by (simp_all add: code_page_range_def Let_def set_pages_between word_le_nat_alt unat_page_of)
  have m: "PAGE_MASK = mask 12" by (simp add: PAGE_MASK_def PAGE_BYTES_def CODE_PAGE_BITS_def mask_eq_exp_minus_1 del: exp_minus_1_eq_mask)
  have "a AND PAGE_MASK = take_bit 12 a" unfolding m by (rule take_bit_eq_mask [symmetric])
  then have "unat (a AND PAGE_MASK) = unat a mod 4096" by (simp add: unat_mod take_bit_eq_mod)
  moreover have "unat ((a AND PAGE_MASK) + of_nat n) = unat (a AND PAGE_MASK) + n"
    using calculation assms(2) by (simp add: unat_word_ariths unat_of_nat)
  ultimately have x: "PAGE_BYTES < (a AND PAGE_MASK) + of_nat n \<longleftrightarrow> 4096 < unat a mod 4096 + n"
    by (simp add: PAGE_BYTES_def CODE_PAGE_BITS_def word_less_nat_alt)
  have d: "unat p = unat a div 4096 \<or> unat p = unat a div 4096 + 1 \<and> 4096 < unat a mod 4096 + n"
  proof -
    have "(unat a + (n - 1)) div 4096 = unat a div 4096 + (unat a mod 4096 + (n - 1)) div 4096"
      using div_add1_eq [of "unat a" "n - 1" 4096] assms(2) by simp
    moreover have "(unat a mod 4096 + (n - 1)) div 4096 = (if 4096 < unat a mod 4096 + n then 1 else 0)"
      using assms(1,2) by (auto intro!: div_nat_eqI)
    ultimately show ?thesis using p by (auto split: if_splits)
  qed
  have "unat (page_of a + 1) = unat a div 4096 + 1"
    using unat_u64_less [of a] by (simp add: unat_word_ariths unat_page_of)
  with d x show ?thesis by (auto simp: word_unat_eq_iff unat_page_of)
qed

lemma probe_hit:
  "drop_bit (unat (p AND 63)) (w :: u64) AND 1 = of_bool (bit w (slot_of p))"
  by (simp add: slot_of_def and_one_eq bit_iff_odd_drop_bit odd_iff_mod_2_eq_one)

lemma note_store_note_write:
  assumes "watch_inv (watch mem)" "0 < n" "n \<le> 64" "unat a + n \<le> 2 ^ 64" "word_of (page_of a) < length (watch_bits (watch mem))"
    and code: "page_of a \<in> page_set (code_page mem) \<Longrightarrow> in_gate (code_range mem) (page_of a)"
    and spill: "PAGE_BYTES < (a AND PAGE_MASK) + of_nat n \<Longrightarrow> watch_count (watch mem) = 0 \<Longrightarrow>
      page_of a + 1 \<in> page_set (code_page mem) \<Longrightarrow> in_gate (code_range mem) (page_of a)"
  shows "note_store a n mem = Some (note_write a (of_nat n) mem)"
proof (cases "in_gate (code_range mem) (page_of a)")
  case True
  then show ?thesis by (simp add: note_store_def Let_def in_gate_def ucast_low32)
next
  case out: False
  note pages = store_pages [OF assms(2-4)]
  show ?thesis
  proof (cases "watch_count (watch mem) = 0")
    case True
    moreover from this have "note_write a (of_nat n) mem = mem" using pages out code spill by (intro note_write_id) blast
    ultimately show ?thesis using out by (simp add: note_store_def Let_def in_gate_def ucast_low32)
  next
    case False
    let ?hit = "page_of a \<in> page_set (watch_bits (watch mem))"
    let ?cross = "PAGE_BYTES < (a AND PAGE_MASK) + of_nat n"
    have s: "note_store a n mem = (if ?hit \<or> ?cross then Some (note_write a (of_nat n) mem) else Some mem)"
      using out False assms(5)
      by (simp add: note_store_def Let_def in_gate_def ucast_low32 probe_hit page_set_def flip: word_of_def)
    have "note_write a (of_nat n) mem = mem" if "\<not> ?hit" "\<not> ?cross"
      using that out code pages by (intro note_write_id) blast
    with s show ?thesis by auto
  qed
qed

end
