(* ===== verification/X86_Mem_Reach.thy ===== *)
theory X86_Mem_Reach
  imports X86_Mem_Pages
begin

text \<open>
  Reachable guest memories: the constructors and every operation of \<^verbatim>\<open>Memory\<close> as a step relation, the invariant
  they keep, and the guarantees that rest on it (self-modifying code, watched pages, forks, guard pages).
\<close>

unbundle bit_operations_syntax

section \<open>Tables that cover the guest space\<close>

lemma div_ceil_ge: "0 < unat b \<Longrightarrow> unat a < 2 ^ 63 \<Longrightarrow> unat a \<le> unat (div_ceil a b) * unat b"
proof -
  assume b: "0 < unat b" and a: "unat a < 2 ^ 63"
  have m: "unat a < unat b + unat a div unat b * unat b" using b by (rule dividend_less_div_times)
  have "unat a div unat b < 2 ^ 63" using a div_le_dividend [of "unat a" "unat b"] by (rule le_less_trans [rotated])
  then have "unat (a div b + 1) = unat a div unat b + 1" by (simp add: unat_word_ariths unat_div)
  then have "a mod b \<noteq> 0 \<Longrightarrow> unat (div_ceil a b) = unat a div unat b + 1"
    "a mod b = 0 \<Longrightarrow> unat (div_ceil a b) = unat a div unat b" by (simp_all add: div_ceil_def unat_div)
  moreover have "a mod b = 0 \<longleftrightarrow> unat a mod unat b = 0" by (simp add: word_unat_eq_iff unat_mod)
  ultimately show "unat a \<le> unat (div_ceil a b) * unat b"
    using m by (cases "a mod b = 0") auto
qed

definition covers :: "u64 list \<Rightarrow> Memory \<Rightarrow> bool" where
  "covers bs mem \<longleftrightarrow> unat (mem_size mem) \<le> 0x40000 * length bs"

lemma covers_page:
  assumes "covers bs mem" "unat x < unat (mem_size mem)"
  shows "word_of (page_of x) < length bs"
proof -
  have "unat x < length bs * 0x40000" using assms by (simp add: covers_def)
  then have "unat x div 0x40000 < length bs" by (simp add: div_less_iff_less_mult)
  then show ?thesis by (simp add: word_of_div unat_page_of flip: div_mult2_eq)
qed

text \<open>
  The invariant of the code-page table.  The watermark is promised for tables of at most \<open>TRACKED_WORDS\<close> words only: one word more and
  its packed length can overflow (lemma \<open>watermark_overflow\<close> below).
\<close>

definition smc_inv :: "Memory \<Rightarrow> bool" where
  "smc_inv mem \<longleftrightarrow> covers (code_page mem) mem \<and>
     (length (code_page mem) \<le> TRACKED_WORDS \<longrightarrow> code_inv mem) \<and> (dirty_flag mem \<longleftrightarrow> dirty_code mem \<noteq> [])"

definition poll_inv :: "Memory \<Rightarrow> bool" where
  "poll_inv mem \<longleftrightarrow> watch_inv (watch mem) \<and> covers (watch_bits (watch mem)) mem \<and> length (watch_bits (watch mem)) \<le> 2 ^ 27"

definition mem_inv :: "Memory \<Rightarrow> bool" where
  "mem_inv mem \<longleftrightarrow> regions_wf mem \<and> unat (guest_base mem) + backing_len mem \<le> unat MAX_TRACKED_SPAN \<and>
     smc_inv mem \<and> poll_inv mem"

lemma table_size:
  assumes "span \<le> MAX_TRACKED_SPAN"
  shows "unat (div_ceil (div_ceil span CODE_PAGE_SIZE) 64) \<le> 2 ^ 27"
    "unat span \<le> 0x40000 * unat (div_ceil (div_ceil span CODE_PAGE_SIZE) 64)"
proof -
  have s: "unat span < 2 ^ 44"
    using assms by (simp add: MAX_TRACKED_SPAN_def CODE_PAGE_BITS_def word_le_nat_alt)
  have c: "unat CODE_PAGE_SIZE = 4096" by (simp add: CODE_PAGE_SIZE_def CODE_PAGE_BITS_def)
  have d: "unat (div_ceil span CODE_PAGE_SIZE) \<le> Suc (unat span div 4096)" "unat span div 4096 \<le> 2 ^ 32"
    using div_ceil_le [of span CODE_PAGE_SIZE] c s by simp_all
  have "unat (div_ceil (div_ceil span CODE_PAGE_SIZE) 64) \<le> Suc (unat (div_ceil span CODE_PAGE_SIZE) div 64)"
    using div_ceil_le [of "div_ceil span CODE_PAGE_SIZE" 64] by simp
  with d show "unat (div_ceil (div_ceil span CODE_PAGE_SIZE) 64) \<le> 2 ^ 27" by simp
  have "unat span \<le> unat (div_ceil span CODE_PAGE_SIZE) * 4096"
    using div_ceil_ge [of CODE_PAGE_SIZE span] c s by simp
  moreover have "unat (div_ceil span CODE_PAGE_SIZE) \<le> unat (div_ceil (div_ceil span CODE_PAGE_SIZE) 64) * 64"
    using div_ceil_ge [of 64 "div_ceil span CODE_PAGE_SIZE"] d by simp
  ultimately show "unat span \<le> 0x40000 * unat (div_ceil (div_ceil span CODE_PAGE_SIZE) 64)" by simp
qed

lemma from_backing_inv:
  assumes "from_backing m b len ptr own base = Some mem" "len < 2 ^ 64"
    and "unat (case m of Flat sz \<Rightarrow> sz | Reserved sz \<Rightarrow> sz | SoftMmu \<Rightarrow> 0) \<le> unat base + len"
  shows "mem_inv mem"
proof -
  let ?top = "saturating_add base (of_nat len) :: u64"
  let ?n = "unat (div_ceil (div_ceil ?top CODE_PAGE_SIZE) 64)"
  have top: "?top \<le> MAX_TRACKED_SPAN" and mem: "mem = \<lparr>model = m, backing = b, backing_len = len, backing_ptr = ptr, backing_owner = own,
           regions = [], code_page = zeroed_words ?n, code_range = 0, dirty_code = [], dirty_flag = False,
           watch = watch_pages_new ?top, guest_base = base, last_region = 0, protect_log = []\<rparr>"
    using assms(1) by (auto simp: from_backing_def fresh_code_pages_def Let_def split: if_splits)
  have "unat base + len < 2 ^ 64"
  proof (rule ccontr)
    assume "\<not> unat base + len < 2 ^ 64"
    then have "(- 1 :: u64) \<le> MAX_TRACKED_SPAN" using top assms(2) by (simp add: saturating_add_def unat_of_nat)
    moreover have "\<not> (- 1 :: u64) \<le> MAX_TRACKED_SPAN" by code_simp
    ultimately show False by simp
  qed
  then have u: "unat ?top = unat base + len" by (simp add: saturating_add_def unat_word_ariths unat_of_nat)
  then have "unat base + len \<le> unat MAX_TRACKED_SPAN" using top by (simp add: word_le_nat_alt)
  moreover have "unat (mem_size mem) \<le> unat ?top" using assms(3) u by (simp add: mem mem_size_def)
  moreover from this table_size [OF top] have "unat (mem_size mem) \<le> 0x40000 * ?n" "?n \<le> 2 ^ 27" by simp_all
  moreover have "regions_wf mem" using assms(3) by (simp add: regions_wf_def mem mem_size_def)
  moreover have "gate_ok 0" by (simp add: gate_ok_def)
  ultimately show ?thesis
    using watch_inv_new [of ?top]
    by (simp add: mem_inv_def smc_inv_def poll_inv_def covers_def code_inv_def mem zeroed_words_def watch_pages_new_def Let_def page_set_zeroed [unfolded zeroed_words_def])
qed

section \<open>Every operation keeps the invariant\<close>

lemma same_map_covers: "same_map m m' \<Longrightarrow> covers bs m' = covers bs m"
  using same_mapD(5) [of m m'] by (simp add: covers_def)

lemma mem_inv_data:
  assumes "mem_inv mem" "same_map mem mem'" "code_page mem' = code_page mem" "code_range mem' = code_range mem"
    "dirty_code mem' = dirty_code mem" "dirty_flag mem' = dirty_flag mem" "watch mem' = watch mem"
  shows "mem_inv mem'"
  using assms same_mapD(1) [OF assms(2)] same_map_covers [OF assms(2)]
  by (simp add: mem_inv_def smc_inv_def poll_inv_def code_inv_def same_map_def)

lemma note_write_inv:
  assumes "mem_inv mem"
  shows "mem_inv (note_write a n mem)"
proof -
  have m: "same_map mem (note_write a n mem)" by (simp add: same_map_def)
  have "smc_inv (note_write a n mem)"
    using assms same_map_covers [OF m] note_write_dirty [of a n mem]
    by (auto simp: mem_inv_def smc_inv_def code_inv_def filter_empty_conv)
  moreover have "poll_inv (note_write a n mem)"
    using assms same_map_covers [OF m] note_write_watch [of mem a n] by (simp add: mem_inv_def poll_inv_def)
  ultimately show ?thesis using assms same_mapD(1) [OF m] by (simp add: mem_inv_def)
qed

lemma store_inv: "mem_inv mem \<Longrightarrow> mem_inv (note_write a n (mem\<lparr>backing := b\<rparr>))"
  by (intro note_write_inv mem_inv_data [of mem "mem\<lparr>backing := b\<rparr>"]) (simp_all add: same_map_def)

lemma hint_inv [simp]: "mem_inv (mem\<lparr>last_region := h\<rparr>) = mem_inv mem"
  using mem_inv_data [of mem "mem\<lparr>last_region := h\<rparr>"] mem_inv_data [of "mem\<lparr>last_region := h\<rparr>" mem]
  by (auto simp: same_map_def)

lemma region_at_inv: "region_at a n mem = (mem', res) \<Longrightarrow> mem_inv mem \<Longrightarrow> mem_inv mem'"
  using fst_region_at [of a n mem] by force

lemma access_inv:
  assumes "mem_inv mem"
  shows "mem_inv (fst (mem_read a n mem))" "mem_inv (fst (mem_write a v n mem))" "mem_inv (fst (probe_write a n mem))"
    "mem_inv (fst (atomic_rmw a v n op mem))" "mem_inv (fst (atomic_cas a e v n mem))"
  using region_at_inv [OF _ assms, of a n] store_inv
  by (auto simp: mem_read_def mem_write_def probe_write_def atomic_rmw_def atomic_cas_def Let_def
      split: prod.splits sum.splits)

lemma bulk_inv:
  assumes "mem_inv mem"
  shows "write_bytes a bs mem = Inr mem' \<Longrightarrow> mem_inv mem'" "mem_inv (snd (write_ram_guest a bs mem))"
  using assms store_inv [OF assms]
  by (auto simp: write_bytes_def write_ram_guest_def split: if_splits option.splits RegionKind.splits)

lemma widen_code_fields [simp]:
  "model (widen_code_range p mem) = model mem" "regions (widen_code_range p mem) = regions mem"
  "guest_base (widen_code_range p mem) = guest_base mem" "backing_len (widen_code_range p mem) = backing_len mem"
  "backing_ptr (widen_code_range p mem) = backing_ptr mem" "backing_owner (widen_code_range p mem) = backing_owner mem"
  "watch (widen_code_range p mem) = watch mem" "dirty_code (widen_code_range p mem) = dirty_code mem"
  "dirty_flag (widen_code_range p mem) = dirty_flag mem" "backing (widen_code_range p mem) = backing mem"
  by (simp_all add: widen_code_range_def Let_def split: prod.split)

lemma mark_code_page_fields:
  "same_map mem (mark_code_page p mem)" "watch (mark_code_page p mem) = watch mem"
  "dirty_code (mark_code_page p mem) = dirty_code mem" "dirty_flag (mark_code_page p mem) = dirty_flag mem"
  by (simp_all add: mark_code_page_def word_bit_eq same_map_def)

lemma mark_code_mem_inv:
  assumes "mem_inv mem"
  shows "mem_inv (mark_code a n mem)"
proof -
  have page: "mem_inv (mark_code_page p m)" if "mem_inv m" for p m
    using that mark_code_page_inv [of m p] mark_code_page_fields [where mem = m and p = p] mark_code_page_set(2) [of p m]
      same_mapD(1) [of m "mark_code_page p m"] same_map_covers [of m "mark_code_page p m"]
    by (simp add: mem_inv_def smc_inv_def poll_inv_def covers_def same_map_def)
  have "mem_inv m \<Longrightarrow> mem_inv (fold mark_code_page ps m)" for ps m
    by (induction ps arbitrary: m) (simp_all add: page)
  then show ?thesis using assms by (simp add: mark_code_def)
qed

lemma clear_code_mem_inv:
  assumes "mem_inv mem"
  shows "mem_inv (clear_code_page p mem)" "mem_inv (clear_all_code_pages mem)"
proof -
  have "same_map mem (clear_code_page p mem)" "same_map mem (clear_all_code_pages mem)"
    by (simp_all add: clear_code_page_def clear_all_code_pages_def word_bit_eq same_map_def)
  note s = same_mapD(1) [OF this(1)] same_map_covers [OF this(1)] same_mapD(1) [OF this(2)] same_map_covers [OF this(2)]
  have f: "length (code_page (clear_code_page p mem)) = length (code_page mem)"
    "watch (clear_code_page p mem) = watch mem" "dirty_code (clear_code_page p mem) = dirty_code mem"
    "dirty_flag (clear_code_page p mem) = dirty_flag mem" "guest_base (clear_code_page p mem) = guest_base mem"
    "backing_len (clear_code_page p mem) = backing_len mem"
    by (simp_all add: clear_code_page_def word_bit_eq)
  show "mem_inv (clear_code_page p mem)"
    using assms clear_code_inv [of mem p] f s by (simp add: mem_inv_def smc_inv_def poll_inv_def covers_def)
  have "page_set (map (\<lambda>_. 0) bs) = {}" for bs :: "u64 list" by (auto simp: page_set_def)
  with assms s show "mem_inv (clear_all_code_pages mem)"
    by (simp add: mem_inv_def smc_inv_def poll_inv_def covers_def code_inv_def clear_all_code_pages_def)
qed

lemma watch_update_inv:
  assumes "mem_inv mem" "watch_inv wp" "length (watch_bits wp) = length (watch_bits (watch mem))"
  shows "mem_inv (mem\<lparr>watch := wp\<rparr>)"
proof -
  have "same_map mem (mem\<lparr>watch := wp\<rparr>)" by (simp add: same_map_def)
  from same_mapD(1) [OF this] same_map_covers [OF this] assms show ?thesis
    by (simp add: mem_inv_def smc_inv_def poll_inv_def covers_def code_inv_def)
qed

lemma watch_range_fold:
  assumes "watch_inv wp"
  shows "watch_inv (fold watch_page ps wp) \<and> length (watch_bits (fold watch_page ps wp)) = length (watch_bits wp) \<and>
    page_set (watch_bits (fold watch_page ps wp)) =
      page_set (watch_bits wp) \<union> {p \<in> set ps. word_of p < length (watch_bits wp)} \<and>
    dirty_bits (fold watch_page ps wp) = dirty_bits wp"
  using assms
proof (induction ps arbitrary: wp)
  case (Cons p ps)
  then show ?case using Cons.IH [of "watch_page p wp"] watch_inv_watch [of wp p] watch_page_set [of p wp] by auto
qed simp

lemma unwatch_pages_inv:
  assumes "watch_inv wp"
  obtains wp' where "unwatch_pages ps wp = Some wp'" "watch_inv wp'"
    "page_set (watch_bits wp') = page_set (watch_bits wp) - set ps"
    "page_set (dirty_bits wp') = page_set (dirty_bits wp) - set ps"
    "length (watch_bits wp') = length (watch_bits wp)"
proof -
  have "\<exists>wp'. unwatch_pages ps wp = Some wp' \<and> watch_inv wp' \<and>
    page_set (watch_bits wp') = page_set (watch_bits wp) - set ps \<and>
    page_set (dirty_bits wp') = page_set (dirty_bits wp) - set ps \<and> length (watch_bits wp') = length (watch_bits wp)"
    using assms
  proof (induction ps arbitrary: wp)
    case (Cons p ps)
    obtain w where w: "unwatch_page p wp = Some w" "watch_inv w"
      "page_set (watch_bits w) = page_set (watch_bits wp) - {p}"
      "page_set (dirty_bits w) = page_set (dirty_bits wp) - {p}"
      using unwatch_page_inv [OF Cons.prems] .
    have "length (watch_bits w) = length (watch_bits wp)"
      using w(1) by (auto simp: unwatch_page_def Let_def bind_eq_Some_conv split: prod.splits if_splits)
    with Cons.IH [OF w(2)] w show ?case by auto
  qed simp
  then show ?thesis using that by blast
qed

lemma watch_ops_inv:
  assumes "mem_inv mem"
  shows "mem_inv (watch_range a n mem)" "unwatch_range a n mem = Some mem' \<Longrightarrow> mem_inv mem'"
    "take_dirty_ranges mem = Some (rs, mem') \<Longrightarrow> mem_inv mem'"
proof -
  have w: "watch_inv (watch mem)" using assms by (simp add: mem_inv_def poll_inv_def)
  show "mem_inv (watch_range a n mem)"
    unfolding watch_range_def using watch_range_fold [OF w] assms by (intro watch_update_inv) auto
  show "mem_inv mem'" if "unwatch_range a n mem = Some mem'"
  proof -
    obtain wp where "unwatch_pages (code_page_range a n) (watch mem) = Some wp" "watch_inv wp"
      "length (watch_bits wp) = length (watch_bits (watch mem))"
      using unwatch_pages_inv [OF w] .
    then show ?thesis using that assms by (auto simp: unwatch_range_def intro: watch_update_inv)
  qed
  show "mem_inv mem'" if t: "take_dirty_ranges mem = Some (rs, mem')"
  proof -
    obtain pages wp where "take_dirty (watch mem) = Some (pages, wp)" "set pages = page_set (dirty_bits (watch mem))"
      "sorted_wrt (<) pages" "watch_inv wp" "page_set (dirty_bits wp) = {}" "watch_bits wp = watch_bits (watch mem)"
      using take_dirty_inv [OF w] .
    then show ?thesis using t assms by (auto simp: take_dirty_ranges_def intro: watch_update_inv)
  qed
qed

lemma take_dirty_code_inv:
  assumes "mem_inv mem" "take_dirty_code mem = (ps, mem')"
  shows "mem_inv mem'"
proof (cases "dirty_flag mem")
  case True
  then have m: "mem' = mem\<lparr>dirty_code := [], dirty_flag := False\<rparr>" using assms(2) by (auto simp: take_dirty_code_def)
  then have "same_map mem mem'" by (simp add: same_map_def)
  from same_mapD(1) [OF this] same_map_covers [OF this] assms(1) m show ?thesis
    by (simp add: mem_inv_def smc_inv_def poll_inv_def code_inv_def)
qed (use assms in \<open>simp add: take_dirty_code_def\<close>)

lemma regions_update_inv:
  assumes "mem_inv mem" "regions_wf (mem\<lparr>regions := rs\<rparr>)"
  shows "mem_inv (reprotect a n acc (mem\<lparr>regions := rs\<rparr>))"
proof -
  have "same_map (mem\<lparr>regions := rs\<rparr>) (reprotect a n acc (mem\<lparr>regions := rs\<rparr>))"
    by (simp add: reprotect_def same_map_def)
  from same_mapD(1) [OF this] same_map_covers [OF this] assms show ?thesis
    by (simp add: mem_inv_def smc_inv_def poll_inv_def code_inv_def covers_def mem_size_def reprotect_def)
qed

lemma mem_map_inv:
  assumes "mem_inv mem" "mem_map a n pr k mem = Some (Inr mem')"
  shows "mem_inv mem'"
proof -
  let ?r = "\<lparr>region_start = a, region_size = n, region_prot = pr, region_kind = k\<rparr>"
  have wf: "regions_wf mem" using assms(1) by (simp add: mem_inv_def)
  have e: "guest_base mem \<le> a" "unat a + unat n < 2 ^ 64" "a + n \<le> mem_size mem"
    "\<not> list_ex (\<lambda>r. a < region_end r \<and> region_start r < a + n) (regions mem)"
    "mem' = reprotect a n True (mem\<lparr>regions := regions mem @ [?r]\<rparr>)"
    using assms(2) by (auto simp: mem_map_def checked_add_def split: MemoryModel.splits if_splits option.splits)
  then have "region_ok mem ?r" by (simp add: region_ok_def word_le_nat_alt unat_word_ariths)
  moreover have "\<forall>r\<in>set (regions mem). apart r ?r"
    using e(4) by (auto simp: apart_def region_end_def list_ex_iff)
  moreover have "region_ok (mem\<lparr>regions := rs\<rparr>) = region_ok mem" for rs by (simp add: region_ok_def mem_size_def fun_eq_iff)
  ultimately have "regions_wf (mem\<lparr>regions := regions mem @ [?r]\<rparr>)"
    using wf by (simp add: regions_wf_def mem_size_def sorted_wrt_append)
  from regions_update_inv [OF assms(1) this] e(5) show ?thesis by simp
qed

lemma unmap_inv:
  assumes "mem_inv mem" "unmap a n mem = Inr mem'"
  shows "mem_inv mem'"
proof -
  obtain i where m: "mem' = reprotect a n False (mem\<lparr>regions := remove_nth i (regions mem)\<rparr>)"
    using assms(2) by (auto simp: unmap_def split: option.splits)
  have wf: "regions_wf mem" using assms(1) by (simp add: mem_inv_def)
  have "sorted_wrt apart (remove_nth i (regions mem))"
  proof -
    have "set (drop (Suc i) (regions mem)) \<subseteq> set (drop i (regions mem))" by (rule set_drop_subset_set_drop) simp
    moreover have "sorted_wrt apart (take i (regions mem) @ drop i (regions mem))" using wf by (simp add: regions_wf_def)
    moreover have "sorted_wrt apart (drop (Suc i) (regions mem))" using wf by (simp add: regions_wf_def sorted_wrt_drop)
    ultimately show ?thesis unfolding remove_nth_def sorted_wrt_append by blast
  qed
  moreover have "list_all (region_ok mem) (remove_nth i (regions mem))"
    using wf by (auto simp: regions_wf_def remove_nth_def list_all_iff dest: in_set_takeD in_set_dropD)
  moreover have "region_ok (mem\<lparr>regions := rs\<rparr>) = region_ok mem" for rs by (simp add: region_ok_def mem_size_def fun_eq_iff)
  ultimately have "regions_wf (mem\<lparr>regions := remove_nth i (regions mem)\<rparr>)"
    using wf by (simp add: regions_wf_def mem_size_def)
  from regions_update_inv [OF assms(1) this] m show ?thesis by simp
qed

section \<open>Copies\<close>

lemma copy_regions_bytes:
  assumes "copy_regions rs src n span child = Some b"
  shows "b j = (if \<exists>r\<in>set rs. unat (region_start r) \<le> j \<and> j < unat (region_end r) then src j else child j)"
  using assms
proof (induction rs arbitrary: child)
  case (Cons r rs)
  let ?c = "\<lambda>j. if unat (region_start r) \<le> j \<and> j < unat (region_end r) then src j else child j"
  have "copy_regions rs src n span ?c = Some b"
    using Cons.prems by (auto simp: Let_def region_end_def split: if_splits)
  from Cons.IH [OF this] show ?case by auto
qed simp

lemma copy_regions_total:
  assumes "\<forall>r\<in>set rs. region_ok mem r" "unat (mem_size mem) \<le> n" "unat (mem_size mem) \<le> span"
  shows "\<exists>b. copy_regions rs src n span child = Some b"
  using assms
proof (induction rs arbitrary: child)
  case (Cons r rs)
  have "unat (region_start r + region_size r) = unat (region_start r) + unat (region_size r)"
    using unat_region_end [of mem r] Cons.prems(1) by (simp add: region_end_def)
  moreover have "unat (region_start r) + unat (region_size r) \<le> unat (mem_size mem)"
    using Cons.prems(1) by (simp add: region_ok_def)
  ultimately show ?case using Cons by (simp add: Let_def)
qed simp

lemma from_backing_some:
  assumes "unat base + len \<le> unat MAX_TRACKED_SPAN"
  shows "\<exists>child. from_backing m b len ptr own base = Some child"
proof -
  have "unat MAX_TRACKED_SPAN < 2 ^ 44" by (simp add: MAX_TRACKED_SPAN_def CODE_PAGE_BITS_def)
  with assms have l: "unat base + len < 2 ^ 64" "len < 2 ^ 64" by simp_all
  then have "saturating_add base (of_nat len) \<le> MAX_TRACKED_SPAN"
    using assms by (simp add: saturating_add_def unat_of_nat word_le_nat_alt unat_word_ariths)
  then show ?thesis
    by (simp add: from_backing_def fresh_code_pages_def Let_def)
qed

text \<open>A copy: the same regions, and the same bytes wherever a region is mapped.\<close>

definition copy_of :: "Memory \<Rightarrow> Memory \<Rightarrow> bool" where
  "copy_of mem child \<longleftrightarrow> regions child = regions mem \<and> model child = model mem \<and> guest_base child = guest_base mem \<and>
     (\<forall>r\<in>set (regions mem). \<forall>x. region_start r \<le> x \<and> x < region_end r \<longrightarrow> mem_byte child x = mem_byte mem x)"

lemma deep_copy_child:
  assumes "mem_inv mem" "guest_base mem = 0"
    and child: "from_backing (model mem) b len ptr Boxed 0 = Some child" and len: "unat (mem_size mem) \<le> len" "len \<le> backing_len mem"
    and b: "\<And>r j. r \<in> set (regions mem) \<Longrightarrow> unat (region_start r) \<le> j \<Longrightarrow> j < unat (region_end r) \<Longrightarrow> b j = backing mem j"
  shows "copy_of mem (child\<lparr>regions := regions mem\<rparr>) \<and> mem_inv (child\<lparr>regions := regions mem\<rparr>)"
proof -
  have span: "unat MAX_TRACKED_SPAN < 2 ^ 44" by (simp add: MAX_TRACKED_SPAN_def CODE_PAGE_BITS_def)
  have l: "len \<le> unat MAX_TRACKED_SPAN" using assms(1,2) len by (simp add: mem_inv_def)
  have c: "model child = model mem" "backing child = b" "backing_len child = len" "guest_base child = 0" "regions child = []"
    using child by (auto simp: from_backing_def Let_def bind_eq_Some_conv)
  have "mem_inv child"
    using from_backing_inv [OF child] l span len(1) by (simp add: mem_size_def)
  moreover have "region_ok (child\<lparr>regions := regions mem\<rparr>) = region_ok mem"
    using c assms(2) by (simp add: region_ok_def mem_size_def fun_eq_iff)
  then have "regions_wf (child\<lparr>regions := regions mem\<rparr>)"
    using assms(1) c len by (simp add: mem_inv_def regions_wf_def mem_size_def)
  ultimately have "mem_inv (child\<lparr>regions := regions mem\<rparr>)"
    by (simp add: mem_inv_def smc_inv_def poll_inv_def code_inv_def covers_def mem_size_def)
  then show ?thesis
    using c assms(2) b by (auto simp: copy_of_def mem_byte_def host_off_def word_le_nat_alt word_less_nat_alt)
qed

lemma deep_copy_spec:
  assumes "mem_inv mem"
  shows "deep_copy mem ptr = Some None \<and> (guest_base mem \<noteq> 0 \<or> backing_owner mem \<noteq> Boxed) \<or>
    (\<exists>child. deep_copy mem ptr = Some (Some child) \<and> copy_of mem child \<and> mem_inv child)"
proof (cases "guest_base mem = 0")
  case True
  have wf: "\<forall>r\<in>set (regions mem). region_ok mem r" "unat (mem_size mem) \<le> backing_len mem"
    "backing_len mem \<le> unat MAX_TRACKED_SPAN"
    using assms True by (simp_all add: mem_inv_def regions_wf_def list_all_iff)
  have whole: ?thesis if d: "deep_copy mem ptr = (do {
      child \<leftarrow> from_backing (model mem) (backing mem) (backing_len mem) ptr Boxed 0;
      Some (Some (child\<lparr>regions := regions mem\<rparr>)) })"
  proof -
    obtain child where c: "from_backing (model mem) (backing mem) (backing_len mem) ptr Boxed 0 = Some child"
      using from_backing_some [of 0 "backing_len mem" "model mem" "backing mem" ptr Boxed] wf(3) by auto
    from deep_copy_child [OF assms True c wf(2)] c d show ?thesis by simp
  qed
  have regionwise: ?thesis if d: "deep_copy mem ptr = (do {
      bytes \<leftarrow> copy_regions (regions mem) (backing mem) (backing_len mem) (unat (mem_size mem)) (\<lambda>_. 0);
      child \<leftarrow> from_backing (model mem) bytes (unat (mem_size mem)) ptr Boxed 0;
      Some (Some (child\<lparr>regions := regions mem\<rparr>)) })"
  proof -
    obtain b where b: "copy_regions (regions mem) (backing mem) (backing_len mem) (unat (mem_size mem)) (\<lambda>_. 0) = Some b"
      using copy_regions_total [OF wf(1,2) order_refl] by blast
    obtain child where c: "from_backing (model mem) b (unat (mem_size mem)) ptr Boxed 0 = Some child"
      using from_backing_some [of 0 "unat (mem_size mem)" "model mem" b ptr Boxed] wf(2,3) by auto
    have "b j = backing mem j" if "r \<in> set (regions mem)" "unat (region_start r) \<le> j" "j < unat (region_end r)" for r j
      using copy_regions_bytes [OF b, of j] that by auto
    from deep_copy_child [OF assms True c order_refl wf(2) this] b c d show ?thesis by simp
  qed
  show ?thesis
    using True whole regionwise
    by (cases "model mem"; cases "backing_owner mem") (simp_all add: deep_copy_def mem_size_def)
qed (simp add: deep_copy_def)

section \<open>Reachable memories\<close>

inductive mem_step :: "Memory \<Rightarrow> Memory \<Rightarrow> bool" where
  step_map: "mem_map a n pr k mem = Some (Inr mem') \<Longrightarrow> mem_step mem mem'"
| step_unmap: "unmap a n mem = Inr mem' \<Longrightarrow> mem_step mem mem'"
| step_read: "mem_step mem (fst (mem_read a sz mem))"
| step_write: "mem_step mem (fst (mem_write a v sz mem))"
| step_probe: "mem_step mem (fst (probe_write a sz mem))"
| step_rmw: "mem_step mem (fst (atomic_rmw a v sz op mem))"
| step_cas: "mem_step mem (fst (atomic_cas a e v sz mem))"
| step_load: "write_bytes a bs mem = Inr mem' \<Longrightarrow> mem_step mem mem'"
| step_wide: "mem_step mem (snd (write_ram_guest a bs mem))"
| step_mark: "mem_step mem (mark_code a l mem)"
| step_clear: "mem_step mem (clear_code_page p mem)"
| step_clear_all: "mem_step mem (clear_all_code_pages mem)"
| step_drain_code: "take_dirty_code mem = (ps, mem') \<Longrightarrow> mem_step mem mem'"
| step_watch: "mem_step mem (watch_range a n mem)"
| step_unwatch: "unwatch_range a n mem = Some mem' \<Longrightarrow> mem_step mem mem'"
| step_drain: "take_dirty_ranges mem = Some (rs, mem') \<Longrightarrow> mem_step mem mem'"
| step_fork: "deep_copy mem ptr = Some (Some child) \<Longrightarrow> mem_step mem child"

inductive mem_reachable :: "Memory \<Rightarrow> bool" where
  reach_new: "memory_new m ptr = Some mem \<Longrightarrow> mem_reachable mem"
| reach_host: "from_host_ram m b len ptr prot base = Some mem \<Longrightarrow> len < 2 ^ 64 \<Longrightarrow> mem_reachable mem"
| reach_step: "mem_reachable mem \<Longrightarrow> mem_step mem mem' \<Longrightarrow> mem_reachable mem'"

lemma mem_step_inv: "mem_step mem mem' \<Longrightarrow> mem_inv mem \<Longrightarrow> mem_inv mem'"
proof (induction rule: mem_step.induct)
  case (step_fork mem ptr child)
  then show ?case using deep_copy_spec [of mem ptr] by auto
qed (blast intro: mem_map_inv unmap_inv access_inv bulk_inv mark_code_mem_inv clear_code_mem_inv
    take_dirty_code_inv watch_ops_inv)+

lemma reachable_inv: "mem_reachable mem \<Longrightarrow> mem_inv mem"
proof (induction rule: mem_reachable.induct)
  case (reach_new m ptr mem)
  then show ?case
    unfolding memory_new_def by (rule from_backing_inv) (simp_all add: unat_u64_less split: MemoryModel.splits)
next
  case (reach_host m b len ptr prot base mem)
  let ?span = "case m of Flat sz \<Rightarrow> sz | Reserved sz \<Rightarrow> sz | SoftMmu \<Rightarrow> 0"
  have "base \<le> ?span" "unat (?span - base) \<le> len" and f: "from_backing m b len ptr (Host prot) base = Some mem"
    using reach_host(1) by (auto simp: from_host_ram_def Let_def split: if_splits)
  then have "unat ?span \<le> unat base + len" by (simp add: unat_sub word_le_nat_alt)
  from from_backing_inv [OF f reach_host(2) this] show ?case .
qed (rule mem_step_inv)

lemma demo_memory_reachable: "mem_reachable demo_memory"
proof -
  obtain m0 where m0: "memory_new (Flat 0x2000) 0 = Some m0"
    by (auto simp: memory_new_def from_backing_def fresh_code_pages_def MAX_TRACKED_SPAN_def CODE_PAGE_BITS_def saturating_add_def)
  have f: "model m0 = Flat 0x2000" "regions m0 = []" "guest_base m0 = 0" "backing_owner m0 = Boxed"
    using m0 by (auto simp: memory_new_def from_backing_def bind_eq_Some_conv Let_def)
  obtain m1 where m1: "mem_map 0 0x1000 ProtRW Ram m0 = Some (Inr m1)"
    by (simp add: mem_map_def f mem_size_def checked_add_def)
  then have f1: "model m1 = Flat 0x2000" "guest_base m1 = 0"
    "regions m1 = [\<lparr>region_start = 0, region_size = 0x1000, region_prot = ProtRW, region_kind = Ram\<rparr>]"
    by (auto simp: mem_map_def f mem_size_def checked_add_def reprotect_def split: if_splits)
  obtain m2 where m2: "mem_map 0x1000 0x1000 ProtR Rom m1 = Some (Inr m2)"
    by (simp add: mem_map_def f1 mem_size_def checked_add_def region_end_def)
  have "demo_memory = m2" by (simp add: demo_memory_def m0 m1 m2)
  then show ?thesis using m0 m1 m2 by (blast intro: reach_new reach_step step_map)
qed

lemma unat_u32_less: "unat (x :: u32) < 2 ^ 64"
  using unsigned_less [of x, where ?'a = nat] by simp

lemma writable_span:
  assumes "regions_wf mem" "mem_writable mem a n" "n \<le> 64"
  shows "unat a + n \<le> unat (mem_size mem)" "unat a + n \<le> 2 ^ 64" "unat (of_nat n :: u64) = n"
proof -
  show n: "unat (of_nat n :: u64) = n" using assms(3) by (simp add: unat_of_nat)
  obtain r where "region_for a (of_nat n) mem = Some r"
    using assms(2) by (auto simp: mem_writable_def lookup_region_Inr split: sum.splits)
  from region_for_SomeD(5) [OF assms(1) this] n show "unat a + n \<le> unat (mem_size mem)" by simp
  then show "unat a + n \<le> 2 ^ 64" using unat_u64_less [of "mem_size mem"] by simp
qed

lemma written_page:
  assumes "regions_wf mem" "mem_writable mem a n" "n \<le> 64" "unat (x - a) < n"
  shows "page_of x \<in> set (code_page_range a (of_nat n))" "covers bs mem \<Longrightarrow> word_of (page_of x) < length bs"
proof -
  note sp = writable_span [OF assms(1-3)]
  show "page_of x \<in> set (code_page_range a (of_nat n))" using assms(4) sp by (intro byte_page_in_range) simp_all
  have "unat x = unat a + unat (x - a)" using unat_add_of_nat [of a "unat (x - a)"] assms(4) sp(2) by simp
  then show "covers bs mem \<Longrightarrow> word_of (page_of x) < length bs" using covers_page [of bs mem x] sp(1) assms(4) by simp
qed

lemma mem_write_tables:
  assumes "regions_wf mem" "valid_size n" "mem_writable mem a n"
  obtains h b where "fst (mem_write a v n mem) = note_write a (of_nat n) (mem\<lparr>last_region := h, backing := b\<rparr>)"
proof -
  obtain h where "mem_write a v n mem = write_effect h a v n mem" using mem_write_cases [OF assms(1,2)] .
  moreover obtain r where "lookup_region a n mem = Inr r" "region_kind r = Ram"
    using assms(3) by (auto simp: mem_writable_def split: sum.splits)
  ultimately show ?thesis
    using that [where h = h and b = "plain_write (backing mem) (host_off a mem) v n"] by (simp add: write_effect_def)
qed

lemma mark_code_same_map: "same_map mem (mark_code b l mem)"
proof -
  have "same_map mem (fold mark_code_page ps mem)" for ps
  proof (induction ps arbitrary: mem)
    case (Cons p ps)
    then show ?case using Cons [of "mark_code_page p mem"] mark_code_page_fields(1) [of mem p] by (simp add: same_map_def)
  qed simp
  then show ?thesis by (simp add: mark_code_def)
qed

lemma watch_range_same_map: "same_map mem (watch_range b l mem)"
  by (simp add: watch_range_def same_map_def)

section \<open>Properties\<close>

text \<open>
  Property C6: a store to writable memory that touches a byte of a range marked as code raises the
  dirty flag, and the page of that byte is among the pages the next drain hands to the translation
  cache.  Self-modifying stores are never missed by the interpreter.
\<close>
theorem smc_write_reported:
  assumes "mem_reachable mem" "valid_size n" "mem_writable mem a n"
    and "unat (x - a) < n" "unat (x - b) < unat l" "unat b + unat l \<le> 2 ^ 64"
  shows "has_dirty_code (fst (mem_write a v n (mark_code b l mem))) \<and>
    page_of x \<in> set (fst (take_dirty_code (fst (mem_write a v n (mark_code b l mem)))))"
proof -
  let ?m = "mark_code b l mem"
  have inv: "mem_inv mem" using assms(1) by (rule reachable_inv)
  note s = same_mapD [OF mark_code_same_map [of mem b l]] same_map_views [OF mark_code_same_map [of mem b l]]
  have wf: "regions_wf mem" "regions_wf ?m" and w: "mem_writable ?m a n"
    using inv s assms(3) by (simp_all add: mem_inv_def)
  have n: "n \<le> 64" using assms(2) by (auto simp: valid_size_def)
  note x = written_page [OF wf(1) assms(3) n assms(4)]
  have "unat (ucast l :: u64) = unat l" by (simp add: unsigned_ucast_eq take_bit_nat_eq_self [OF unat_u32_less])
  then have "page_of x \<in> set (code_page_range b (ucast l))" using assms(5,6) by (intro byte_page_in_range) simp_all
  then have c: "page_of x \<in> page_set (code_page ?m)"
    using x(2) [of "code_page mem"] inv by (simp add: mark_code_set mem_inv_def smc_inv_def)
  obtain h bk where "fst (mem_write a v n ?m) = note_write a (of_nat n) (?m\<lparr>last_region := h, backing := bk\<rparr>)"
    using mem_write_tables [OF wf(2) assms(2) w] .
  then show ?thesis using c x(1) by (auto simp: has_dirty_code_def take_dirty_code_def note_write_dirty)
qed

lemma take_dirty_ranges_spec:
  assumes "mem_inv mem"
  obtains rs mem' where "take_dirty_ranges mem = Some (rs, mem')" "sorted_wrt range_before rs"
    "(\<Union>r\<in>set rs. range_bytes r) = {x. page_of x \<in> page_set (dirty_bits (watch mem))}"
    "\<exists>m. take_dirty_ranges mem' = Some ([], m)"
proof -
  have w: "watch_inv (watch mem)" using assms by (simp add: mem_inv_def poll_inv_def)
  obtain ps wp where t: "take_dirty (watch mem) = Some (ps, wp)" "set ps = page_set (dirty_bits (watch mem))"
      "sorted_wrt (<) ps" "watch_inv wp" "page_set (dirty_bits wp) = {}" "watch_bits wp = watch_bits (watch mem)"
    using take_dirty_inv [OF w] .
  obtain ps' wp' where t': "take_dirty wp = Some (ps', wp')" "set ps' = page_set (dirty_bits wp)"
      "sorted_wrt (<) ps'" "watch_inv wp'" "page_set (dirty_bits wp') = {}" "watch_bits wp' = watch_bits wp"
    using take_dirty_inv [OF t(4)] .
  have "unat p < 2 ^ 40" if "p \<in> set ps" for p
  proof -
    have "word_of p < 2 ^ 27" using that t(2) w assms by (auto simp: page_set_def watch_inv_def mem_inv_def poll_inv_def)
    then show ?thesis by (simp add: word_of_div div_less_iff_less_mult)
  qed
  then have "coalesce_pre ps []" using t(3) by (simp add: coalesce_pre_def)
  note c = coalesce_correct [OF this]
  show ?thesis
  proof (rule that [of "coalesce ps []" "mem\<lparr>watch := wp\<rparr>"])
    show "take_dirty_ranges mem = Some (coalesce ps [], mem\<lparr>watch := wp\<rparr>)" using t(1) by (simp add: take_dirty_ranges_def)
    show "sorted_wrt range_before (coalesce ps [])" using c by simp
    show "(\<Union>r\<in>set (coalesce ps []). range_bytes r) = {x. page_of x \<in> page_set (dirty_bits (watch mem))}" using c t(2) by simp
    show "\<exists>m. take_dirty_ranges (mem\<lparr>watch := wp\<rparr>) = Some ([], m)" using t' t(5) by (simp add: take_dirty_ranges_def)
  qed
qed

text \<open>
  Property C10: polling.  After a watch on a range and a store, draining the dirty ranges succeeds and
  returns ascending, disjoint, non-adjacent byte ranges that cover exactly the pages dirty before plus
  the watched pages of the store; every byte that is both watched and written is covered; a second
  drain is empty.
\<close>
theorem watched_write_reported:
  assumes "mem_reachable mem" "valid_size n" "mem_writable mem a n" "unat b + unat l \<le> 2 ^ 64"
  shows "\<exists>rs mem'. take_dirty_ranges (fst (mem_write a v n (watch_range b l mem))) = Some (rs, mem') \<and>
    sorted_wrt range_before rs \<and> (\<exists>m. take_dirty_ranges mem' = Some ([], m)) \<and>
    (\<Union>r\<in>set rs. range_bytes r) =
      {x. page_of x \<in> page_set (dirty_bits (watch mem)) \<or>
          page_of x \<in> set (code_page_range a (of_nat n)) \<and> is_watched (page_of x) (watch (watch_range b l mem))} \<and>
    {x. unat (x - a) < n \<and> unat (x - b) < unat l} \<subseteq> (\<Union>r\<in>set rs. range_bytes r)"
proof -
  let ?m = "watch_range b l mem" and ?w = "fst (mem_write a v n (watch_range b l mem))"
  have inv: "mem_inv mem" using assms(1) by (rule reachable_inv)
  have invm: "mem_inv ?m" using inv by (rule watch_ops_inv)
  note s = same_map_views [OF watch_range_same_map [of mem b l]]
  have wf: "regions_wf mem" "regions_wf ?m" "watch_inv (watch mem)" "watch_inv (watch ?m)" and w: "mem_writable ?m a n"
    using inv invm s assms(3) by (simp_all add: mem_inv_def poll_inv_def)
  have n: "n \<le> 64" using assms(2) by (auto simp: valid_size_def)
  have wb: "page_set (watch_bits (watch ?m)) = page_set (watch_bits (watch mem)) \<union>
      {p \<in> set (code_page_range b l). word_of p < length (watch_bits (watch mem))}"
    "dirty_bits (watch ?m) = dirty_bits (watch mem)"
    using watch_range_fold [OF wf(3), of "code_page_range b l"] by (simp_all add: watch_range_def)
  obtain h bk where m: "?w = note_write a (of_nat n) (?m\<lparr>last_region := h, backing := bk\<rparr>)"
    using mem_write_tables [OF wf(2) assms(2) w] .
  have d: "page_set (dirty_bits (watch ?w)) = page_set (dirty_bits (watch mem)) \<union>
      (set (code_page_range a (of_nat n)) \<inter> page_set (watch_bits (watch ?m)))"
    using note_write_watch(3) [of "?m\<lparr>last_region := h, backing := bk\<rparr>" a "of_nat n"] wf(4) wb(2) m by simp
  have sub: "page_of x \<in> page_set (dirty_bits (watch ?w))" if "unat (x - a) < n" "unat (x - b) < unat l" for x
  proof -
    note x = written_page [OF wf(1) assms(3) n that(1)]
    have "word_of (page_of x) < length (watch_bits (watch mem))" using x(2) inv by (simp add: mem_inv_def poll_inv_def)
    moreover have "page_of x \<in> set (code_page_range b l)" using that(2) assms(4) by (rule byte_page_in_range)
    moreover note x(1)
    ultimately show ?thesis by (simp add: d wb)
  qed
  have "mem_inv ?w" using invm by (rule access_inv)
  from take_dirty_ranges_spec [OF this] obtain rs mem' where t: "take_dirty_ranges ?w = Some (rs, mem')" "sorted_wrt range_before rs"
    "(\<Union>r\<in>set rs. range_bytes r) = {x. page_of x \<in> page_set (dirty_bits (watch ?w))}"
    "\<exists>m. take_dirty_ranges mem' = Some ([], m)" .
  moreover have "{x. page_of x \<in> page_set (dirty_bits (watch ?w))} =
      {x. page_of x \<in> page_set (dirty_bits (watch mem)) \<or>
          page_of x \<in> set (code_page_range a (of_nat n)) \<and> is_watched (page_of x) (watch ?m)}"
    unfolding d is_watched_iff by blast
  moreover have "{x. unat (x - a) < n \<and> unat (x - b) < unat l} \<subseteq> {x. page_of x \<in> page_set (dirty_bits (watch ?w))}"
    using sub by blast
  ultimately show ?thesis by simp
qed

text \<open>
  The one kind of store the inline barrier misses: nothing is watched, the store spills over the end
  of its page, and the page it spills into is the lowest page of the watermark and holds code.
\<close>

definition spill_missed :: "u64 \<Rightarrow> nat \<Rightarrow> Memory \<Rightarrow> bool" where
  "spill_missed a n mem \<longleftrightarrow> watch_count (watch mem) = 0 \<and> PAGE_BYTES < (a AND PAGE_MASK) + of_nat n \<and>
     is_code_page (page_of a + 1) mem \<and> drop_bit 32 (code_range mem) = page_of a + 1"

lemma spill_outside:
  assumes "code_inv mem" "is_code_page (page_of a + 1) mem"
  shows "in_gate (code_range mem) (page_of a) \<longleftrightarrow> drop_bit 32 (code_range mem) \<noteq> page_of a + 1"
proof -
  have g: "gate_ok (code_range mem)" "in_gate (code_range mem) (page_of a + 1)"
    using assms by (auto simp: code_inv_def is_code_page_iff)
  have "unat (page_of a + 1) = unat (page_of a) + 1"
    using unat_u64_less [of a] by (simp add: unat_word_ariths unat_page_of)
  with g(2) show ?thesis unfolding in_gate_span [OF g(1)] by (auto simp: word_unat_eq_iff)
qed

text \<open>
  Property C11: the store barrier the JIT emits inline, on every memory whose page table has at most
  \<open>TRACKED_WORDS\<close> words (a span of up to 16 TiB less 256 KiB) and every store of
  1 to 64 bytes into writable memory, is \<^verbatim>\<open>note_write\<close>: the same code pages and
  the same watched pages become dirty, and its unchecked table probe stays in bounds.  The exception is exact: a store
  that spills from the page right below the watermark into a code page while nothing is watched
  is not noted at all.
\<close>
theorem jit_barrier_equals_note_write:
  assumes "mem_reachable mem" "length (code_page mem) \<le> TRACKED_WORDS" "mem_writable mem a n" "0 < n" "n \<le> 64"
  shows "note_store a n mem = Some (if spill_missed a n mem then mem else note_write a (of_nat n) mem)"
proof -
  have inv: "mem_inv mem" using assms(1) by (rule reachable_inv)
  then have wf: "regions_wf mem" "watch_inv (watch mem)" "covers (watch_bits (watch mem)) mem" "code_inv mem"
    using assms(2) by (simp_all add: mem_inv_def smc_inv_def poll_inv_def)
  note sp = writable_span [OF wf(1) assms(3,5)]
  have "unat a < unat (mem_size mem)" using sp(1) assms(4) by simp
  then have w: "word_of (page_of a) < length (watch_bits (watch mem))" using covers_page wf(3) by blast
  show ?thesis
  proof (cases "spill_missed a n mem")
    case True
    then have "\<not> in_gate (code_range mem) (page_of a)" using spill_outside [OF wf(4)] by (auto simp: spill_missed_def)
    with True show ?thesis by (simp add: spill_missed_def note_store_def Let_def in_gate_def ucast_low32)
  next
    case False
    have "in_gate (code_range mem) (page_of a)" if "page_of a \<in> page_set (code_page mem)"
      using that wf(4) by (simp add: code_inv_def)
    moreover have "in_gate (code_range mem) (page_of a)" if "PAGE_BYTES < (a AND PAGE_MASK) + of_nat n"
        "watch_count (watch mem) = 0" "page_of a + 1 \<in> page_set (code_page mem)"
      using that False spill_outside [OF wf(4)] by (auto simp: spill_missed_def is_code_page_iff)
    ultimately show ?thesis using False note_store_note_write [OF wf(2) assms(4,5) sp(2) w] by simp
  qed
qed

text \<open>Page 0 of the concrete memory holds code and is watched.\<close>

definition noted_memory :: Memory where
  "noted_memory = watch_range 0 64 (mark_code 0 64 demo_memory)"

lemma demo_memory_tables:
  "code_page demo_memory = [0]" "code_range demo_memory = 0" "dirty_code demo_memory = []" "dirty_flag demo_memory = False"
  "watch_bits (watch demo_memory) = [0]" "dirty_bits (watch demo_memory) = [0]" "watch_count (watch demo_memory) = 0"
  by (simp_all add: demo_memory_def memory_new_def from_backing_def fresh_code_pages_def MAX_TRACKED_SPAN_def
    CODE_PAGE_BITS_def mem_map_def mem_size_def reprotect_def checked_add_def saturating_add_def region_end_def
    zeroed_words_def div_ceil_def CODE_PAGE_SIZE_def watch_pages_new_def)

lemma noted_memory_fields [simp]:
  "code_page noted_memory = [1]" "code_range noted_memory = 2" "dirty_code noted_memory = []"
  "watch_bits (watch noted_memory) = [1]" "watch_count (watch noted_memory) = 1"
  by (simp_all add: noted_memory_def watch_range_def mark_code_def code_page_range_def CODE_PAGE_BITS_def saturating_add_def
    pages_between_def mark_code_page_def word_bit_def widen_code_range_def Let_def saturating_sub_def watch_page_def
    demo_memory_tables)

lemma noted_memory_reachable: "mem_reachable noted_memory" "mem_writable noted_memory 0x10 4"
proof -
  show "mem_reachable noted_memory"
    unfolding noted_memory_def by (blast intro: demo_memory_reachable reach_step mem_step.intros)
  have "mem_writable demo_memory 0x10 4" by (simp add: mem_writable_def)
  then show "mem_writable noted_memory 0x10 4"
    unfolding noted_memory_def same_map_views [OF watch_range_same_map] same_map_views [OF mark_code_same_map] .
qed

text \<open>Two code pages marked from the top down: page 10, then page 9.\<close>

definition ram_memory :: Memory where
  "ram_memory = projr (the (mem_map 0 0x100000 ProtRW Ram (the (memory_new (Flat 0x100000) 0))))"

definition two_code_pages :: Memory where
  "two_code_pages = mark_code 0x9000 1 (mark_code 0xA000 1 ram_memory)"

lemma zeroed_four: "zeroed_words 4 = [0, 0, 0, 0]"
  by (simp add: zeroed_words_def numeral_eq_Suc)

lemma ram_memory_fields:
  "code_page ram_memory = [0, 0, 0, 0]" "code_range ram_memory = 0" "dirty_flag ram_memory = False" "watch_count (watch ram_memory) = 0"
  "regions ram_memory = [\<lparr>region_start = 0, region_size = 0x100000, region_prot = ProtRW, region_kind = Ram\<rparr>]"
  by (simp_all add: ram_memory_def memory_new_def from_backing_def fresh_code_pages_def MAX_TRACKED_SPAN_def CODE_PAGE_BITS_def
      saturating_add_def zeroed_four div_ceil_def CODE_PAGE_SIZE_def watch_pages_new_def mem_map_def mem_size_def
      reprotect_def checked_add_def)

lemma ram_memory_reachable: "mem_reachable ram_memory"
proof -
  obtain m0 where m0: "memory_new (Flat 0x100000) 0 = Some m0" "model m0 = Flat 0x100000" "regions m0 = []"
      "guest_base m0 = 0" "backing_owner m0 = Boxed"
    by (auto simp: memory_new_def from_backing_def fresh_code_pages_def MAX_TRACKED_SPAN_def CODE_PAGE_BITS_def saturating_add_def)
  then obtain m1 where m1: "mem_map 0 0x100000 ProtRW Ram m0 = Some (Inr m1)" by (auto simp: mem_map_def mem_size_def checked_add_def)
  have "ram_memory = m1" by (simp add: ram_memory_def m0 m1)
  then show ?thesis using m0 m1 by (blast intro: reach_new reach_step step_map)
qed

lemma two_code_pages_fields [simp]:
  "code_range two_code_pages = 0x900000002" "code_page two_code_pages = [0x600, 0, 0, 0]" "watch_count (watch two_code_pages) = 0"
  "dirty_flag two_code_pages = False"
  by (simp_all add: two_code_pages_def mark_code_def code_page_range_def CODE_PAGE_BITS_def saturating_add_def pages_between_def
      mark_code_page_def word_bit_def widen_code_range_def Let_def ram_memory_fields saturating_sub_def)

lemma two_code_pages_reachable: "mem_reachable two_code_pages" "mem_writable two_code_pages 0x8FFE 4"
proof -
  show "mem_reachable two_code_pages"
    unfolding two_code_pages_def by (blast intro: ram_memory_reachable reach_step mem_step.intros)
  have "mem_writable ram_memory 0x8FFE 4"
    by (simp add: mem_writable_def lookup_region_def region_for_def checked_add_def region_contains_def region_end_def ram_memory_fields)
  then show "mem_writable two_code_pages 0x8FFE 4"
    unfolding two_code_pages_def same_map_views [OF mark_code_same_map] .
qed

theorem jit_barrier_equals_note_write_witness:
  "(\<exists>mem'. note_store 0x10 4 noted_memory = Some mem' \<and> 0 \<in> set (dirty_code mem') \<and> 0 \<in> page_set (dirty_bits (watch mem'))) \<and>
   note_store 0x8FFE 4 two_code_pages = Some two_code_pages \<and> has_dirty_code (note_write 0x8FFE 4 two_code_pages)"
proof (intro conjI)
  have r: "page_of 0x10 = 0" "0 \<in> set (code_page_range 0x10 (of_nat 4))" "0 \<in> page_set [1 :: u64]"
    by (simp_all add: page_set_def CODE_PAGE_BITS_def code_page_range_def set_pages_between saturating_add_def
      word_of_def slot_of_def Let_def)
  then have d: "0 \<in> set (dirty_code (note_write 0x10 (of_nat 4) noted_memory))" by (simp add: note_write_dirty)
  have "watch_inv (watch noted_memory)" using reachable_inv [OF noted_memory_reachable(1)] by (simp only: mem_inv_def poll_inv_def)
  from note_write_watch(3) [OF this, where a = "0x10" and n = "of_nat 4"] r
  have w: "0 \<in> page_set (dirty_bits (watch (note_write 0x10 (of_nat 4) noted_memory)))" by simp
  have "note_store 0x10 4 noted_memory = Some (note_write 0x10 (of_nat 4) noted_memory)"
    using jit_barrier_equals_note_write [OF noted_memory_reachable(1) _ noted_memory_reachable(2)] by (simp add: spill_missed_def)
  with d w show "\<exists>mem'. note_store 0x10 4 noted_memory = Some mem' \<and> 0 \<in> set (dirty_code mem') \<and> 0 \<in> page_set (dirty_bits (watch mem'))"
    by blast
  have c: "is_code_page 9 two_code_pages" by (simp add: is_code_page_def word_bit_def)
  then have "spill_missed 0x8FFE 4 two_code_pages"
    by (simp add: spill_missed_def PAGE_BYTES_def PAGE_MASK_def CODE_PAGE_BITS_def)
  then show "note_store 0x8FFE 4 two_code_pages = Some two_code_pages"
    using jit_barrier_equals_note_write [OF two_code_pages_reachable(1) _ two_code_pages_reachable(2)] by simp
  show "has_dirty_code (note_write 0x8FFE 4 two_code_pages)"
    using c by (auto simp: has_dirty_code_def note_write_dirty is_code_page_iff code_page_range_def set_pages_between
      CODE_PAGE_BITS_def saturating_add_def Let_def intro!: bexI [of _ 9])
qed

text \<open>
  The bound on the table is sharp: in a table of one word more, whose last page is the page
  \<^verbatim>\<open>0xFFFFFFFE\<close>, marking that page and then page 0 overflows the packed length of the watermark
  to an empty range, and a store to the code of page 0 passes the inline barrier unnoticed.
\<close>
lemma watermark_overflow:
  assumes "length (code_page mem) = TRACKED_WORDS + 1" "code_range mem = 0" "watch_count (watch mem) = 0"
  defines "full \<equiv> mark_code 0 1 (mark_code 0xFFFFFFFE000 1 mem)"
  shows "is_code_page 0 full" "code_range full AND 0xFFFFFFFF = 0" "note_store a n full = Some full"
proof -
  have r: "code_page_range 0 1 = [0]" "code_page_range 0xFFFFFFFE000 1 = [0xFFFFFFFE]"
    by (simp_all add: code_page_range_def CODE_PAGE_BITS_def saturating_add_def pages_between_def)
  then have "0 \<in> page_set (code_page full)"
    using assms(1) mark_code_set [of 0 1 "mark_code 0xFFFFFFFE000 1 mem"]
    by (simp add: full_def mark_code_page_set(2) mark_code_def word_of_def)
  then show "is_code_page 0 full" by (simp add: is_code_page_iff)
  show c: "code_range full AND 0xFFFFFFFF = 0"
    using assms(1,2) r
    by (simp add: full_def mark_code_def mark_code_page_def word_bit_def widen_code_range_def Let_def saturating_sub_def)
  have "watch full = watch mem" by (simp add: full_def mark_code_def r mark_code_page_fields)
  then show "note_store a n full = Some full"
    using c assms(3) by (simp add: note_store_def Let_def ucast_low32)
qed

theorem smc_write_reported_witness:
  "page_of 0x11 \<in> set (fst (take_dirty_code (fst (mem_write 0x10 0xFF 4 (mark_code 0 64 demo_memory)))))"
proof -
  have "valid_size 4" "mem_writable demo_memory 0x10 4" by (simp_all add: valid_size_def mem_writable_def)
  from smc_write_reported [OF demo_memory_reachable this, of "0x11" 0 64 "0xFF"] show ?thesis by simp
qed

theorem watched_write_reported_witness:
  "\<exists>rs mem'. take_dirty_ranges (fst (mem_write 0x10 0xFF 4 (watch_range 0 64 demo_memory))) = Some (rs, mem') \<and>
    0x11 \<in> (\<Union>r\<in>set rs. range_bytes r)"
proof -
  have "valid_size 4" "mem_writable demo_memory 0x10 4" by (simp_all add: valid_size_def mem_writable_def)
  from watched_write_reported [OF demo_memory_reachable this, of 0 64 "0xFF"] obtain rs mem' where
    "take_dirty_ranges (fst (mem_write 0x10 0xFF 4 (watch_range 0 64 demo_memory))) = Some (rs, mem')"
    "{x. unat (x - 0x10 :: u64) < 4 \<and> unat (x - 0 :: u64) < unat (64 :: u64)} \<subseteq> (\<Union>r\<in>set rs. range_bytes r)" by auto
  moreover have "0x11 \<in> {x. unat (x - 0x10 :: u64) < 4 \<and> unat (x - 0 :: u64) < unat (64 :: u64)}" by simp
  ultimately show ?thesis by blast
qed

text \<open>
  Property C9: every memory built by the constructors and any sequence of operations keeps the
  invariant: regions in bounds and disjoint, page tables that cover the guest space, watch bookkeeping
  coherent, the dirty flag set exactly when a page is pending; and, where the code-page table has at most
  \<open>TRACKED_WORDS\<close> words (spans of up to 16 TiB less 256 KiB, all but the topmost 63 page counts the constructors admit),
  every code page lies inside the code watermark.
\<close>
theorem reachable_memory_inv:
  assumes "mem_reachable mem"
  shows "mem_inv mem"
  using assms by (rule reachable_inv)

theorem reachable_memory_inv_witness: "mem_inv demo_memory"
  using demo_memory_reachable by (rule reachable_memory_inv)

lemma copy_reads:
  assumes "regions_wf mem" "regions_wf child" "copy_of mem child" "valid_size n"
  shows "snd (mem_read a n child) = snd (mem_read a n mem)"
proof -
  have n: "n \<le> 8" "unat (of_nat n :: u64) = n" using assms(4) by (auto simp: valid_size_def unat_of_nat)
  have l: "lookup_region a n child = lookup_region a n mem" and rf: "region_for a (of_nat n) child = region_for a (of_nat n) mem"
    using assms(3) by (simp_all add: copy_of_def lookup_region_def region_for_def)
  have "le_value (mem_byte child) a n = le_value (mem_byte mem) a n" if r: "region_for a (of_nat n) mem = Some r" for r
  proof -
    note b = region_for_SomeD [OF assms(1) r, unfolded n(2)]
    have ok: "region_ok mem r" using assms(1) b(1) by (simp add: regions_wf_def list_all_iff)
    have "mem_byte child (a + of_nat i) = mem_byte mem (a + of_nat i)" if "i < n" for i
    proof -
      have "unat (a + of_nat i) = unat a + i"
        using b(5) that unat_u64_less [of "mem_size mem"] n by (simp add: unat_word_ariths unat_of_nat)
      then have "region_start r \<le> a + of_nat i" "a + of_nat i < region_end r"
        using b(2,3) that unat_region_end [OF ok] by (simp_all add: word_le_nat_alt word_less_nat_alt)
      then show ?thesis using assms(3) b(1) by (simp add: copy_of_def)
    qed
    then show ?thesis unfolding le_value_def by (intro arg_cong [where f = from_le_bytes] map_cong) simp_all
  qed
  note le = this
  note rd = mem_read_spec(1) [OF assms(1,4), of a] mem_read_spec(1) [OF assms(2,4), of a]
  show ?thesis
  proof (cases "lookup_region a n mem")
    case (Inr r)
    then have "region_for a (of_nat n) mem = Some r" by (simp add: lookup_region_Inr)
    with rd Inr l rf le plain_read_le_value [OF assms(1) n(1)] plain_read_le_value [OF assms(2) n(1)] show ?thesis by simp
  qed (simp add: rd l)
qed

text \<open>
  Property C24: a fork never panics on a reachable memory; it is refused only for host-backed or
  rebased memory, and otherwise every load from the copy returns what the same load from the original
  returns, traps included.
\<close>
theorem deep_copy_reads:
  assumes "mem_reachable mem" "valid_size n"
  shows "deep_copy mem ptr = Some None \<and> (guest_base mem \<noteq> 0 \<or> backing_owner mem \<noteq> Boxed) \<or>
    (\<exists>child. deep_copy mem ptr = Some (Some child) \<and> mem_inv child \<and>
       regions child = regions mem \<and> snd (mem_read a n child) = snd (mem_read a n mem))"
proof -
  have inv: "mem_inv mem" using assms(1) by (rule reachable_inv)
  have "snd (mem_read a n child) = snd (mem_read a n mem)" "regions child = regions mem" if "copy_of mem child" "mem_inv child" for child
    using copy_reads [OF _ _ that(1) assms(2)] inv that by (simp_all add: mem_inv_def copy_of_def)
  with deep_copy_spec [OF inv, of ptr] show ?thesis by blast
qed

theorem deep_copy_reads_witness:
  "\<exists>child. deep_copy demo_memory 0 = Some (Some child) \<and> snd (mem_read 0x10 4 child) = snd (mem_read 0x10 4 demo_memory)"
  using deep_copy_reads [OF demo_memory_reachable, of 4 0 "0x10"] by (auto simp: valid_size_def)

section \<open>Guard pages\<close>

lemma revoke_pages_free:
  assumes "(o', l, acc) \<in> set (revoke_pages k page cap mem)" "r \<in> set (regions mem)"
  shows "acc = False \<and> o' + l \<le> cap \<and> o' < o' + l \<and> \<not> (saturating_sub (region_start r) (guest_base mem) < o' + l \<and>
    o' < saturating_sub (region_end r) (guest_base mem))"
  using assms
proof (induction k arbitrary: page)
  case (Suc k)
  show ?case
  proof (cases "(o', l, acc) \<in> set (revoke_pages k (page + HOST_PAGE) cap mem)")
    case False
    then have "o' = page" "l = min (page + HOST_PAGE) cap - page" "\<not> page_shared page (min (page + HOST_PAGE) cap) mem"
      "acc = False" "page < min (page + HOST_PAGE) cap"
      using Suc.prems(1) by (auto simp: Let_def split: if_splits)
    then show ?thesis using Suc.prems(2) by (auto simp: page_shared_def list_ex_iff)
  qed (use Suc in blast)
qed simp

text \<open>
  Property C25: unmapping a region never makes a host page inaccessible that a region still mapped
  uses.
\<close>
theorem unmap_keeps_live_pages:
  assumes "mem_reachable mem" "unmap a n mem = Inr mem'" "protect_log mem' = protect_log mem @ calls"
    and "(off, l, acc) \<in> set calls" "r \<in> set (regions mem')" "region_start r \<le> x" "x < region_end r"
  shows "\<not> acc \<and> \<not> (off \<le> x - guest_base mem' \<and> x - guest_base mem' < off + l)"
proof -
  have inv: "mem_inv mem'" using assms(1,2) by (blast intro: reachable_inv reach_step step_unmap)
  then have ok: "region_ok mem' r" using assms(5) by (simp add: mem_inv_def regions_wf_def list_all_iff)
  obtain i where m: "mem' = reprotect a n False (mem\<lparr>regions := remove_nth i (regions mem)\<rparr>)" (is "_ = reprotect _ _ _ ?m")
    using assms(2) by (auto simp: unmap_def split: option.splits)
  have "calls = protect_calls a n False ?m \<or> calls = []" using assms(3) m by (auto simp: reprotect_def split: if_splits)
  then obtain k page cap where c: "(off, l, acc) \<in> set (revoke_pages k page cap ?m)"
    using assms(4) by (auto simp: protect_calls_def Let_def split: if_splits)
  have r: "r \<in> set (regions ?m)" and b: "guest_base mem' = guest_base ?m" using assms(5) m by (simp_all add: reprotect_def split: if_splits)
  have s: "saturating_sub (region_start r) (guest_base ?m) = region_start r - guest_base ?m"
    "saturating_sub (region_end r) (guest_base ?m) = region_end r - guest_base ?m"
    and u: "region_start r - guest_base ?m \<le> x - guest_base ?m" "x - guest_base ?m < region_end r - guest_base ?m"
    using ok assms(6,7) b by (auto simp: region_ok_def saturating_sub_def word_le_nat_alt word_less_nat_alt unat_sub)
  from revoke_pages_free [OF c r] s u b show ?thesis by auto
qed

text \<open>A host mapping with a protection callback and two regions that share the host page at \<open>0x1000\<close>.\<close>

definition guarded_memory :: Memory where
  "guarded_memory =
     projr (the (mem_map 0x1800 0x1800 ProtRW Ram
       (projr (the (mem_map 0 0x1800 ProtRW Ram (the (from_host_ram (Flat 0x3000) (\<lambda>_. 0) 0x3000 0 True 0)))))))"

lemma guarded_memory_reachable: "mem_reachable guarded_memory"
proof -
  obtain m0 where m0: "from_host_ram (Flat 0x3000) (\<lambda>_. 0) 0x3000 0 True 0 = Some m0"
    by (auto simp: from_host_ram_def from_backing_def fresh_code_pages_def MAX_TRACKED_SPAN_def CODE_PAGE_BITS_def saturating_add_def)
  have f: "model m0 = Flat 0x3000" "regions m0 = []" "guest_base m0 = 0"
    using m0 by (auto simp: from_host_ram_def from_backing_def bind_eq_Some_conv Let_def)
  obtain m1 where m1: "mem_map 0 0x1800 ProtRW Ram m0 = Some (Inr m1)"
    by (simp add: mem_map_def f mem_size_def checked_add_def)
  then have f1: "model m1 = Flat 0x3000" "guest_base m1 = 0"
    "regions m1 = [\<lparr>region_start = 0, region_size = 0x1800, region_prot = ProtRW, region_kind = Ram\<rparr>]"
    by (auto simp: mem_map_def f mem_size_def checked_add_def reprotect_def split: if_splits)
  obtain m2 where m2: "mem_map 0x1800 0x1800 ProtRW Ram m1 = Some (Inr m2)"
    by (simp add: mem_map_def f1 mem_size_def checked_add_def region_end_def)
  have "guarded_memory = m2" by (simp add: guarded_memory_def m0 m1 m2)
  moreover have "mem_reachable m0" using m0 by (rule reach_host) simp
  ultimately show ?thesis using m1 m2 by (blast intro: reach_step step_map)
qed

lemma guarded_memory_fields:
  "regions guarded_memory =
     [\<lparr>region_start = 0, region_size = 0x1800, region_prot = ProtRW, region_kind = Ram\<rparr>,
      \<lparr>region_start = 0x1800, region_size = 0x1800, region_prot = ProtRW, region_kind = Ram\<rparr>]"
  "guest_base guarded_memory = 0" "backing_owner guarded_memory = Host True" "backing_len guarded_memory = 0x3000"
  by (simp_all add: guarded_memory_def from_host_ram_def from_backing_def fresh_code_pages_def MAX_TRACKED_SPAN_def
      CODE_PAGE_BITS_def mem_map_def mem_size_def reprotect_def checked_add_def saturating_add_def region_end_def)

theorem unmap_keeps_live_pages_witness:
  "\<exists>mem'. unmap 0x1800 0x1800 guarded_memory = Inr mem' \<and>
     protect_log mem' = protect_log guarded_memory @ [(0x2000, 0x1000, False)] \<and>
     \<not> (0x2000 \<le> 0x17FF - guest_base mem' \<and> 0x17FF - guest_base mem' < 0x2000 + 0x1000)"
proof -
  let ?m = "guarded_memory\<lparr>regions := [\<lparr>region_start = 0, region_size = 0x1800, region_prot = ProtRW, region_kind = Ram\<rparr>]\<rparr>"
  have two: "revoke_pages 2 = revoke_pages (Suc (Suc 0))" by (simp add: numeral_2_eq_2)
  have c: "protect_calls 0x1800 0x1800 False ?m = [(0x2000, 0x1000, False)]"
    by (simp add: protect_calls_def Let_def guarded_memory_fields saturating_add_def saturating_sub_def HOST_PAGE_def div_ceil_def
        two page_shared_def region_end_def)
  have u: "unmap 0x1800 0x1800 guarded_memory = Inr (reprotect 0x1800 0x1800 False ?m)"
    by (simp add: unmap_def guarded_memory_fields remove_nth_def)
  have p: "protect_log (reprotect 0x1800 0x1800 False ?m) = protect_log guarded_memory @ [(0x2000, 0x1000, False)]"
    by (simp add: reprotect_def c guarded_memory_fields)
  show ?thesis
    using unmap_keeps_live_pages [OF guarded_memory_reachable u p, where off = "0x2000" and l = "0x1000" and acc = False and x = "0x17FF" and
      r = "\<lparr>region_start = 0, region_size = 0x1800, region_prot = ProtRW, region_kind = Ram\<rparr>"] u p
    by (simp add: reprotect_def region_end_def split: if_splits)
qed

end
