(* ===== verification/X86_Crypto.thy ===== *)
theory X86_Crypto
  imports X86_Memory
begin

text \<open>
  The cryptographic primitives the interpreter and the JIT share: AES rounds (\<^verbatim>\<open>aes.rs\<close>), SHA-1 and SHA-256 steps
  (\<^verbatim>\<open>sha.rs\<close>), GF(2^8) arithmetic (\<^verbatim>\<open>gfni.rs\<close>) and the carry-less product (\<^verbatim>\<open>pclmul.rs\<close>).  An array of
  the source is a list of its length; every index is within it by construction.
\<close>

unbundle bit_operations_syntax

section \<open>AES\<close>

definition SBOX :: "u8 list" where
  "SBOX =
     [0x63, 0x7c, 0x77, 0x7b, 0xf2, 0x6b, 0x6f, 0xc5, 0x30, 0x01, 0x67, 0x2b, 0xfe, 0xd7, 0xab, 0x76,
      0xca, 0x82, 0xc9, 0x7d, 0xfa, 0x59, 0x47, 0xf0, 0xad, 0xd4, 0xa2, 0xaf, 0x9c, 0xa4, 0x72, 0xc0,
      0xb7, 0xfd, 0x93, 0x26, 0x36, 0x3f, 0xf7, 0xcc, 0x34, 0xa5, 0xe5, 0xf1, 0x71, 0xd8, 0x31, 0x15,
      0x04, 0xc7, 0x23, 0xc3, 0x18, 0x96, 0x05, 0x9a, 0x07, 0x12, 0x80, 0xe2, 0xeb, 0x27, 0xb2, 0x75,
      0x09, 0x83, 0x2c, 0x1a, 0x1b, 0x6e, 0x5a, 0xa0, 0x52, 0x3b, 0xd6, 0xb3, 0x29, 0xe3, 0x2f, 0x84,
      0x53, 0xd1, 0x00, 0xed, 0x20, 0xfc, 0xb1, 0x5b, 0x6a, 0xcb, 0xbe, 0x39, 0x4a, 0x4c, 0x58, 0xcf,
      0xd0, 0xef, 0xaa, 0xfb, 0x43, 0x4d, 0x33, 0x85, 0x45, 0xf9, 0x02, 0x7f, 0x50, 0x3c, 0x9f, 0xa8,
      0x51, 0xa3, 0x40, 0x8f, 0x92, 0x9d, 0x38, 0xf5, 0xbc, 0xb6, 0xda, 0x21, 0x10, 0xff, 0xf3, 0xd2,
      0xcd, 0x0c, 0x13, 0xec, 0x5f, 0x97, 0x44, 0x17, 0xc4, 0xa7, 0x7e, 0x3d, 0x64, 0x5d, 0x19, 0x73,
      0x60, 0x81, 0x4f, 0xdc, 0x22, 0x2a, 0x90, 0x88, 0x46, 0xee, 0xb8, 0x14, 0xde, 0x5e, 0x0b, 0xdb,
      0xe0, 0x32, 0x3a, 0x0a, 0x49, 0x06, 0x24, 0x5c, 0xc2, 0xd3, 0xac, 0x62, 0x91, 0x95, 0xe4, 0x79,
      0xe7, 0xc8, 0x37, 0x6d, 0x8d, 0xd5, 0x4e, 0xa9, 0x6c, 0x56, 0xf4, 0xea, 0x65, 0x7a, 0xae, 0x08,
      0xba, 0x78, 0x25, 0x2e, 0x1c, 0xa6, 0xb4, 0xc6, 0xe8, 0xdd, 0x74, 0x1f, 0x4b, 0xbd, 0x8b, 0x8a,
      0x70, 0x3e, 0xb5, 0x66, 0x48, 0x03, 0xf6, 0x0e, 0x61, 0x35, 0x57, 0xb9, 0x86, 0xc1, 0x1d, 0x9e,
      0xe1, 0xf8, 0x98, 0x11, 0x69, 0xd9, 0x8e, 0x94, 0x9b, 0x1e, 0x87, 0xe9, 0xce, 0x55, 0x28, 0xdf,
      0x8c, 0xa1, 0x89, 0x0d, 0xbf, 0xe6, 0x42, 0x68, 0x41, 0x99, 0x2d, 0x0f, 0xb0, 0x54, 0xbb, 0x16]"

definition INV_SBOX :: "u8 list" where
  "INV_SBOX =
     [0x52, 0x09, 0x6a, 0xd5, 0x30, 0x36, 0xa5, 0x38, 0xbf, 0x40, 0xa3, 0x9e, 0x81, 0xf3, 0xd7, 0xfb,
      0x7c, 0xe3, 0x39, 0x82, 0x9b, 0x2f, 0xff, 0x87, 0x34, 0x8e, 0x43, 0x44, 0xc4, 0xde, 0xe9, 0xcb,
      0x54, 0x7b, 0x94, 0x32, 0xa6, 0xc2, 0x23, 0x3d, 0xee, 0x4c, 0x95, 0x0b, 0x42, 0xfa, 0xc3, 0x4e,
      0x08, 0x2e, 0xa1, 0x66, 0x28, 0xd9, 0x24, 0xb2, 0x76, 0x5b, 0xa2, 0x49, 0x6d, 0x8b, 0xd1, 0x25,
      0x72, 0xf8, 0xf6, 0x64, 0x86, 0x68, 0x98, 0x16, 0xd4, 0xa4, 0x5c, 0xcc, 0x5d, 0x65, 0xb6, 0x92,
      0x6c, 0x70, 0x48, 0x50, 0xfd, 0xed, 0xb9, 0xda, 0x5e, 0x15, 0x46, 0x57, 0xa7, 0x8d, 0x9d, 0x84,
      0x90, 0xd8, 0xab, 0x00, 0x8c, 0xbc, 0xd3, 0x0a, 0xf7, 0xe4, 0x58, 0x05, 0xb8, 0xb3, 0x45, 0x06,
      0xd0, 0x2c, 0x1e, 0x8f, 0xca, 0x3f, 0x0f, 0x02, 0xc1, 0xaf, 0xbd, 0x03, 0x01, 0x13, 0x8a, 0x6b,
      0x3a, 0x91, 0x11, 0x41, 0x4f, 0x67, 0xdc, 0xea, 0x97, 0xf2, 0xcf, 0xce, 0xf0, 0xb4, 0xe6, 0x73,
      0x96, 0xac, 0x74, 0x22, 0xe7, 0xad, 0x35, 0x85, 0xe2, 0xf9, 0x37, 0xe8, 0x1c, 0x75, 0xdf, 0x6e,
      0x47, 0xf1, 0x1a, 0x71, 0x1d, 0x29, 0xc5, 0x89, 0x6f, 0xb7, 0x62, 0x0e, 0xaa, 0x18, 0xbe, 0x1b,
      0xfc, 0x56, 0x3e, 0x4b, 0xc6, 0xd2, 0x79, 0x20, 0x9a, 0xdb, 0xc0, 0xfe, 0x78, 0xcd, 0x5a, 0xf4,
      0x1f, 0xdd, 0xa8, 0x33, 0x88, 0x07, 0xc7, 0x31, 0xb1, 0x12, 0x10, 0x59, 0x27, 0x80, 0xec, 0x5f,
      0x60, 0x51, 0x7f, 0xa9, 0x19, 0xb5, 0x4a, 0x0d, 0x2d, 0xe5, 0x7a, 0x9f, 0x93, 0xc9, 0x9c, 0xef,
      0xa0, 0xe0, 0x3b, 0x4d, 0xae, 0x2a, 0xf5, 0xb0, 0xc8, 0xeb, 0xbb, 0x3c, 0x83, 0x53, 0x99, 0x61,
      0x17, 0x2b, 0x04, 0x7e, 0xba, 0x77, 0xd6, 0x26, 0xe1, 0x69, 0x14, 0x63, 0x55, 0x21, 0x0c, 0x7d]"

definition SHIFT_ROWS :: "nat list" where
  "SHIFT_ROWS = [0, 5, 10, 15, 4, 9, 14, 3, 8, 13, 2, 7, 12, 1, 6, 11]"

definition INV_SHIFT_ROWS :: "nat list" where
  "INV_SHIFT_ROWS = [0, 13, 10, 7, 4, 1, 14, 11, 8, 5, 2, 15, 12, 9, 6, 3]"

definition to_bytes :: "u128 \<Rightarrow> u8 list" where
  "to_bytes x = to_le_bytes 16 x"

definition from_bytes :: "u8 list \<Rightarrow> u128" where
  "from_bytes b = from_le_bytes b"

definition xtime :: "u8 \<Rightarrow> u8" where
  "xtime a = (let hi = a AND 0x80; s = push_bit 1 a in if hi \<noteq> 0 then s XOR 0x1b else s)"

fun gmul_loop :: "nat \<Rightarrow> u8 \<Rightarrow> u8 \<Rightarrow> u8 \<Rightarrow> u8" where
  "gmul_loop 0 a b p = p"
| "gmul_loop (Suc k) a b p =
     gmul_loop k (xtime a) (drop_bit 1 b) (if b AND 1 \<noteq> 0 then p XOR a else p)"

definition gmul :: "u8 \<Rightarrow> u8 \<Rightarrow> u8" where
  "gmul a b = gmul_loop 8 a b 0"

definition sub_bytes :: "u8 list \<Rightarrow> u8 list" where
  "sub_bytes s = map (\<lambda>i. SBOX ! unat (s ! i)) [0..<16]"

definition inv_sub_bytes :: "u8 list \<Rightarrow> u8 list" where
  "inv_sub_bytes s = map (\<lambda>i. INV_SBOX ! unat (s ! i)) [0..<16]"

definition shift_rows :: "u8 list \<Rightarrow> u8 list" where
  "shift_rows s = map (\<lambda>i. s ! (SHIFT_ROWS ! i)) [0..<16]"

definition inv_shift_rows :: "u8 list \<Rightarrow> u8 list" where
  "inv_shift_rows s = map (\<lambda>i. s ! (INV_SHIFT_ROWS ! i)) [0..<16]"

text \<open>The column step of \<^verbatim>\<open>mix_columns\<close> on the four bytes of a column.\<close>

definition mix_column :: "u8 \<Rightarrow> u8 \<Rightarrow> u8 \<Rightarrow> u8 \<Rightarrow> u8 list" where
  "mix_column s0 s1 s2 s3 =
     [xtime s0 XOR (xtime s1 XOR s1) XOR s2 XOR s3,
      s0 XOR xtime s1 XOR (xtime s2 XOR s2) XOR s3,
      s0 XOR s1 XOR xtime s2 XOR (xtime s3 XOR s3),
      (xtime s0 XOR s0) XOR s1 XOR s2 XOR xtime s3]"

definition inv_mix_column :: "u8 \<Rightarrow> u8 \<Rightarrow> u8 \<Rightarrow> u8 \<Rightarrow> u8 list" where
  "inv_mix_column s0 s1 s2 s3 =
     [gmul s0 14 XOR gmul s1 11 XOR gmul s2 13 XOR gmul s3 9,
      gmul s0 9 XOR gmul s1 14 XOR gmul s2 11 XOR gmul s3 13,
      gmul s0 13 XOR gmul s1 9 XOR gmul s2 14 XOR gmul s3 11,
      gmul s0 11 XOR gmul s1 13 XOR gmul s2 9 XOR gmul s3 14]"

definition per_column :: "(u8 \<Rightarrow> u8 \<Rightarrow> u8 \<Rightarrow> u8 \<Rightarrow> u8 list) \<Rightarrow> u8 list \<Rightarrow> u8 list" where
  "per_column f s =
     concat (map (\<lambda>c. let b = c * 4 in f (s ! b) (s ! (b + 1)) (s ! (b + 2)) (s ! (b + 3))) [0..<4])"

definition mix_columns :: "u8 list \<Rightarrow> u8 list" where
  "mix_columns s = per_column mix_column s"

definition inv_mix_columns :: "u8 list \<Rightarrow> u8 list" where
  "inv_mix_columns s = per_column inv_mix_column s"

definition aes_enc :: "u128 \<Rightarrow> u128 \<Rightarrow> u128" where
  "aes_enc state rk =
     (let t = mix_columns (shift_rows (sub_bytes (to_bytes state))) in from_bytes t XOR rk)"

definition aes_enc_last :: "u128 \<Rightarrow> u128 \<Rightarrow> u128" where
  "aes_enc_last state rk = (let t = shift_rows (sub_bytes (to_bytes state)) in from_bytes t XOR rk)"

definition aes_dec :: "u128 \<Rightarrow> u128 \<Rightarrow> u128" where
  "aes_dec state rk =
     (let t = inv_mix_columns (inv_sub_bytes (inv_shift_rows (to_bytes state))) in from_bytes t XOR rk)"

definition aes_dec_last :: "u128 \<Rightarrow> u128 \<Rightarrow> u128" where
  "aes_dec_last state rk =
     (let t = inv_shift_rows (inv_sub_bytes (to_bytes state)) in from_bytes t XOR rk)"

definition aes_imc :: "u128 \<Rightarrow> u128" where
  "aes_imc x = from_bytes (inv_mix_columns (to_bytes x))"

definition aes_keygen :: "u128 \<Rightarrow> u8 \<Rightarrow> u128" where
  "aes_keygen x imm =
     (let dw = (\<lambda>i. ucast (drop_bit (32 * i) x) :: u32);
          sub_word = (\<lambda>w :: u32. let b = to_le_bytes 4 w
             in from_le_bytes [SBOX ! unat (b ! 0), SBOX ! unat (b ! 1), SBOX ! unat (b ! 2), SBOX ! unat (b ! 3)] :: u32);
          rot_word = (\<lambda>w :: u32. word_rotr 8 w);
          sw1 = sub_word (dw 1);
          sw3 = sub_word (dw 3);
          rcon = ucast imm;
          r0 = sw1;
          r1 = rot_word sw1 XOR rcon;
          r2 = sw3;
          r3 = rot_word sw3 XOR rcon
      in ucast r0 OR push_bit 32 (ucast r1) OR push_bit 64 (ucast r2) OR push_bit 96 (ucast r3))"

section \<open>SHA\<close>

definition dwords :: "u128 \<Rightarrow> u32 list" where
  "dwords x = [ucast x, ucast (drop_bit 32 x), ucast (drop_bit 64 x), ucast (drop_bit 96 x)]"

definition from_dwords :: "u32 list \<Rightarrow> u128" where
  "from_dwords d =
     ucast (d ! 0) OR push_bit 32 (ucast (d ! 1)) OR push_bit 64 (ucast (d ! 2)) OR push_bit 96 (ucast (d ! 3))"

definition ch :: "u32 \<Rightarrow> u32 \<Rightarrow> u32 \<Rightarrow> u32" where
  "ch x y z = (x AND y) XOR (NOT x AND z)"

definition maj :: "u32 \<Rightarrow> u32 \<Rightarrow> u32 \<Rightarrow> u32" where
  "maj x y z = (x AND y) XOR (x AND z) XOR (y AND z)"

definition big_sigma0 :: "u32 \<Rightarrow> u32" where
  "big_sigma0 x = word_rotr 2 x XOR word_rotr 13 x XOR word_rotr 22 x"

definition big_sigma1 :: "u32 \<Rightarrow> u32" where
  "big_sigma1 x = word_rotr 6 x XOR word_rotr 11 x XOR word_rotr 25 x"

definition small_sigma0 :: "u32 \<Rightarrow> u32" where
  "small_sigma0 x = word_rotr 7 x XOR word_rotr 18 x XOR drop_bit 3 x"

definition small_sigma1 :: "u32 \<Rightarrow> u32" where
  "small_sigma1 x = word_rotr 17 x XOR word_rotr 19 x XOR drop_bit 10 x"

text \<open>The loop over the two words of \<^verbatim>\<open>sha256rnds2\<close>; the working variables are \<open>(a, b, c, d, e, f, g, h)\<close>.\<close>

type_synonym sha256_vars = "u32 \<times> u32 \<times> u32 \<times> u32 \<times> u32 \<times> u32 \<times> u32 \<times> u32"

fun sha256_loop :: "u32 list \<Rightarrow> sha256_vars \<Rightarrow> sha256_vars" where
  "sha256_loop [] v = v"
| "sha256_loop (wk # ws) (a, b, c, d, e, f, g, h) =
     (let t1 = h + big_sigma1 e + ch e f g + wk;
          t2 = big_sigma0 a + maj a b c
      in sha256_loop ws (t1 + t2, a, b, c, d + t1, e, f, g))"

definition sha256rnds2 :: "u128 \<Rightarrow> u128 \<Rightarrow> u128 \<Rightarrow> u128" where
  "sha256rnds2 dst src wk =
     (let s = dwords src; d = dwords dst; w = dwords wk;
          (a, b, c, dd, e, f, g, h) =
            sha256_loop [w ! 0, w ! 1] (s ! 3, s ! 2, d ! 3, d ! 2, s ! 1, s ! 0, d ! 1, d ! 0)
      in from_dwords [f, e, b, a])"

definition sha256msg1 :: "u128 \<Rightarrow> u128 \<Rightarrow> u128" where
  "sha256msg1 dst src =
     (let w = dwords dst; s = dwords src; w4 = s ! 0
      in from_dwords
           [w ! 0 + small_sigma0 (w ! 1), w ! 1 + small_sigma0 (w ! 2),
            w ! 2 + small_sigma0 (w ! 3), w ! 3 + small_sigma0 w4])"

definition sha256msg2 :: "u128 \<Rightarrow> u128 \<Rightarrow> u128" where
  "sha256msg2 dst src =
     (let w = dwords dst; s = dwords src;
          w16 = w ! 0 + small_sigma1 (s ! 2);
          w17 = w ! 1 + small_sigma1 (s ! 3);
          w18 = w ! 2 + small_sigma1 w16;
          w19 = w ! 3 + small_sigma1 w17
      in from_dwords [w16, w17, w18, w19])"

definition f0_ch :: "u32 \<Rightarrow> u32 \<Rightarrow> u32 \<Rightarrow> u32" where
  "f0_ch b c d = (b AND c) OR (NOT b AND d)"

definition f1_parity :: "u32 \<Rightarrow> u32 \<Rightarrow> u32 \<Rightarrow> u32" where
  "f1_parity b c d = b XOR c XOR d"

definition f2_maj :: "u32 \<Rightarrow> u32 \<Rightarrow> u32 \<Rightarrow> u32" where
  "f2_maj b c d = (b AND c) OR (b AND d) OR (c AND d)"

definition sha1_f :: "u8 \<Rightarrow> u32 \<Rightarrow> u32 \<Rightarrow> u32 \<Rightarrow> u32 \<times> u32" where
  "sha1_f sel b c d =
     (if sel AND 3 = 0 then (f0_ch b c d, 0x5A827999)
      else if sel AND 3 = 1 then (f1_parity b c d, 0x6ED9EBA1)
      else if sel AND 3 = 2 then (f2_maj b c d, 0x8F1BBCDC)
      else (f1_parity b c d, 0xCA62C1D6))"

text \<open>The loop of \<^verbatim>\<open>sha1rnds4\<close>; \<open>i\<close> is the round, \<open>e\<close> is not added in round 0.\<close>

fun sha1_loop :: "u8 \<Rightarrow> nat \<Rightarrow> u32 list \<Rightarrow> u32 \<times> u32 \<times> u32 \<times> u32 \<times> u32 \<Rightarrow> u32 \<times> u32 \<times> u32 \<times> u32 \<times> u32" where
  "sha1_loop imm i [] v = v"
| "sha1_loop imm i (w # ws) (a, b, c, d, e) =
     (let (fval, k) = sha1_f imm b c d;
          t = fval + word_rotl 5 a + w + k;
          t = (if i \<noteq> 0 then t + e else t)
      in sha1_loop imm (Suc i) ws (t, a, word_rotl 30 b, c, d))"

definition sha1rnds4 :: "u128 \<Rightarrow> u128 \<Rightarrow> u8 \<Rightarrow> u128" where
  "sha1rnds4 dst src imm =
     (let x = dwords dst; w = dwords src;
          (a, b, c, d, e) = sha1_loop imm 0 [w ! 3, w ! 2, w ! 1, w ! 0] (x ! 3, x ! 2, x ! 1, x ! 0, 0)
      in from_dwords [d, c, b, a])"

definition sha1nexte :: "u128 \<Rightarrow> u128 \<Rightarrow> u128" where
  "sha1nexte dst src =
     (let x = dwords dst; s = dwords src; tmp = word_rotl 30 (x ! 3)
      in from_dwords [s ! 0, s ! 1, s ! 2, s ! 3 + tmp])"

definition sha1msg1 :: "u128 \<Rightarrow> u128 \<Rightarrow> u128" where
  "sha1msg1 dst src =
     (let x = dwords dst; s = dwords src
      in from_dwords [x ! 0 XOR s ! 2, x ! 1 XOR s ! 3, x ! 2 XOR x ! 0, x ! 3 XOR x ! 1])"

definition sha1msg2 :: "u128 \<Rightarrow> u128 \<Rightarrow> u128" where
  "sha1msg2 dst src =
     (let x = dwords dst; s = dwords src;
          w16 = word_rotl 1 (x ! 3 XOR s ! 2);
          w17 = word_rotl 1 (x ! 2 XOR s ! 1);
          w18 = word_rotl 1 (x ! 1 XOR s ! 0);
          w19 = word_rotl 1 (x ! 0 XOR w16)
      in from_dwords [w19, w18, w17, w16])"

section \<open>GF(2^8)\<close>

text \<open>One slot of \<^verbatim>\<open>gf_inv_lut\<close>: the first \<open>b\<close> from 1 up with \<open>gmul a b = 1\<close>; slot 0 and a failed search stay 0.\<close>

definition gf_inv_slot :: "u8 \<Rightarrow> u8" where
  "gf_inv_slot a = (case find (\<lambda>b. gmul a b = 1) (map of_nat [1..<256]) of Some b \<Rightarrow> b | None \<Rightarrow> 0)"

definition gf_inv_lut :: "u8 list" where
  "gf_inv_lut = 0 # map (\<lambda>a. gf_inv_slot (of_nat a)) [1..<256]"

definition gf_inv :: "u8 \<Rightarrow> u8" where
  "gf_inv a = gf_inv_lut ! unat a"

definition gf2p8mulb :: "u128 \<Rightarrow> u128 \<Rightarrow> u128" where
  "gf2p8mulb a b =
     (let ab = to_le_bytes 16 a; bb = to_le_bytes 16 b
      in from_le_bytes (map (\<lambda>i. gmul (ab ! i) (bb ! i)) [0..<16]))"

definition affine_bit :: "u8 list \<Rightarrow> u8 \<Rightarrow> u8 \<Rightarrow> nat \<Rightarrow> u8 \<Rightarrow> u8" where
  "affine_bit qw x imm i ret =
     (let row = qw ! (7 - i);
          parity = of_nat (count_ones (row AND x)) AND (1 :: u32)
      in ret OR push_bit i (ucast parity XOR (drop_bit i imm AND 1)))"

definition affine_byte :: "u8 list \<Rightarrow> u8 \<Rightarrow> u8 \<Rightarrow> u8" where
  "affine_byte qw x imm = fold (affine_bit qw x imm) [0..<8] 0"

definition qwords :: "u128 \<Rightarrow> u8 list list" where
  "qwords v = (let b = to_le_bytes 16 v in [take 8 b, drop 8 b])"

definition gf2p8affineqb :: "u128 \<Rightarrow> u128 \<Rightarrow> u8 \<Rightarrow> u128" where
  "gf2p8affineqb x mat imm =
     (let xb = to_le_bytes 16 x; q = qwords mat
      in from_le_bytes (map (\<lambda>i. affine_byte (q ! (i div 8)) (xb ! i) imm) [0..<16]))"

definition gf2p8affineinvqb :: "u128 \<Rightarrow> u128 \<Rightarrow> u8 \<Rightarrow> u128" where
  "gf2p8affineinvqb x mat imm =
     (let xb = to_le_bytes 16 x; q = qwords mat
      in from_le_bytes (map (\<lambda>i. affine_byte (q ! (i div 8)) (gf_inv (xb ! i)) imm) [0..<16]))"

section \<open>Carry-less product\<close>

definition pclmul_step :: "u64 \<Rightarrow> u64 \<Rightarrow> nat \<Rightarrow> u128 \<Rightarrow> u128" where
  "pclmul_step x y i result = (if drop_bit i y AND 1 \<noteq> 0 then result XOR push_bit i (ucast x) else result)"

definition pclmul :: "u128 \<Rightarrow> u128 \<Rightarrow> u8 \<Rightarrow> u128" where
  "pclmul a b imm =
     (let x = (if imm AND 0x01 \<noteq> 0 then ucast (drop_bit 64 a) else ucast a) :: u64;
          y = (if imm AND 0x10 \<noteq> 0 then ucast (drop_bit 64 b) else ucast b) :: u64
      in fold (pclmul_step x y) [0..<64] 0)"

end
