(* ===== verification/X86_Crypto_Correct.thy ===== *)
theory X86_Crypto_Correct
  imports X86_Crypto X86_Mem_Access
begin

text \<open>
  Correctness of the cryptographic primitives: GF(2^8) is a field under \<^verbatim>\<open>gmul\<close>,
  the S-box is the affine image of the inverse, AES rounds are inverted by the decryption instructions,
  the SHA-256 instructions run the rounds and the schedule of FIPS 180-4, and the carry-less product is
  the polynomial product.
\<close>

unbundle bit_operations_syntax

section \<open>GF(2^8)\<close>

lemmas xor_cancel = xor.assoc xor.commute xor.left_commute

lemma xtime_alt: "xtime a = push_bit 1 a XOR (if bit a 7 then 0x1b else 0)"
proof -
  have "a AND 0x80 = 0 \<longleftrightarrow> \<not> bit a 7" using and_exp_eq_0 [of a 7] by simp
  then show ?thesis by (simp add: xtime_def Let_def del: push_bit_of_1)
qed

lemma xtime_xor: "xtime (a XOR b) = xtime a XOR xtime b"
  unfolding xtime_alt push_bit_xor by (auto simp: bit_xor_iff xor_cancel simp del: One_nat_def)

lemma xtime_0 [simp]: "xtime 0 = 0"
  by (simp add: xtime_def)

text \<open>The product without its accumulator: the sum of \<open>xtime\<^sup>i a\<close> over the bits of the second factor.\<close>

fun gsum :: "nat \<Rightarrow> u8 \<Rightarrow> u8 \<Rightarrow> u8" where
  "gsum 0 a b = 0"
| "gsum (Suc k) a b = (if bit b 0 then a else 0) XOR gsum k (xtime a) (drop_bit 1 b)"

lemma gmul_loop_gsum: "gmul_loop k a b p = p XOR gsum k a b"
  by (induction k a b p rule: gmul_loop.induct) (auto simp: and_one_eq bit_0 odd_iff_mod_2_eq_one xor_cancel)

lemma gmul_gsum: "gmul a b = gsum 8 a b"
  by (simp add: gmul_def gmul_loop_gsum)

lemma gsum_xor_left: "gsum k (a XOR a') b = gsum k a b XOR gsum k a' b"
  by (induction k arbitrary: a a' b) (simp_all add: xtime_xor xor_cancel)

lemma gsum_xor_right: "gsum k a (b XOR b') = gsum k a b XOR gsum k a b'"
  by (induction k arbitrary: a b b') (auto simp: bit_xor_iff xor_cancel)

lemma gsum_0 [simp]: "gsum k a 0 = 0" "gsum k 0 b = 0"
  by (induction k arbitrary: a b) simp_all

lemma gsum_xtime: "gsum k (xtime a) b = xtime (gsum k a b)"
  by (induction k arbitrary: a b) (simp_all add: xtime_xor)

text \<open>Two additive functions agree when they agree on the eight single bits.\<close>

lemma additive_eqI:
  fixes f g :: "u8 \<Rightarrow> 'b::len word"
  assumes "\<And>a b. f (a XOR b) = f a XOR f b" "\<And>a b. g (a XOR b) = g a XOR g b"
    and "list_all (\<lambda>i. f (2 ^ i) = g (2 ^ i)) [0..<8]"
  shows "f a = g a"
proof -
  have z: "f 0 = 0" "g 0 = 0" using assms(1) [of 0 0] assms(2) [of 0 0] by simp_all
  have b: "f (2 ^ i) = g (2 ^ i)" if "i < 8" for i using assms(3) that by (simp add: list_all_iff)
  have "f (take_bit k a) = g (take_bit k a)" if "k \<le> 8" for k
    using that
  proof (induction k)
    case (Suc k)
    have "take_bit (Suc k) a = take_bit k a XOR (if bit a k then 2 ^ k else 0)"
      by (auto intro!: bit_word_eqI simp: bit_simps less_Suc_eq)
    with Suc b [of k] show ?case by (simp add: assms(1,2) z)
  qed (simp add: z)
  moreover have "take_bit 8 a = a" by (auto intro!: bit_word_eqI simp: bit_simps)
  ultimately show ?thesis by (metis order_refl)
qed

lemma gsum_take: "gsum k a (take_bit n b) = gsum k a b" if "k \<le> n"
  using that
proof (induction k arbitrary: a b n)
  case (Suc k)
  then have "drop_bit 1 (take_bit n b) = take_bit (n - 1) (drop_bit 1 b)" by (simp add: drop_bit_take_bit)
  with Suc show ?case by (simp add: bit_take_bit_iff)
qed simp

lemma gsum_snoc: "gsum (Suc k) a b = gsum k a b XOR (if bit b k then (xtime ^^ k) a else 0)"
proof (induction k arbitrary: a b)
  case (Suc k)
  have "gsum (Suc (Suc k)) a b = (if bit b 0 then a else 0) XOR gsum (Suc k) (xtime a) (drop_bit 1 b)" by (simp only: gsum.simps)
  also have "\<dots> = (if bit b 0 then a else 0) XOR (gsum k (xtime a) (drop_bit 1 b) XOR
      (if bit (drop_bit 1 b) k then (xtime ^^ k) (xtime a) else 0))"
    unfolding Suc.IH [of "xtime a" "drop_bit 1 b"] ..
  also have "\<dots> = gsum (Suc k) a b XOR (if bit b (Suc k) then (xtime ^^ Suc k) a else 0)"
    by (simp add: bit_drop_bit_eq funpow_swap1 xor.assoc)
  finally show ?case .
qed simp

lemma xtime_eval: "a AND 0x80 = 0 \<Longrightarrow> xtime a = 2 * a" "a AND 0x80 \<noteq> 0 \<Longrightarrow> xtime a = (2 * a) XOR 0x1b"
  by (simp_all add: xtime_def mult.commute)

lemma gsum_eval: "gsum (numeral k) a b = (if bit b 0 then a else 0) XOR gsum (pred_numeral k) (xtime a) (drop_bit 1 b)"
  by (simp add: numeral_eq_Suc)

lemma funpow_numeral: "(f ^^ numeral k) x = f ((f ^^ pred_numeral k) x)"
  by (simp add: numeral_eq_Suc)

lemma upt_8: "[0..<8] = [0, 1, 2, 3, 4, 5, 6, 7]"
  by code_simp

lemma xtime_pow_xor: "(xtime ^^ n) (a XOR b) = (xtime ^^ n) a XOR (xtime ^^ n) b"
  by (induction n) (simp_all add: xtime_xor)

lemma xtime_poly: "gsum 8 a 0x1b = (xtime ^^ 8) a"
proof (rule additive_eqI [where f = "\<lambda>a. gsum 8 a 0x1b" and g = "xtime ^^ 8"])
  show "list_all (\<lambda>i. gsum 8 (2 ^ i) 0x1b = (xtime ^^ 8) (2 ^ i)) [0..<8]"
    by (simp add: upt_8 gsum_eval funpow_numeral xtime_eval)
qed (simp_all add: gsum_xor_left xtime_pow_xor)

lemma gmul_xtime_right: "gmul a (xtime b) = xtime (gmul a b)"
proof -
  have "drop_bit 1 (push_bit 1 b) = take_bit 7 b" by (auto intro!: bit_word_eqI simp: bit_simps simp del: push_bit_of_1)
  moreover have "\<not> bit (push_bit 1 b) 0" by (simp add: bit_push_bit_iff del: push_bit_of_1)
  ultimately have s: "gsum (Suc 7) a (push_bit 1 b) = gsum 7 (xtime a) b"
    using gsum_take [of 7 7 "xtime a" b] by (simp only: gsum.simps if_False xor.left_neutral order_refl)
  have e: "(xtime ^^ Suc 7) a = (xtime ^^ 7) (xtime a)" by (simp only: funpow_Suc_right comp_apply)
  have "gsum (Suc 7) a (xtime b) = gsum (Suc 7) (xtime a) b"
    unfolding xtime_alt [of b] gsum_xor_right s gsum_snoc [of 7 "xtime a" b] using xtime_poly [of a] e by simp
  then show ?thesis by (simp add: gmul_gsum gsum_xtime)
qed

lemma gmul_distrib: "gmul (a XOR a') b = gmul a b XOR gmul a' b" "gmul a (b XOR b') = gmul a b XOR gmul a b'"
  by (simp_all add: gmul_gsum gsum_xor_left gsum_xor_right)

lemma gmul_0 [simp]: "gmul a 0 = 0" "gmul 0 a = 0"
  by (simp_all add: gmul_gsum)

lemma gmul_xtime_left: "gmul (xtime a) b = xtime (gmul a b)"
  by (simp add: gmul_gsum gsum_xtime)

lemma gmul_gsum_right: "gmul a (gsum k b c) = gsum k (gmul a b) c"
  by (induction k arbitrary: b c) (auto simp: gmul_distrib gmul_xtime_right)

lemma gmul_gsum_left: "gmul (gsum k b c) a = gsum k (gmul b a) c"
  by (induction k arbitrary: b c) (auto simp: gmul_distrib gmul_xtime_left)

lemma gmul_assoc: "gmul (gmul a b) c = gmul a (gmul b c)"
  using gmul_gsum_right [of a 8 b c] by (simp add: gmul_gsum [of b c] gmul_gsum [of "gmul a b" c])

lemma gmul_1_left: "gmul 1 a = a"
proof (rule additive_eqI [where f = "gmul 1" and g = "\<lambda>a. a"])
  show "list_all (\<lambda>i. gmul 1 (2 ^ i) = 2 ^ i) [0..<8]"
    by (simp add: upt_8 gmul_gsum gsum_eval xtime_eval)
qed (simp_all add: gmul_distrib)

lemma gmul_commute: "gmul a b = gmul b a"
proof -
  have "gmul a b = gmul (gsum 8 1 a) b" using gmul_1_left [of a] by (simp add: gmul_gsum [of 1 a])
  also have "\<dots> = gsum 8 (gmul 1 b) a" by (rule gmul_gsum_left)
  finally show ?thesis by (simp add: gmul_1_left gmul_gsum [of b a])
qed

text \<open>The powers of the generator 3, which enumerate the non-zero bytes.\<close>

definition powers_of_3 :: "u8 list" where
  "powers_of_3 = [0x1, 0x3, 0x5, 0xf, 0x11, 0x33, 0x55, 0xff, 0x1a, 0x2e, 0x72, 0x96, 0xa1, 0xf8, 0x13, 0x35,
      0x5f, 0xe1, 0x38, 0x48, 0xd8, 0x73, 0x95, 0xa4, 0xf7, 0x2, 0x6, 0xa, 0x1e, 0x22, 0x66, 0xaa,
      0xe5, 0x34, 0x5c, 0xe4, 0x37, 0x59, 0xeb, 0x26, 0x6a, 0xbe, 0xd9, 0x70, 0x90, 0xab, 0xe6, 0x31,
      0x53, 0xf5, 0x4, 0xc, 0x14, 0x3c, 0x44, 0xcc, 0x4f, 0xd1, 0x68, 0xb8, 0xd3, 0x6e, 0xb2, 0xcd,
      0x4c, 0xd4, 0x67, 0xa9, 0xe0, 0x3b, 0x4d, 0xd7, 0x62, 0xa6, 0xf1, 0x8, 0x18, 0x28, 0x78, 0x88,
      0x83, 0x9e, 0xb9, 0xd0, 0x6b, 0xbd, 0xdc, 0x7f, 0x81, 0x98, 0xb3, 0xce, 0x49, 0xdb, 0x76, 0x9a,
      0xb5, 0xc4, 0x57, 0xf9, 0x10, 0x30, 0x50, 0xf0, 0xb, 0x1d, 0x27, 0x69, 0xbb, 0xd6, 0x61, 0xa3,
      0xfe, 0x19, 0x2b, 0x7d, 0x87, 0x92, 0xad, 0xec, 0x2f, 0x71, 0x93, 0xae, 0xe9, 0x20, 0x60, 0xa0,
      0xfb, 0x16, 0x3a, 0x4e, 0xd2, 0x6d, 0xb7, 0xc2, 0x5d, 0xe7, 0x32, 0x56, 0xfa, 0x15, 0x3f, 0x41,
      0xc3, 0x5e, 0xe2, 0x3d, 0x47, 0xc9, 0x40, 0xc0, 0x5b, 0xed, 0x2c, 0x74, 0x9c, 0xbf, 0xda, 0x75,
      0x9f, 0xba, 0xd5, 0x64, 0xac, 0xef, 0x2a, 0x7e, 0x82, 0x9d, 0xbc, 0xdf, 0x7a, 0x8e, 0x89, 0x80,
      0x9b, 0xb6, 0xc1, 0x58, 0xe8, 0x23, 0x65, 0xaf, 0xea, 0x25, 0x6f, 0xb1, 0xc8, 0x43, 0xc5, 0x54,
      0xfc, 0x1f, 0x21, 0x63, 0xa5, 0xf4, 0x7, 0x9, 0x1b, 0x2d, 0x77, 0x99, 0xb0, 0xcb, 0x46, 0xca,
      0x45, 0xcf, 0x4a, 0xde, 0x79, 0x8b, 0x86, 0x91, 0xa8, 0xe3, 0x3e, 0x42, 0xc6, 0x51, 0xf3, 0xe,
      0x12, 0x36, 0x5a, 0xee, 0x29, 0x7b, 0x8d, 0x8c, 0x8f, 0x8a, 0x85, 0x94, 0xa7, 0xf2, 0xd, 0x17,
      0x39, 0x4b, 0xdd, 0x7c, 0x84, 0x97, 0xa2, 0xfd, 0x1c, 0x24, 0x6c, 0xb4, 0xc7, 0x52, 0xf6, 0x1]"

fun chain3 :: "u8 \<Rightarrow> u8 list \<Rightarrow> bool" where
  "chain3 a [] \<longleftrightarrow> True"
| "chain3 a (b # bs) \<longleftrightarrow> b = xtime a XOR a \<and> chain3 b bs"

lemma chain3_powers: "powers_of_3 = 1 # tl powers_of_3" "chain3 1 (tl powers_of_3)" 
  by (simp_all add: powers_of_3_def xtime_eval)

definition pow3 :: "nat \<Rightarrow> u8" where
  "pow3 i = (gmul 3 ^^ i) 1"

lemma gmul_3: "gmul 3 a = xtime a XOR a"
  using gmul_commute [of 3 a] by (simp add: gmul_gsum gsum_eval xor_cancel)

lemma pow3_add: "gmul (pow3 i) (pow3 j) = pow3 (i + j)"
  by (induction i) (simp_all add: pow3_def gmul_1_left gmul_assoc)

lemma chain3_nth: "chain3 a bs \<Longrightarrow> a = pow3 k \<Longrightarrow> i \<le> length bs \<Longrightarrow> (a # bs) ! i = pow3 (k + i)"
proof (induction a bs arbitrary: k i rule: chain3.induct)
  case (2 a b bs)
  have b: "b = pow3 (Suc k)" using 2(2,3) by (simp add: pow3_def gmul_3)
  have "chain3 b bs" using 2(2) unfolding chain3.simps by blast
  from 2(1) [OF this b] 2(3,4) show ?case by (cases i) auto
qed simp

lemma powers_nth: "i < 256 \<Longrightarrow> powers_of_3 ! i = pow3 i"
  using chain3_nth [OF chain3_powers(2), of 0 i] chain3_powers(1) by (simp add: pow3_def powers_of_3_def)

text \<open>The discrete logarithms of the bytes from 1 up.\<close>

definition logs_of_3 :: "nat list" where
  "logs_of_3 =
     [0, 25, 1, 50, 2, 26, 198, 75, 199, 27, 104, 51, 238, 223, 3, 100, 4, 224, 14, 52,
      141, 129, 239, 76, 113, 8, 200, 248, 105, 28, 193, 125, 194, 29, 181, 249, 185, 39, 106, 77,
      228, 166, 114, 154, 201, 9, 120, 101, 47, 138, 5, 33, 15, 225, 36, 18, 240, 130, 69, 53,
      147, 218, 142, 150, 143, 219, 189, 54, 208, 206, 148, 19, 92, 210, 241, 64, 70, 131, 56, 102,
      221, 253, 48, 191, 6, 139, 98, 179, 37, 226, 152, 34, 136, 145, 16, 126, 110, 72, 195, 163,
      182, 30, 66, 58, 107, 40, 84, 250, 133, 61, 186, 43, 121, 10, 21, 155, 159, 94, 202, 78,
      212, 172, 229, 243, 115, 167, 87, 175, 88, 168, 80, 244, 234, 214, 116, 79, 174, 233, 213, 231,
      230, 173, 232, 44, 215, 117, 122, 235, 22, 11, 245, 89, 203, 95, 176, 156, 169, 81, 160, 127,
      12, 246, 111, 23, 196, 73, 236, 216, 67, 31, 45, 164, 118, 123, 183, 204, 187, 62, 90, 251,
      96, 177, 134, 59, 82, 161, 108, 170, 85, 41, 157, 151, 178, 135, 144, 97, 190, 220, 252, 188,
      149, 207, 205, 55, 63, 91, 209, 83, 57, 132, 60, 65, 162, 109, 71, 20, 42, 158, 93, 86,
      242, 211, 171, 68, 17, 146, 217, 35, 32, 46, 137, 180, 124, 184, 38, 119, 153, 227, 165, 103,
      74, 237, 222, 197, 49, 254, 24, 13, 99, 140, 128, 192, 247, 112, 7]"

lemma powers_logs: "map (\<lambda>i. powers_of_3 ! i) logs_of_3 = map of_nat [1..<256]"
  by code_simp

lemma powers_cover: "a = 0 \<or> (\<exists>i<256. a = pow3 i)"
proof (cases "a = 0")
  case False
  then have "unat a \<in> set [1..<256]" using unsigned_less [of a, where ?'a = nat] by (simp add: unat_gt_0 Suc_le_eq)
  then have "a \<in> set (map of_nat [1..<256])" unfolding set_map by (rule rev_image_eqI) simp
  then obtain i where i: "i \<in> set logs_of_3" "a = powers_of_3 ! i" unfolding powers_logs [symmetric] by auto
  moreover have "list_all (\<lambda>i. i < 256) logs_of_3" by code_simp
  ultimately show ?thesis using powers_nth by (auto simp: list_all_iff)
qed simp

lemma pow3_inverse: "i < 256 \<Longrightarrow> gmul (pow3 i) (pow3 (255 - i)) = 1"
  using powers_nth [of 255] by (simp add: pow3_add powers_of_3_def)

lemma gmul_inverse_exists:
  assumes "a \<noteq> 0"
  obtains b where "gmul a b = 1"
proof -
  obtain i where "i < 256" "a = pow3 i" using powers_cover [of a] assms by auto
  then show ?thesis using that pow3_inverse [of i] by simp
qed

lemma gf_inv_inverse:
  assumes "a \<noteq> 0"
  shows "gmul a (gf_inv a) = 1"
proof -
  have n: "unat a < 256" "0 < unat a" using assms unsigned_less [of a, where ?'a = nat] by (simp_all add: unat_gt_0)
  have "[1..<256] ! (unat a - 1) = unat a" using n by (subst nth_upt) auto
  with n have s: "gf_inv a = gf_inv_slot a" by (simp add: gf_inv_def gf_inv_lut_def nth_Cons')
  obtain b where b: "gmul a b = 1" using gmul_inverse_exists [OF assms] .
  then have "0 < unat b" by (auto simp: unat_gt_0)
  then have "b \<in> set (map of_nat [1..<256])"
    using unsigned_less [of b, where ?'a = nat] by (auto intro!: image_eqI [of _ _ "unat b"] simp del: upt.simps)
  with b have "find (\<lambda>b. gmul a b = 1) (map of_nat [1..<256]) \<noteq> None" by (auto simp: find_None_iff)
  then show ?thesis unfolding s gf_inv_slot_def by (auto simp: find_Some_iff split: option.splits)
qed

lemma gmul_inverse_unique: "gmul a b = 1 \<Longrightarrow> gf_inv a = b"
proof -
  assume b: "gmul a b = 1"
  then have "a \<noteq> 0" by auto
  from gf_inv_inverse [OF this] have "b = gmul b (gmul a (gf_inv a))" by (simp add: gmul_commute [of b 1] gmul_1_left)
  also have "\<dots> = gf_inv a" using b by (simp add: gmul_commute [of b a] gmul_1_left flip: gmul_assoc)
  finally show "gf_inv a = b" ..
qed

section \<open>The S-box\<close>

lemma odd_filter_xor:
  "odd (length (filter (\<lambda>i. p i \<noteq> q i) xs)) \<longleftrightarrow> odd (length (filter p xs)) \<noteq> odd (length (filter q xs))"
  by (induction xs) auto

lemma odd_count_ones_xor:
  "odd (count_ones (r AND (x XOR y))) \<longleftrightarrow> odd (count_ones (r AND x)) \<noteq> odd (count_ones (r AND y))"
proof -
  have "bit (r AND (x XOR y)) = (\<lambda>i. bit (r AND x) i \<noteq> bit (r AND y) i)" by (auto simp: bit_simps fun_eq_iff)
  then show ?thesis unfolding count_ones_def by (simp only: odd_filter_xor)
qed

lemma bit_affine_fold:
  assumes "k \<le> 8"
  shows "bit (fold (affine_bit qw x imm) [0..<k] 0) n \<longleftrightarrow> n < k \<and> odd (count_ones (qw ! (7 - n) AND x)) \<noteq> bit imm n"
  using assms
proof (induction k)
  case (Suc k)
  have p: "of_nat c AND (1 :: u32) = of_flag (odd c)" for c
    by (rule bit_word_eqI) (auto simp: bit_simps bit_0 [of c])
  have "bit (affine_bit qw x imm k r) n \<longleftrightarrow> bit r n \<or> n = k \<and> odd (count_ones (qw ! (7 - k) AND x)) \<noteq> bit imm k" for r
    using Suc.prems by (auto simp: affine_bit_def Let_def p bit_simps)
  then show ?case using Suc by (auto simp: less_Suc_eq)
qed simp

lemma bit_affine_byte: "bit (affine_byte qw x imm) n \<longleftrightarrow> n < 8 \<and> odd (count_ones (qw ! (7 - n) AND x)) \<noteq> bit imm n"
  by (simp add: affine_byte_def bit_affine_fold)

lemma affine_byte_imm: "affine_byte qw x imm = affine_byte qw x 0 XOR imm"
  by (rule bit_word_eqI) (auto simp: bit_affine_byte bit_xor_iff)

lemma affine_byte_xor: "affine_byte qw (x XOR y) 0 = affine_byte qw x 0 XOR affine_byte qw y 0"
  by (rule bit_word_eqI) (auto simp: bit_affine_byte bit_xor_iff odd_count_ones_xor)

text \<open>The matrix of the AES S-box; row \<open>i\<close> is byte \<open>7 - i\<close>.\<close>

definition aes_rows :: "u8 list" where
  "aes_rows = [0xF8, 0x7C, 0x3E, 0x1F, 0x8F, 0xC7, 0xE3, 0xF1]"

definition aes_affine :: "u8 \<Rightarrow> u8" where
  "aes_affine x = (let y = ucast x :: u16; z = y XOR push_bit 1 y XOR push_bit 2 y XOR push_bit 3 y XOR push_bit 4 y
     in ucast (z XOR drop_bit 8 z))"

lemma aes_affine_xor: "aes_affine (x XOR y) = aes_affine x XOR aes_affine y"
  unfolding aes_affine_def Let_def unsigned_xor_eq push_bit_xor drop_bit_xor by (simp only: xor_cancel)

lemma affine_aes_rows: "affine_byte aes_rows x 0 = aes_affine x"
proof (rule additive_eqI [where f = "\<lambda>x. affine_byte aes_rows x 0" and g = aes_affine])
  show "list_all (\<lambda>i. affine_byte aes_rows (2 ^ i) 0 = aes_affine (2 ^ i)) [0..<8]"
    by (simp add: upt_8 affine_byte_def affine_bit_def aes_rows_def count_ones_def aes_affine_def)
qed (simp_all add: affine_byte_xor aes_affine_xor)

lemma sbox_powers: "map (\<lambda>p. SBOX ! unat p) powers_of_3 =
     [0x7c, 0x7b, 0x6b, 0x76, 0x82, 0xc3, 0xfc, 0x16, 0xa2, 0x31, 0x40, 0x90, 0x32, 0x41, 0x7d, 0x96,
      0xcf, 0xf8, 0x7, 0x52, 0x61, 0x8f, 0x2a, 0x49, 0x68, 0x77, 0x6f, 0x67, 0x72, 0x93, 0x33, 0xac,
      0xd9, 0x18, 0x4a, 0x69, 0x9a, 0xcb, 0xe9, 0xf7, 0x2, 0xae, 0x35, 0x51, 0x60, 0x62, 0x8e, 0xc7,
      0xed, 0xe6, 0xf2, 0xfe, 0xfa, 0xeb, 0x1b, 0x4b, 0x84, 0x3e, 0x45, 0x6c, 0x66, 0x9f, 0x37, 0xbd,
      0x29, 0x48, 0x85, 0xd3, 0xe1, 0xe2, 0xe3, 0xe, 0xaa, 0x24, 0xa1, 0x30, 0xad, 0x34, 0xbc, 0xc4,
      0xec, 0xb, 0x56, 0x70, 0x7f, 0x7a, 0x86, 0xd2, 0xc, 0x46, 0x6d, 0x8b, 0x3b, 0xb9, 0x38, 0xb8,
      0xd5, 0x1c, 0x5b, 0x99, 0xca, 0x4, 0x53, 0x8c, 0x2b, 0xa4, 0xcc, 0xf9, 0xea, 0xf6, 0xef, 0xa,
      0xbb, 0xd4, 0xf1, 0xff, 0x17, 0x4f, 0x95, 0xce, 0x15, 0xa3, 0xdc, 0xe4, 0x1e, 0xb7, 0xd0, 0xe0,
      0xf, 0x47, 0x80, 0x2f, 0xb5, 0x3c, 0xa9, 0x25, 0x4c, 0x94, 0x23, 0xb1, 0x2d, 0x59, 0x75, 0x83,
      0x2e, 0x58, 0x98, 0x27, 0xa0, 0xdd, 0x9, 0xba, 0x39, 0x55, 0x71, 0x92, 0xde, 0x8, 0x57, 0x9d,
      0xdb, 0xf4, 0x3, 0x43, 0x91, 0xdf, 0xe5, 0xf3, 0x13, 0x5e, 0x65, 0x9e, 0xda, 0x19, 0xa7, 0xcd,
      0x14, 0x4e, 0x78, 0x6a, 0x9b, 0x26, 0x4d, 0x79, 0x87, 0x3f, 0xa8, 0xc8, 0xe8, 0x1a, 0xa6, 0x20,
      0xb0, 0xc0, 0xfd, 0xfb, 0x6, 0xbf, 0xc5, 0x1, 0xaf, 0xd8, 0xf5, 0xee, 0xe7, 0x1f, 0x5a, 0x74,
      0x6e, 0x8a, 0xd6, 0x1d, 0xb6, 0x3d, 0x44, 0x81, 0xc2, 0x11, 0xb2, 0x2c, 0xb4, 0xd1, 0xd, 0xab,
      0xc9, 0x5, 0xbe, 0x28, 0xa5, 0x21, 0x5d, 0x64, 0x73, 0x7e, 0x97, 0x22, 0x5c, 0x89, 0xd7, 0xf0,
      0x12, 0xb3, 0xc1, 0x10, 0x5f, 0x88, 0x3a, 0x54, 0x9c, 0x36, 0x50, 0x8d, 0xc6, 0x0, 0x42, 0x7c]"
  by code_simp

lemma affine_powers: "map (\<lambda>p. aes_affine p XOR 0x63) (rev powers_of_3) =
     [0x7c, 0x7b, 0x6b, 0x76, 0x82, 0xc3, 0xfc, 0x16, 0xa2, 0x31, 0x40, 0x90, 0x32, 0x41, 0x7d, 0x96,
      0xcf, 0xf8, 0x7, 0x52, 0x61, 0x8f, 0x2a, 0x49, 0x68, 0x77, 0x6f, 0x67, 0x72, 0x93, 0x33, 0xac,
      0xd9, 0x18, 0x4a, 0x69, 0x9a, 0xcb, 0xe9, 0xf7, 0x2, 0xae, 0x35, 0x51, 0x60, 0x62, 0x8e, 0xc7,
      0xed, 0xe6, 0xf2, 0xfe, 0xfa, 0xeb, 0x1b, 0x4b, 0x84, 0x3e, 0x45, 0x6c, 0x66, 0x9f, 0x37, 0xbd,
      0x29, 0x48, 0x85, 0xd3, 0xe1, 0xe2, 0xe3, 0xe, 0xaa, 0x24, 0xa1, 0x30, 0xad, 0x34, 0xbc, 0xc4,
      0xec, 0xb, 0x56, 0x70, 0x7f, 0x7a, 0x86, 0xd2, 0xc, 0x46, 0x6d, 0x8b, 0x3b, 0xb9, 0x38, 0xb8,
      0xd5, 0x1c, 0x5b, 0x99, 0xca, 0x4, 0x53, 0x8c, 0x2b, 0xa4, 0xcc, 0xf9, 0xea, 0xf6, 0xef, 0xa,
      0xbb, 0xd4, 0xf1, 0xff, 0x17, 0x4f, 0x95, 0xce, 0x15, 0xa3, 0xdc, 0xe4, 0x1e, 0xb7, 0xd0, 0xe0,
      0xf, 0x47, 0x80, 0x2f, 0xb5, 0x3c, 0xa9, 0x25, 0x4c, 0x94, 0x23, 0xb1, 0x2d, 0x59, 0x75, 0x83,
      0x2e, 0x58, 0x98, 0x27, 0xa0, 0xdd, 0x9, 0xba, 0x39, 0x55, 0x71, 0x92, 0xde, 0x8, 0x57, 0x9d,
      0xdb, 0xf4, 0x3, 0x43, 0x91, 0xdf, 0xe5, 0xf3, 0x13, 0x5e, 0x65, 0x9e, 0xda, 0x19, 0xa7, 0xcd,
      0x14, 0x4e, 0x78, 0x6a, 0x9b, 0x26, 0x4d, 0x79, 0x87, 0x3f, 0xa8, 0xc8, 0xe8, 0x1a, 0xa6, 0x20,
      0xb0, 0xc0, 0xfd, 0xfb, 0x6, 0xbf, 0xc5, 0x1, 0xaf, 0xd8, 0xf5, 0xee, 0xe7, 0x1f, 0x5a, 0x74,
      0x6e, 0x8a, 0xd6, 0x1d, 0xb6, 0x3d, 0x44, 0x81, 0xc2, 0x11, 0xb2, 0x2c, 0xb4, 0xd1, 0xd, 0xab,
      0xc9, 0x5, 0xbe, 0x28, 0xa5, 0x21, 0x5d, 0x64, 0x73, 0x7e, 0x97, 0x22, 0x5c, 0x89, 0xd7, 0xf0,
      0x12, 0xb3, 0xc1, 0x10, 0x5f, 0x88, 0x3a, 0x54, 0x9c, 0x36, 0x50, 0x8d, 0xc6, 0x0, 0x42, 0x7c]"
  by (simp add: powers_of_3_def aes_affine_def)

lemma sbox_affine: "SBOX ! unat a = affine_byte aes_rows (gf_inv a) 0x63"
proof (cases "a = 0")
  case True
  have "gf_inv 0 = 0" by (simp add: gf_inv_def gf_inv_lut_def)
  with True show ?thesis by (simp add: SBOX_def affine_byte_imm [of _ _ "0x63"] affine_aes_rows aes_affine_def)
next
  case False
  then obtain i where i: "i < 256" "a = pow3 i" using powers_cover by blast
  have l: "length powers_of_3 = 256" by (simp add: powers_of_3_def)
  have "map (\<lambda>p. SBOX ! unat p) powers_of_3 ! i = map (\<lambda>p. aes_affine p XOR 0x63) (rev powers_of_3) ! i"
    unfolding sbox_powers affine_powers ..
  then have "SBOX ! unat (pow3 i) = aes_affine (pow3 (255 - i)) XOR 0x63"
    using i l by (simp add: rev_nth powers_nth)
  moreover have "gf_inv a = pow3 (255 - i)" using gmul_inverse_unique pow3_inverse i by blast
  ultimately show ?thesis using i by (simp add: affine_byte_imm [of _ _ "0x63"] affine_aes_rows)
qed

section \<open>AES rounds\<close>

lemma bytes_of_word: "from_bytes (to_bytes x) = x"
  by (auto intro!: bit_word_eqI simp: from_bytes_def to_bytes_def bit_from_le_bytes bit_simps)

lemma word_of_bytes: "length b = 16 \<Longrightarrow> to_bytes (from_bytes b) = b"
  by (rule nth_equalityI) (auto intro!: bit_word_eqI simp: from_bytes_def to_bytes_def bit_from_le_bytes bit_simps)

lemma length_to_bytes [simp]: "length (to_bytes x) = 16"
  by (simp add: to_bytes_def)

lemma length_16E:
  assumes "length s = 16"
  obtains a0 a1 a2 a3 a4 a5 a6 a7 a8 a9 a10 a11 a12 a13 a14 a15
  where "s = [a0, a1, a2, a3, a4, a5, a6, a7, a8, a9, a10, a11, a12, a13, a14, a15]"
  using assms by (auto simp: length_Suc_conv numeral_eq_Suc)

lemma upt_16: "[0..<16] = [0, 1, 2, 3, 4, 5, 6, 7, 8, 9, 10, 11, 12, 13, 14, 15]"
  by code_simp

lemma upt_4: "[0..<4] = [0, 1, 2, 3]"
  by code_simp

lemma sbox_table: "map (\<lambda>s. INV_SBOX ! unat s) SBOX = map of_nat [0..<256]"
  by code_simp

lemma inv_sbox: "INV_SBOX ! unat (SBOX ! unat x) = x"
proof -
  have "length SBOX = 256" by (simp add: SBOX_def)
  then have "map (\<lambda>s. INV_SBOX ! unat s) SBOX ! unat x = map of_nat [0..<256] ! unat x"
    by (simp only: sbox_table)
  then show ?thesis using unsigned_less [of x, where ?'a = nat] \<open>length SBOX = 256\<close> by simp
qed

lemma inv_sub_sub: "length s = 16 \<Longrightarrow> inv_sub_bytes (sub_bytes s) = s"
  by (rule nth_equalityI) (auto simp: inv_sub_bytes_def sub_bytes_def inv_sbox)

lemma inv_shift_shift: "length s = 16 \<Longrightarrow> inv_shift_rows (shift_rows s) = s"
  by (erule length_16E) (simp add: inv_shift_rows_def shift_rows_def upt_16 SHIFT_ROWS_def INV_SHIFT_ROWS_def)

lemma inv_shift_sub: "length s = 16 \<Longrightarrow> inv_shift_rows (inv_sub_bytes s) = inv_sub_bytes (inv_shift_rows s)"
  by (erule length_16E) (simp add: inv_shift_rows_def inv_sub_bytes_def upt_16 INV_SHIFT_ROWS_def)

lemma gmul_consts:
  "gmul a 9 = a XOR xtime (xtime (xtime a))" "gmul a 11 = a XOR xtime a XOR xtime (xtime (xtime a))"
  "gmul a 13 = a XOR xtime (xtime a) XOR xtime (xtime (xtime a))"
  "gmul a 14 = xtime a XOR xtime (xtime a) XOR xtime (xtime (xtime a))"
  by (simp_all add: gmul_gsum gsum_eval)

lemma inv_mix_mix: 
  "mix_column s0 s1 s2 s3 = [t0, t1, t2, t3] \<Longrightarrow> inv_mix_column t0 t1 t2 t3 = [s0, s1, s2, s3]"
  by (auto simp: mix_column_def inv_mix_column_def gmul_consts xtime_xor xor_cancel)

lemma inv_mix_columns_mix: "length s = 16 \<Longrightarrow> inv_mix_columns (mix_columns s) = s"
  by (erule length_16E)
    (simp add: inv_mix_columns_def mix_columns_def per_column_def upt_4 Let_def mix_column_def inv_mix_mix [unfolded mix_column_def])

lemma length_steps [simp]: "length (sub_bytes s) = 16" "length (shift_rows s) = 16" "length (mix_columns s) = 16"
  by (simp_all add: sub_bytes_def shift_rows_def mix_columns_def per_column_def upt_4 Let_def mix_column_def)

text \<open>
  Property C26: the AES decryption instructions undo the encryption ones: the inverse mix columns
  followed by the last decryption round inverts a full encryption round, the last decryption round
  inverts the last encryption round, and a full decryption round after a last encryption round leaves
  the inverse-mixed state.
\<close>
theorem aes_round_inverse:
  "aes_dec_last (aes_imc (aes_enc s k XOR k)) 0 = s \<and> aes_dec_last (aes_enc_last s k XOR k) 0 = s \<and>
   aes_dec (aes_enc_last s k XOR k) k' = aes_imc s XOR k'"
proof (intro conjI)
  have xk: "(x XOR k) XOR k = x" for x :: u128 by (simp add: xor.assoc)
  let ?t = "shift_rows (sub_bytes (to_bytes s))"
  have "aes_imc (aes_enc s k XOR k) = from_bytes ?t"
    by (simp add: aes_imc_def aes_enc_def Let_def xk word_of_bytes inv_mix_columns_mix)
  moreover have t: "inv_shift_rows (inv_sub_bytes ?t) = to_bytes s"
    by (simp add: inv_shift_sub inv_shift_shift inv_sub_sub)
  ultimately show "aes_dec_last (aes_imc (aes_enc s k XOR k)) 0 = s"
    by (simp add: aes_dec_last_def Let_def word_of_bytes bytes_of_word)
  show "aes_dec_last (aes_enc_last s k XOR k) 0 = s"
    using t by (simp add: aes_dec_last_def aes_enc_last_def Let_def xk word_of_bytes bytes_of_word)
  show "aes_dec (aes_enc_last s k XOR k) k' = aes_imc s XOR k'"
    using t by (simp add: aes_dec_def aes_enc_last_def aes_imc_def Let_def xk word_of_bytes inv_shift_sub)
qed

text \<open>
  Property C27: the S-box table of the AES instructions is the affine transform of the GF(2^8) inverse:
  \<^verbatim>\<open>gf2p8affineinvqb\<close> with the AES matrix and constant computes the byte
  substitution.
\<close>
theorem aes_sbox_is_affine_inverse:
  "gf2p8affineinvqb x 0xF1E3C78F1F3E7CF8F1E3C78F1F3E7CF8 0x63 = from_bytes (sub_bytes (to_bytes x))"
proof -
  have "qwords 0xF1E3C78F1F3E7CF8F1E3C78F1F3E7CF8 = [aes_rows, aes_rows]"
    by (simp add: qwords_def Let_def to_le_bytes_def upt_16 aes_rows_def)
  then have "qwords 0xF1E3C78F1F3E7CF8F1E3C78F1F3E7CF8 ! (i div 8) = aes_rows" if "i < 16" for i
    using that by (cases "i < 8") (auto simp: nth_Cons' div_eq_0_iff)
  then show ?thesis
    unfolding gf2p8affineinvqb_def Let_def from_bytes_def sub_bytes_def to_bytes_def sbox_affine
    by (intro arg_cong [where f = from_le_bytes] map_cong) simp_all
qed

section \<open>SHA-256\<close>

text \<open>The compression round and the message schedule of FIPS 180-4 (6.2.2), on the word \<open>K + W\<close>.\<close>

record sha256_state = sa :: u32 sb :: u32 sc :: u32 sd :: u32 se :: u32 sf :: u32 sg :: u32 sh :: u32

definition sha256_round :: "u32 \<Rightarrow> sha256_state \<Rightarrow> sha256_state" where
  "sha256_round kw st =
     (let t1 = sh st + (word_rotr 6 (se st) XOR word_rotr 11 (se st) XOR word_rotr 25 (se st)) +
            ((se st AND sf st) XOR (NOT (se st) AND sg st)) + kw;
          t2 = (word_rotr 2 (sa st) XOR word_rotr 13 (sa st) XOR word_rotr 22 (sa st)) +
            ((sa st AND sb st) XOR (sa st AND sc st) XOR (sb st AND sc st))
      in \<lparr>sa = t1 + t2, sb = sa st, sc = sb st, sd = sc st, se = sd st + t1, sf = se st, sg = sf st, sh = sg st\<rparr>)"

fun sha256_schedule :: "u32 list \<Rightarrow> nat \<Rightarrow> u32" where
  "sha256_schedule m t =
     (if t < 16 then m ! t
      else (word_rotr 17 (sha256_schedule m (t - 2)) XOR word_rotr 19 (sha256_schedule m (t - 2)) XOR
              drop_bit 10 (sha256_schedule m (t - 2))) + sha256_schedule m (t - 7) +
           (word_rotr 7 (sha256_schedule m (t - 15)) XOR word_rotr 18 (sha256_schedule m (t - 15)) XOR
              drop_bit 3 (sha256_schedule m (t - 15))) + sha256_schedule m (t - 16))"

declare sha256_schedule.simps [simp del]

text \<open>The two registers that hold the working variables.\<close>

definition abef :: "sha256_state \<Rightarrow> u128" where
  "abef st = from_dwords [sf st, se st, sb st, sa st]"

definition cdgh :: "sha256_state \<Rightarrow> u128" where
  "cdgh st = from_dwords [sh st, sg st, sd st, sc st]"

lemma bit_u32_high [simp]: "\<not> bit (a :: u32) (32 + n)" "\<not> bit (a :: u32) (64 + n)" "\<not> bit (a :: u32) (96 + n)"
  using bit_imp_le_length [of a "32 + n"] bit_imp_le_length [of a "64 + n"] bit_imp_le_length [of a "96 + n"] by auto

lemma dwords_from_dwords [simp]: "dwords (from_dwords [a, b, c, d]) = [a, b, c, d]"
  unfolding dwords_def from_dwords_def
  by (auto intro!: bit_word_eqI simp: bit_simps)

lemma rnds2_two_rounds:
  "sha256rnds2 (cdgh st) (abef st) (from_dwords [w0, w1, x, y]) = abef (sha256_round w1 (sha256_round w0 st)) \<and>
   abef st = cdgh (sha256_round w1 (sha256_round w0 st))"
  by (simp add: sha256rnds2_def abef_def cdgh_def Let_def sha256_round_def big_sigma0_def big_sigma1_def ch_def maj_def)

text \<open>A run of \<^verbatim>\<open>sha256rnds2\<close>, the two registers swapping roles.\<close>

fun rnds2_run :: "(u32 \<times> u32) list \<Rightarrow> u128 \<Rightarrow> u128 \<Rightarrow> u128 \<times> u128" where
  "rnds2_run [] x y = (x, y)"
| "rnds2_run ((w0, w1) # ws) x y = rnds2_run ws (sha256rnds2 y x (from_dwords [w0, w1, 0, 0])) x"

lemma rnds2_run_rounds:
  "rnds2_run ws (abef st) (cdgh st) =
     (let st' = fold sha256_round (concat (map (\<lambda>(w0, w1). [w0, w1]) ws)) st in (abef st', cdgh st'))"
proof (induction ws arbitrary: st)
  case (Cons w ws)
  obtain w0 w1 where w: "w = (w0, w1)" by (cases w)
  let ?st = "sha256_round w1 (sha256_round w0 st)"
  have r: "sha256rnds2 (cdgh st) (abef st) (from_dwords [w0, w1, 0, 0]) = abef ?st" "abef st = cdgh ?st"
    using rnds2_two_rounds [of st w0 w1 0 0] by blast+
  have "rnds2_run (w # ws) (abef st) (cdgh st) = rnds2_run ws (abef ?st) (cdgh ?st)"
    unfolding w rnds2_run.simps r(1) by (simp only: r(2))
  then show ?case by (simp add: Cons w)
qed simp

definition add_dwords :: "u128 \<Rightarrow> u128 \<Rightarrow> u128" where
  "add_dwords x y = from_dwords (map (\<lambda>i. dwords x ! i + dwords y ! i) [0..<4])"

definition four :: "u32 list \<Rightarrow> nat \<Rightarrow> u128" where
  "four m t = from_dwords [sha256_schedule m t, sha256_schedule m (t + 1), sha256_schedule m (t + 2), sha256_schedule m (t + 3)]"

lemma schedule_step:
  "sha256msg2 (add_dwords (sha256msg1 (four m t) (four m (t + 4))) (four m (t + 9))) (four m (t + 12)) = four m (t + 16)"
proof -
  have s:
    "sha256_schedule m (t + 16) = small_sigma1 (sha256_schedule m (t + 14)) + sha256_schedule m (t + 9) + small_sigma0 (sha256_schedule m (t + 1)) + sha256_schedule m t"
    "sha256_schedule m (t + 17) = small_sigma1 (sha256_schedule m (t + 15)) + sha256_schedule m (t + 10) + small_sigma0 (sha256_schedule m (t + 2)) + sha256_schedule m (t + 1)"
    "sha256_schedule m (t + 18) = small_sigma1 (sha256_schedule m (t + 16)) + sha256_schedule m (t + 11) + small_sigma0 (sha256_schedule m (t + 3)) + sha256_schedule m (t + 2)"
    "sha256_schedule m (t + 19) = small_sigma1 (sha256_schedule m (t + 17)) + sha256_schedule m (t + 12) + small_sigma0 (sha256_schedule m (t + 4)) + sha256_schedule m (t + 3)"
    by (subst sha256_schedule.simps, simp add: small_sigma0_def small_sigma1_def add.commute)+
  have u: "[0..<4] = [0, 1, 2, 3 :: nat]" by code_simp
  show ?thesis
    unfolding four_def add_dwords_def sha256msg1_def sha256msg2_def Let_def dwords_from_dwords u
    by (simp add: s ac_simps)
qed

text \<open>
  Property C28: any run of \<^verbatim>\<open>sha256rnds2\<close> on the two packed registers performs
  the FIPS 180-4 compression rounds, and \<^verbatim>\<open>sha256msg1\<close> with
  \<^verbatim>\<open>sha256msg2\<close> extends the message schedule by four words.
\<close>
theorem sha256_instructions_compress:
  "sha256msg2 (add_dwords (sha256msg1 (four m t) (four m (t + 4))) (four m (t + 9))) (four m (t + 12)) = four m (t + 16) \<and>
   rnds2_run ws (abef st) (cdgh st) =
     (let st' = fold sha256_round (concat (map (\<lambda>(w0, w1). [w0, w1]) ws)) st in (abef st', cdgh st'))"
  by (simp add: schedule_step rnds2_run_rounds)

section \<open>Carry-less product\<close>

lemma bit_pclmul_fold:
  "k \<le> 64 \<Longrightarrow> bit (fold (pclmul_step x y) [0..<k] 0) n \<longleftrightarrow>
     n < 128 \<and> odd (card {i. i < k \<and> i \<le> n \<and> bit y i \<and> bit x (n - i)})"
proof (induction k)
  case (Suc k)
  have b: "bit (pclmul_step x y k r) n \<longleftrightarrow> bit r n \<noteq> (n < 128 \<and> k \<le> n \<and> bit y k \<and> bit x (n - k))" for r
    using Suc.prems by (auto simp: pclmul_step_def bit_simps and_one_eq odd_iff_mod_2_eq_one bit_iff_odd_drop_bit [of y k])
  let ?A = "{i. i < k \<and> i \<le> n \<and> bit y i \<and> bit x (n - i)}"
  have "{i. i < Suc k \<and> i \<le> n \<and> bit y i \<and> bit x (n - i)} = (if k \<le> n \<and> bit y k \<and> bit x (n - k) then insert k ?A else ?A)"
    by (auto simp: less_Suc_eq)
  moreover have "finite ?A" "k \<notin> ?A" by simp_all
  ultimately show ?case using Suc b by (auto simp: card_insert_if)
qed simp

text \<open>
  Property C29: bit \<open>n\<close> of the carry-less product is the parity of the pairs of selected
  operand bits whose indices add up to \<open>n\<close>.
\<close>
theorem pclmul_product:
  "bit (pclmul a b imm) n \<longleftrightarrow>
     odd (card {i. i < 64 \<and> i \<le> n \<and> n - i < 64 \<and>
       bit b (i + (if bit imm 4 then 64 else 0)) \<and> bit a (n - i + (if bit imm 0 then 64 else 0))})"
proof -
  define x y where "x = (if imm AND 0x01 \<noteq> 0 then ucast (drop_bit 64 a) else ucast a :: u64)"
    and "y = (if imm AND 0x10 \<noteq> 0 then ucast (drop_bit 64 b) else ucast b :: u64)"
  have i: "imm AND 0x01 = 0 \<longleftrightarrow> \<not> bit imm 0" "imm AND 0x10 = 0 \<longleftrightarrow> \<not> bit imm 4"
    using and_exp_eq_0 [of imm 0] and_exp_eq_0 [of imm 4] by simp_all
  have y: "bit y i \<longleftrightarrow> i < 64 \<and> bit b (i + (if bit imm 4 then 64 else 0))" for i
    by (auto simp: y_def i bit_simps add.commute)
  have x: "bit x i \<longleftrightarrow> i < 64 \<and> bit a (i + (if bit imm 0 then 64 else 0))" for i
    by (auto simp: x_def i bit_simps add.commute)
  have "bit (pclmul a b imm) n \<longleftrightarrow> n < 128 \<and> odd (card {i. i < 64 \<and> i \<le> n \<and> bit y i \<and> bit x (n - i)})"
    using bit_pclmul_fold [of 64 x y n] by (simp add: pclmul_def x_def y_def)
  moreover have "{i. i < 64 \<and> i \<le> n \<and> bit y i \<and> bit x (n - i)} = {}" if "\<not> n < 128" using that by (auto simp: x)
  ultimately have "bit (pclmul a b imm) n \<longleftrightarrow> odd (card {i. i < 64 \<and> i \<le> n \<and> bit y i \<and> bit x (n - i)})"
    by (cases "n < 128") (simp_all only: if_True if_False card.empty even_zero simp_thms)
  then show ?thesis by (simp add: x y conj_ac)
qed

end
