(* ===== verification/X86_Cache.thy ===== *)
theory X86_Cache
  imports X86_Ir "HOL-Library.AList"
begin

text \<open>
  The translation cache (\<^verbatim>\<open>cache.rs\<close>) and the host-PC table of compiled code (\<^verbatim>\<open>codemap.rs\<close>).  A hash map is
  an association list (\<open>AList.update\<close>, \<open>AList.delete\<close>, \<open>map_of\<close>); the order in which the source's iteration
  visits a map is the order of that list.  Every method takes its locks for its whole body, so a method is
  one function on the cache.  The closures a caller hands in (\<^verbatim>\<open>on_mark\<close>, \<^verbatim>\<open>on_clear_page\<close>, \<^verbatim>\<open>publish\<close>) act on
  a state of their own, the second component of the pair the method transforms.
\<close>

section \<open>Keys and cached units\<close>

datatype CpuMode = Long64 | Compat32 | Real16

record BlockKey =
  guest_addr :: u64
  key_mode :: CpuMode

definition block_key :: "u64 \<Rightarrow> CpuMode \<Rightarrow> BlockKey" where
  "block_key a m = \<lparr>guest_addr = a, key_mode = m\<rparr>"

text \<open>A compiled unit is named by the host address of its entry.\<close>

type_synonym CompiledPtr = u64

datatype (plugins only: size) CachedBlock = Interpreted IrBlock | Compiled CompiledPtr

type_synonym span = "u64 \<times> u32"

text \<open>
  An IBTC descriptor is the heap address the allocator returned for it, its target and its entry.
\<close>

record TranslationCache =
  tc_map :: "(BlockKey \<times> CachedBlock) list"
  tc_spans :: "(BlockKey \<times> span list) list"
  tc_hits :: u64
  tc_misses :: u64
  tc_chained :: u64
  tc_regions :: u64
  tc_epoch :: u64
  ibtc_descriptors :: "(u64 \<times> u64 \<times> u64) list"
  tc_ibtc_filled :: u64
  hotness :: "(BlockKey \<times> u32) list"
  tc_region_decision :: "(BlockKey \<times> bool) list"
  tier_pending :: "BlockKey list"
  tc_tier_bg_published :: u64
  tc_tier_bg_rejected :: u64

definition cache_new :: TranslationCache where
  "cache_new =
     \<lparr>tc_map = [], tc_spans = [], tc_hits = 0, tc_misses = 0, tc_chained = 0, tc_regions = 0, tc_epoch = 0,
      ibtc_descriptors = [], tc_ibtc_filled = 0, hotness = [], tc_region_decision = [], tier_pending = [],
      tc_tier_bg_published = 0, tc_tier_bg_rejected = 0\<rparr>"

section \<open>Tier-up bookkeeping\<close>

definition bump_hotness :: "BlockKey \<Rightarrow> TranslationCache \<Rightarrow> u32 \<times> TranslationCache" where
  "bump_hotness key c =
     (let n = (case map_of (hotness c) key of Some v \<Rightarrow> v | None \<Rightarrow> 0) + 1
      in (n, c\<lparr>hotness := AList.update key n (hotness c)\<rparr>))"

definition region_decision :: "BlockKey \<Rightarrow> TranslationCache \<Rightarrow> bool option" where
  "region_decision key c = map_of (tc_region_decision c) key"

definition set_region_decision :: "BlockKey \<Rightarrow> bool \<Rightarrow> TranslationCache \<Rightarrow> TranslationCache" where
  "set_region_decision key candidate c =
     c\<lparr>tc_region_decision := AList.update key candidate (tc_region_decision c)\<rparr>"

definition upgrade :: "BlockKey \<Rightarrow> CachedBlock \<Rightarrow> span \<Rightarrow> u64 \<Rightarrow> TranslationCache \<Rightarrow> bool \<times> TranslationCache" where
  "upgrade key block sp since_epoch c =
     (if tc_epoch c \<noteq> since_epoch then (False, c)
      else (True, c\<lparr>tc_spans := AList.update key [sp] (tc_spans c),
                   tc_map := AList.update key block (tc_map c),
                   hotness := AList.delete key (hotness c)\<rparr>))"

definition upgrade_region ::
    "BlockKey \<Rightarrow> CachedBlock \<Rightarrow> span list \<Rightarrow> u64 \<Rightarrow> (span list \<Rightarrow> 'm \<Rightarrow> 'm)
     \<Rightarrow> TranslationCache \<times> 'm \<Rightarrow> bool \<times> TranslationCache \<times> 'm" where
  "upgrade_region key block sps since_epoch on_mark cm =
     (let (c, m) = cm
      in if tc_epoch c \<noteq> since_epoch then (False, c, m)
         else (True, c\<lparr>tc_map := AList.update key block (tc_map c),
                      tc_spans := AList.update key sps (tc_spans c),
                      hotness := AList.delete key (hotness c)\<rparr>, on_mark sps m))"

definition try_begin_tier_up :: "BlockKey \<Rightarrow> TranslationCache \<Rightarrow> bool \<times> TranslationCache" where
  "try_begin_tier_up key c =
     (key \<notin> set (tier_pending c), c\<lparr>tier_pending := List.insert key (tier_pending c)\<rparr>)"

definition end_tier_up :: "BlockKey \<Rightarrow> TranslationCache \<Rightarrow> TranslationCache" where
  "end_tier_up key c = c\<lparr>tier_pending := removeAll key (tier_pending c)\<rparr>"

definition tier_pending_len :: "TranslationCache \<Rightarrow> nat" where
  "tier_pending_len c = length (tier_pending c)"

section \<open>Publication\<close>

definition alloc_ibtc_descriptor :: "u64 \<Rightarrow> u64 \<Rightarrow> CompiledPtr \<Rightarrow> TranslationCache \<Rightarrow> u64 \<times> TranslationCache" where
  "alloc_ibtc_descriptor addr target ent c =
     (addr, c\<lparr>ibtc_descriptors := ibtc_descriptors c @ [(addr, target, ent)],
              tc_ibtc_filled := tc_ibtc_filled c + 1\<rparr>)"

definition publish_if_current ::
    "u64 \<Rightarrow> ('s \<Rightarrow> 's) \<Rightarrow> TranslationCache \<times> 's \<Rightarrow> bool \<times> 's" where
  "publish_if_current since_epoch publish cs =
     (let (c, s) = cs in if tc_epoch c \<noteq> since_epoch then (False, s) else (True, publish s))"

definition cache_get :: "BlockKey \<Rightarrow> TranslationCache \<Rightarrow> CachedBlock option \<times> TranslationCache" where
  "cache_get key c =
     (case map_of (tc_map c) key of
        Some b \<Rightarrow> (Some b, c\<lparr>tc_hits := tc_hits c + 1\<rparr>)
      | None \<Rightarrow> (None, c\<lparr>tc_misses := tc_misses c + 1\<rparr>))"

definition add_chained :: "u64 \<Rightarrow> TranslationCache \<Rightarrow> TranslationCache" where
  "add_chained n c = (if n \<noteq> 0 then c\<lparr>tc_chained := tc_chained c + n\<rparr> else c)"

definition record_region :: "TranslationCache \<Rightarrow> TranslationCache" where
  "record_region c = c\<lparr>tc_regions := tc_regions c + 1\<rparr>"

definition record_tier_bg_published :: "TranslationCache \<Rightarrow> TranslationCache" where
  "record_tier_bg_published c = c\<lparr>tc_tier_bg_published := tc_tier_bg_published c + 1\<rparr>"

definition record_tier_bg_rejected :: "TranslationCache \<Rightarrow> TranslationCache" where
  "record_tier_bg_rejected c = c\<lparr>tc_tier_bg_rejected := tc_tier_bg_rejected c + 1\<rparr>"

section \<open>Insertion and invalidation\<close>

definition cache_insert ::
    "BlockKey \<Rightarrow> CachedBlock \<Rightarrow> span list \<Rightarrow> (span list \<Rightarrow> 'm \<Rightarrow> 'm) \<Rightarrow> TranslationCache \<times> 'm \<Rightarrow> TranslationCache \<times> 'm" where
  "cache_insert key block sps on_mark cm =
     (let (c, m) = cm
      in (c\<lparr>tc_map := AList.update key block (tc_map c), tc_spans := AList.update key sps (tc_spans c)\<rparr>,
          on_mark sps m))"

definition span_overlaps :: "u64 \<Rightarrow> u64 \<Rightarrow> span \<Rightarrow> bool" where
  "span_overlaps lo hi sp = (let (start, len) = sp in start < hi \<and> lo < start + ucast len)"

definition drop_unit :: "BlockKey \<Rightarrow> TranslationCache \<Rightarrow> TranslationCache" where
  "drop_unit key c =
     c\<lparr>tc_spans := AList.delete key (tc_spans c), tc_map := AList.delete key (tc_map c),
       hotness := AList.delete key (hotness c), tier_pending := removeAll key (tier_pending c)\<rparr>"

definition invalidate_overlapping ::
    "u64 \<Rightarrow> u64 \<Rightarrow> ('m \<Rightarrow> 'm) \<Rightarrow> TranslationCache \<times> 'm \<Rightarrow> BlockKey list \<times> TranslationCache \<times> 'm" where
  "invalidate_overlapping lo hi on_clear_page cm =
     (let (c, m) = cm;
          victims = map fst (filter (\<lambda>(_, ranges). list_ex (span_overlaps lo hi) ranges) (tc_spans c));
          c = fold drop_unit victims c;
          c = (if victims \<noteq> [] then c\<lparr>tc_epoch := tc_epoch c + 1\<rparr> else c)
      in (victims, c, on_clear_page m))"

section \<open>Host PC to guest RIP\<close>

definition CHUNK_CAP :: nat where "CHUNK_CAP = 1024"
definition MAX_CHUNKS :: nat where "MAX_CHUNKS = 4096"

record Entry =
  entry_start :: u64
  entry_end :: u64
  entry_table :: "(u32 \<times> u32) list"

text \<open>The chunks of the source hold the published entries in order of registration.\<close>

type_synonym CodeMap = "Entry list"

definition codemap_register :: "u64 \<Rightarrow> u32 \<Rightarrow> (u32 \<times> u32) list \<Rightarrow> CodeMap \<Rightarrow> CodeMap option" where
  "codemap_register start code_len table cm =
     (if length cm div CHUNK_CAP < MAX_CHUNKS
      then Some (cm @ [\<lparr>entry_start = start, entry_end = start + ucast code_len, entry_table = table\<rparr>])
      else None)"

text \<open>\<^verbatim>\<open>partition_point\<close> on a table sorted by host offset.\<close>

definition partition_point :: "('a \<Rightarrow> bool) \<Rightarrow> 'a list \<Rightarrow> nat" where
  "partition_point p xs = length (takeWhile p xs)"

fun codemap_lookup :: "u64 \<Rightarrow> CodeMap \<Rightarrow> u64 option" where
  "codemap_lookup pc [] = None"
| "codemap_lookup pc (e # es) =
     (if entry_start e \<le> pc \<and> pc < entry_end e then
        let off = ucast (pc - entry_start e) :: u32;
            i = partition_point (\<lambda>(h, _). h \<le> off) (entry_table e)
        in if i > 0 then Some (ucast (snd (entry_table e ! (i - 1)))) else None
      else codemap_lookup pc es)"

end
