(* ===== verification/X86_Insn.thy ===== *)
theory X86_Insn
  imports X86_Cache
begin

text \<open>
  What the lifter sees of the guest: the decode mode and the fetch address (\<^verbatim>\<open>lift/mod.rs\<close>), and a decoded
  instruction.  Decoding is done by the \<^verbatim>\<open>iced-x86\<close> crate.  An instruction is the record of the values its
  accessors return (\<open>op_kind insn i\<close> is \<^verbatim>\<open>insn.op_kind(i)\<close>), a register the record of the properties the
  source asks of it; the decoder itself is an argument of the definitions that call it.  Enumerators of
  \<^verbatim>\<open>iced-x86\<close> that the modelled code never names are gathered in one \<open>Other\<close> constructor.
\<close>

unbundle bit_operations_syntax

section \<open>Modes and fetch addresses\<close>

definition mode_bits :: "CpuMode \<Rightarrow> nat" where
  "mode_bits m = (case m of Long64 \<Rightarrow> 64 | Compat32 \<Rightarrow> 32 | Real16 \<Rightarrow> 16)"

definition wraps_32 :: "CpuMode \<Rightarrow> bool" where
  "wraps_32 m \<longleftrightarrow> m = Compat32"

definition wraps_16 :: "CpuMode \<Rightarrow> bool" where
  "wraps_16 m \<longleftrightarrow> m = Real16"

record FetchAddr =
  pa :: u64
  ip :: u64

definition fetch_flat :: "u64 \<Rightarrow> FetchAddr" where
  "fetch_flat addr = \<lparr>pa = addr, ip = addr\<rparr>"

definition fetch_real16 :: "u16 \<Rightarrow> u16 \<Rightarrow> FetchAddr" where
  "fetch_real16 cs_selector i =
     (let i = ucast i in \<lparr>pa = push_bit 4 (ucast cs_selector) + i, ip = i\<rparr>)"

definition fetch_for_mode :: "CpuMode \<Rightarrow> u64 \<Rightarrow> u16 \<Rightarrow> FetchAddr" where
  "fetch_for_mode m r cs = (case m of Real16 \<Rightarrow> fetch_real16 cs (ucast r) | _ \<Rightarrow> fetch_flat r)"

definition mask_pc :: "u64 \<Rightarrow> CpuMode \<Rightarrow> u64" where
  "mask_pc addr m =
     (case m of Compat32 \<Rightarrow> addr AND 0xFFFFFFFF | Real16 \<Rightarrow> addr AND 0xFFFF | Long64 \<Rightarrow> addr)"

datatype LiftError =
    Unsupported u64 "u8 list" nat
  | DecodeFault u64

section \<open>Registers and operands\<close>

datatype RegName =
    NoReg | AH | BH | CH | DH | RIP_reg | EIP_reg | RSP_reg | SegCS | SegDS | SegES | SegSS | SegFS | SegGS | OtherReg

text \<open>
  \<open>gpr_number\<close> is \<^verbatim>\<open>full_register() - RAX\<close> where \<^verbatim>\<open>is_gpr()\<close> holds; the sixteen general-purpose registers make
  it a number of four bits.
\<close>

record Register =
  reg_name :: RegName
  reg_size :: nat
  gpr_number :: "4 word option"
  is_xmm :: bool

datatype OpKind =
    OpRegister | OpMemory
  | NearBranch16 | NearBranch32 | NearBranch64 | FarBranch16 | FarBranch32
  | Immediate8 | Immediate8_2nd | Immediate16 | Immediate32 | Immediate64
  | Immediate8to16 | Immediate8to32 | Immediate8to64 | Immediate32to64
  | OpKindOther

datatype CodeSize = Code16 | Code32 | Code64

datatype Code =
    Push_imm16 | Pushw_imm8 | Call_rel16 | Call_rm16 | Retnw | Retnw_imm16
  | Retfw | Retfw_imm16 | Retfd | Retfd_imm16 | Jmp_m1616 | Call_m1616 | Leavew | CodeOther

datatype DecoderError = DecoderNone | InvalidInstruction | NoMoreBytes

section \<open>Decoded instructions\<close>

text \<open>A mnemonic is the name of the \<^verbatim>\<open>iced-x86\<close> enumerator.\<close>

type_synonym Mnemonic = string

record Instruction =
  mnemonic :: Mnemonic
  insn_code :: Code
  code_size :: CodeSize
  insn_ip :: u64
  insn_len :: nat
  is_invalid :: bool
  op_count :: nat
  op_kind :: "nat \<Rightarrow> OpKind"
  op_register :: "nat \<Rightarrow> Register"
  immediate :: "nat \<Rightarrow> u64"
  immediate8 :: u8
  immediate8_2nd :: u8
  immediate16 :: u16
  memory_base :: Register
  memory_index :: Register
  memory_index_scale :: u32
  memory_displacement64 :: u64
  memory_size :: nat
  memory_segment :: Register
  segment_prefix :: Register
  near_branch_target :: u64
  far_branch_selector :: u16
  far_branch16 :: u16
  has_lock_prefix :: bool
  has_rep_prefix :: bool
  has_repe_prefix :: bool
  has_repne_prefix :: bool

text \<open>\<^verbatim>\<open>next_ip()\<close> is documented as the address of the following instruction.\<close>

definition next_ip :: "Instruction \<Rightarrow> u64" where
  "next_ip insn = insn_ip insn + of_nat (insn_len insn)"

definition unsupported_insn :: "Instruction \<Rightarrow> LiftError" where
  "unsupported_insn insn = Unsupported (insn_ip insn) (replicate 15 0) (insn_len insn)"

definition iced_gpr_index :: "Register \<Rightarrow> nat option" where
  "iced_gpr_index r = map_option unat (gpr_number r)"

definition high_byte_parent :: "Register \<Rightarrow> Reg option" where
  "high_byte_parent r =
     (case reg_name r of AH \<Rightarrow> Some Rax | BH \<Rightarrow> Some Rbx | CH \<Rightarrow> Some Rcx | DH \<Rightarrow> Some Rdx | _ \<Rightarrow> None)"

definition iced_to_reg :: "Register \<Rightarrow> Reg option" where
  "iced_to_reg r =
     (if reg_name r \<in> {AH, BH, CH, DH} then None
      else case iced_gpr_index r of Some i \<Rightarrow> from_gpr_index i | None \<Rightarrow> None)"

definition iced_segment_reg :: "Register \<Rightarrow> Reg option" where
  "iced_segment_reg r =
     (case reg_name r of SegCS \<Rightarrow> Some Cs | SegDS \<Rightarrow> Some Ds | SegES \<Rightarrow> Some Es | SegSS \<Rightarrow> Some Ss | _ \<Rightarrow> None)"

definition is_immediate :: "OpKind \<Rightarrow> bool" where
  "is_immediate k \<longleftrightarrow>
     k \<in> {Immediate8, Immediate8_2nd, Immediate16, Immediate32, Immediate64,
          Immediate8to16, Immediate8to32, Immediate8to64, Immediate32to64}"

text \<open>The casts to \<^verbatim>\<open>u8\<close> of the operand widths are the identity on every width an operand has (at most 64).\<close>

definition operand_size :: "Instruction \<Rightarrow> nat \<Rightarrow> nat" where
  "operand_size insn i =
     (case op_kind insn i of
        OpRegister \<Rightarrow> reg_size (op_register insn i)
      | OpMemory \<Rightarrow> memory_size insn
      | _ \<Rightarrow> 0)"

definition operation_size :: "Instruction \<Rightarrow> nat" where
  "operation_size insn = (let s = operand_size insn 0 in if s \<noteq> 0 then s else operand_size insn 1)"

definition stack_slot :: "CpuMode \<Rightarrow> nat" where
  "stack_slot m = (case m of Long64 \<Rightarrow> 8 | Compat32 \<Rightarrow> 4 | Real16 \<Rightarrow> 2)"

definition sp_write_size :: "CpuMode \<Rightarrow> nat" where
  "sp_write_size m = stack_slot m"

definition push_pop_size :: "Instruction \<Rightarrow> CpuMode \<Rightarrow> nat" where
  "push_pop_size insn m =
     (let s = operand_size insn 0
      in if s \<noteq> 0 then s
         else if insn_code insn \<in> {Push_imm16, Pushw_imm8} then 2
         else stack_slot m)"

definition sreg_operand :: "Instruction \<Rightarrow> nat \<Rightarrow> Reg option" where
  "sreg_operand insn i = (if op_kind insn i \<noteq> OpRegister then None else iced_segment_reg (op_register insn i))"

text \<open>Whether \<^verbatim>\<open>reg_xmm\<close> gives an index.\<close>

definition is_reg_xmm :: "Instruction \<Rightarrow> nat \<Rightarrow> bool" where
  "is_reg_xmm insn i \<longleftrightarrow> op_kind insn i = OpRegister \<and> is_xmm (op_register insn i)"

definition is_far_flow :: "Instruction \<Rightarrow> bool" where
  "is_far_flow insn \<longleftrightarrow>
     op_kind insn 0 \<in> {FarBranch16, FarBranch32} \<or> insn_code insn \<in> {Retfw, Retfw_imm16, Retfd, Retfd_imm16}"

definition is_far_jmp :: "Instruction \<Rightarrow> bool" where
  "is_far_jmp insn \<longleftrightarrow> op_kind insn 0 \<in> {FarBranch16, FarBranch32} \<or> insn_code insn = Jmp_m1616"

definition is_far_call :: "Instruction \<Rightarrow> bool" where
  "is_far_call insn \<longleftrightarrow> op_kind insn 0 \<in> {FarBranch16, FarBranch32} \<or> insn_code insn = Call_m1616"

lemma from_gpr_index_4: "\<exists>r. from_gpr_index (unat (i :: 4 word)) = Some r"
proof -
  have "unat i < length GPR_BY_INDEX"
    using unsigned_less [of i, where ?'a = nat] by (simp add: GPR_BY_INDEX_def)
  then show ?thesis by (simp add: from_gpr_index_def idx_def)
qed

end
