(* ===== verification/X86_Lift_Ops.thy ===== *)
theory X86_Lift_Ops
  imports X86_Insn X86_Alu "HOL-Library.Monad_Syntax"
begin

text \<open>
  Operand lowering (\<^verbatim>\<open>lift/mod.rs\<close>): the vocabulary from which every instruction is lifted.  The growing block
  \<^verbatim>\<open>ops\<close> and the temporary generator \<^verbatim>\<open>tg\<close> are the record \<open>LiftSt\<close>, passed explicitly.  Every error a lifting
  function returns is \<^verbatim>\<open>unsupported_insn(insn)\<close> for the instruction at hand, so a fallible one has an option
  type and \<open>None\<close> is that error; on it the caller gives up the block, state included.
\<close>

unbundle bit_operations_syntax

section \<open>The block under construction\<close>

record LiftSt =
  lops :: "IrOp list"
  temps :: nat

definition lift_new :: LiftSt where
  "lift_new = \<lparr>lops = [], temps = 0\<rparr>"

definition fresh :: "LiftSt \<Rightarrow> nat \<times> LiftSt" where
  "fresh s = (temps s, s\<lparr>temps := temps s + 1\<rparr>)"

definition push :: "IrOp \<Rightarrow> LiftSt \<Rightarrow> LiftSt" where
  "push op s = s\<lparr>lops := lops s @ [op]\<rparr>"

definition alu_none :: "(nat \<Rightarrow> IrOp) \<Rightarrow> LiftSt \<Rightarrow> Val \<times> LiftSt" where
  "alu_none mk s = (let (t, s) = fresh s in (Temp t, push (mk t) s))"

definition lift_read_reg :: "Reg \<Rightarrow> LiftSt \<Rightarrow> Val \<times> LiftSt" where
  "lift_read_reg reg s = (let (t, s) = fresh s in (Temp t, push (ReadReg t reg) s))"

definition add_addr :: "Val \<Rightarrow> Val \<Rightarrow> LiftSt \<Rightarrow> Val \<times> LiftSt" where
  "add_addr a b s = (let (t, s) = fresh s in (Temp t, push (Add t a b 8 FM_NONE) s))"

text \<open>\<^verbatim>\<open>TempGen::fresh\<close> followed by a \<^verbatim>\<open>Load\<close> into the fresh temporary, the shape every memory read has.\<close>

definition lift_load :: "Val \<Rightarrow> nat \<Rightarrow> LiftSt \<Rightarrow> Val \<times> LiftSt" where
  "lift_load addr sz s = (let (t, s) = fresh s in (Temp t, push (Load t addr sz) s))"

datatype WriteTarget = TargetReg Reg nat | TargetMem Val nat | HighByte Reg

section \<open>Addresses\<close>

definition scaled_index :: "u32 \<Rightarrow> Val \<Rightarrow> LiftSt \<Rightarrow> Val \<times> LiftSt" where
  "scaled_index scale i s =
     (if scale \<le> 1 then (i, s)
      else let shift = of_nat (trailing_zeros scale); (t, s) = fresh s
           in (Temp t, push (Shl t i (Imm shift) 8 FM_NONE) s))"

definition ea_mask :: "Register \<Rightarrow> Register \<Rightarrow> u64 option" where
  "ea_mask base index =
     (if reg_size base = 2 \<or> reg_size index = 2 then Some 0xFFFF
      else if reg_size base = 4 \<or> reg_size index = 4 then Some 0xFFFFFFFF
      else None)"

definition effective_address_no_segment :: "Instruction \<Rightarrow> LiftSt \<Rightarrow> (Val \<times> LiftSt) option" where
  "effective_address_no_segment insn s =
     (let base = memory_base insn; index = memory_index insn; disp = memory_displacement64 insn
      in if reg_name base = RIP_reg then Some (Imm disp, s)
         else if reg_name base = EIP_reg then Some (Imm (disp AND 0xFFFFFFFF), s)
         else do {
           (acc, s) \<leftarrow> (if reg_name base \<noteq> NoReg
                        then do { reg \<leftarrow> iced_to_reg base; let (v, s) = lift_read_reg reg s; Some (Some v, s) }
                        else Some (None, s));
           (acc, s) \<leftarrow> (if reg_name index \<noteq> NoReg
                        then do {
                          reg \<leftarrow> iced_to_reg index;
                          let (i, s) = lift_read_reg reg s;
                          let (scaled, s) = scaled_index (memory_index_scale insn) i s;
                          case acc of
                            None \<Rightarrow> Some (Some scaled, s)
                          | Some a \<Rightarrow> let (v, s) = add_addr a scaled s in Some (Some v, s)
                        }
                        else Some (acc, s));
           let (addr, s) = (case acc of
                              None \<Rightarrow> (Imm disp, s)
                            | Some a \<Rightarrow> if disp = 0 then (a, s) else add_addr a (Imm disp) s);
           case ea_mask base index of
             None \<Rightarrow> Some (addr, s)
           | Some m \<Rightarrow>
               (case addr of
                  Imm v \<Rightarrow> Some (Imm (v AND m), s)
                | Temp _ \<Rightarrow> let (t, s) = fresh s in Some (Temp t, push (And t addr (Imm m) 8 FM_NONE) s))
         })"

definition seg_base_shl4 :: "Reg \<Rightarrow> LiftSt \<Rightarrow> Val \<times> LiftSt" where
  "seg_base_shl4 seg s =
     (let (sel, s) = lift_read_reg seg s in alu_none (\<lambda>dst. Shl dst sel (Imm 4) 8 FM_NONE) s)"

definition with_segment :: "Instruction \<Rightarrow> Val \<Rightarrow> LiftSt \<Rightarrow> Val \<times> LiftSt" where
  "with_segment insn addr s =
     (if code_size insn = Code16 then
        (case iced_segment_reg (memory_segment insn) of
           None \<Rightarrow> (addr, s)
         | Some seg \<Rightarrow>
             let sz = memory_size insn;
                 s = (if 1 \<le> sz \<and> sz \<le> 4
                      then push (SegLimitCheck addr sz 13 (mask_pc (insn_ip insn) Real16)) s else s);
                 (base, s) = seg_base_shl4 seg s
             in add_addr addr base s)
      else
        (case reg_name (segment_prefix insn) of
           SegFS \<Rightarrow> let (base, s) = lift_read_reg FsBase s in add_addr addr base s
         | SegGS \<Rightarrow> let (base, s) = lift_read_reg GsBase s in add_addr addr base s
         | _ \<Rightarrow> (addr, s)))"

definition effective_address :: "Instruction \<Rightarrow> LiftSt \<Rightarrow> (Val \<times> LiftSt) option" where
  "effective_address insn s = do {
     (addr, s) \<leftarrow> effective_address_no_segment insn s;
     Some (with_segment insn addr s)
   }"

definition stack_addr :: "Val \<Rightarrow> CpuMode \<Rightarrow> LiftSt \<Rightarrow> Val \<times> LiftSt" where
  "stack_addr offset m s =
     (if \<not> wraps_16 m then (offset, s)
      else let (base, s) = seg_base_shl4 Ss s in add_addr offset base s)"

definition emit_sp_wrap :: "nat \<Rightarrow> CpuMode \<Rightarrow> LiftSt \<Rightarrow> LiftSt" where
  "emit_sp_wrap sp m s =
     (case m of
        Compat32 \<Rightarrow> push (And sp (Temp sp) (Imm 0xFFFFFFFF) 8 FM_NONE) s
      | Real16 \<Rightarrow> push (And sp (Temp sp) (Imm 0xFFFF) 8 FM_NONE) s
      | Long64 \<Rightarrow> s)"

section \<open>Operands\<close>

definition scalar_mem_size :: "Instruction \<Rightarrow> nat \<Rightarrow> nat option" where
  "scalar_mem_size insn i =
     (let sz = operand_size insn i in if sz = 1 \<or> sz = 2 \<or> sz = 4 \<or> sz = 8 then Some sz else None)"

definition lower_read :: "Instruction \<Rightarrow> nat \<Rightarrow> LiftSt \<Rightarrow> (Val \<times> LiftSt) option" where
  "lower_read insn i s =
     (case op_kind insn i of
        OpRegister \<Rightarrow>
          (case high_byte_parent (op_register insn i) of
             Some parent \<Rightarrow>
               let (p, s) = lift_read_reg parent s;
                   (sh, s) = alu_none (\<lambda>dst. Shr dst p (Imm 8) 8 FM_NONE) s
               in Some (alu_none (\<lambda>dst. And dst sh (Imm 0xFF) 8 FM_NONE) s)
           | None \<Rightarrow> do {
               reg \<leftarrow> iced_to_reg (op_register insn i);
               Some (lift_read_reg reg s)
             })
      | OpMemory \<Rightarrow> do {
          (addr, s) \<leftarrow> effective_address insn s;
          sz \<leftarrow> scalar_mem_size insn i;
          Some (lift_load addr sz s)
        }
      | k \<Rightarrow> if is_immediate k then Some (Imm (immediate insn i), s) else None)"

definition lower_write_target :: "Instruction \<Rightarrow> nat \<Rightarrow> LiftSt \<Rightarrow> (WriteTarget \<times> LiftSt) option" where
  "lower_write_target insn i s =
     (case op_kind insn i of
        OpRegister \<Rightarrow>
          (case high_byte_parent (op_register insn i) of
             Some parent \<Rightarrow> Some (HighByte parent, s)
           | None \<Rightarrow> do {
               reg \<leftarrow> iced_to_reg (op_register insn i);
               Some (TargetReg reg (operand_size insn i), s)
             })
      | OpMemory \<Rightarrow> do {
          (addr, s) \<leftarrow> effective_address insn s;
          sz \<leftarrow> scalar_mem_size insn i;
          Some (TargetMem addr sz, s)
        }
      | _ \<Rightarrow> None)"

definition emit_write :: "WriteTarget \<Rightarrow> Val \<Rightarrow> LiftSt \<Rightarrow> LiftSt" where
  "emit_write target v s =
     (case target of
        TargetReg reg sz \<Rightarrow> push (WriteReg reg v sz) s
      | TargetMem addr sz \<Rightarrow> push (Store addr v sz OrderNone) s
      | HighByte parent \<Rightarrow>
          let (cur, s) = lift_read_reg parent s;
              (clear, s) = alu_none (\<lambda>dst. And dst cur (Imm (NOT 0xFF00)) 8 FM_NONE) s;
              (byte, s) = alu_none (\<lambda>dst. And dst v (Imm 0xFF) 8 FM_NONE) s;
              (shifted, s) = alu_none (\<lambda>dst. Shl dst byte (Imm 8) 8 FM_NONE) s;
              (merged, s) = alu_none (\<lambda>dst. Or dst clear shifted 8 FM_NONE) s
          in push (WriteReg parent merged 8) s)"

text \<open>The pair \<^verbatim>\<open>lower_write_target\<close>, \<^verbatim>\<open>emit_write\<close> that ends most lifting functions.\<close>

definition write_operand :: "Instruction \<Rightarrow> nat \<Rightarrow> Val \<Rightarrow> LiftSt \<Rightarrow> LiftSt option" where
  "write_operand insn i v s = do {
     (dst, s) \<leftarrow> lower_write_target insn i s;
     Some (emit_write dst v s)
   }"

definition branch_target :: "Instruction \<Rightarrow> CpuMode \<Rightarrow> LiftSt \<Rightarrow> (Val \<times> LiftSt) option" where
  "branch_target insn m s =
     (if op_kind insn 0 \<in> {NearBranch16, NearBranch32, NearBranch64}
      then Some (Imm (mask_pc (near_branch_target insn) m), s)
      else do {
        (target, s) \<leftarrow> lower_read insn 0 s;
        let width_mask = (if operand_size insn 0 = 2 then Some 0xFFFF
                          else if wraps_32 m then Some 0xFFFFFFFF else None);
        case width_mask of
          Some w \<Rightarrow> let (masked, s) = fresh s in Some (Temp masked, push (And masked target (Imm w) 8 FM_NONE) s)
        | None \<Rightarrow> Some (target, s)
      })"

definition call_ret_slot :: "Instruction \<Rightarrow> CpuMode \<Rightarrow> nat option" where
  "call_ret_slot insn m =
     (if insn_code insn \<in> {Call_rel16, Call_rm16, Retnw, Retnw_imm16} then None else Some (stack_slot m))"

section \<open>Operation selectors\<close>

datatype BinOp =
    BinAdd | BinAdc | BinSub | BinSbb | BinAnd | BinOr | BinXor
  | BinShl | BinShr | BinSar | BinRol | BinRor | BinRcl | BinRcr

definition rmw_of_binop :: "BinOp \<Rightarrow> RmwOp option" where
  "rmw_of_binop op =
     (case op of BinAdd \<Rightarrow> Some RmwAdd | BinSub \<Rightarrow> Some RmwSub | BinAnd \<Rightarrow> Some RmwAnd
               | BinOr \<Rightarrow> Some RmwOr | BinXor \<Rightarrow> Some RmwXor | _ \<Rightarrow> None)"

fun mk_binop :: "BinOp \<Rightarrow> nat \<Rightarrow> Val \<Rightarrow> Val \<Rightarrow> nat \<Rightarrow> FlagMask \<Rightarrow> IrOp" where
  "mk_binop BinAdd = Add"
| "mk_binop BinAdc = Adc"
| "mk_binop BinSub = Sub"
| "mk_binop BinSbb = Sbb"
| "mk_binop BinAnd = And"
| "mk_binop BinOr = Or"
| "mk_binop BinXor = Xor"
| "mk_binop BinShl = Shl"
| "mk_binop BinShr = Shr"
| "mk_binop BinSar = Sar"
| "mk_binop BinRol = Rol"
| "mk_binop BinRor = Ror"
| "mk_binop BinRcl = Rcl"
| "mk_binop BinRcr = Rcr"

text \<open>\<^verbatim>\<open>cond_tables!\<close>: one condition, three mnemonics.\<close>

definition cond_table :: "(Cond \<times> string \<times> string \<times> string) list" where
  "cond_table =
     [(Eq, ''Je'', ''Sete'', ''Cmove''), (Ne, ''Jne'', ''Setne'', ''Cmovne''),
      (Below, ''Jb'', ''Setb'', ''Cmovb''), (AboveEq, ''Jae'', ''Setae'', ''Cmovae''),
      (BelowEq, ''Jbe'', ''Setbe'', ''Cmovbe''), (Above, ''Ja'', ''Seta'', ''Cmova''),
      (Less, ''Jl'', ''Setl'', ''Cmovl''), (GreaterEq, ''Jge'', ''Setge'', ''Cmovge''),
      (LessEq, ''Jle'', ''Setle'', ''Cmovle''), (Greater, ''Jg'', ''Setg'', ''Cmovg''),
      (Sign, ''Js'', ''Sets'', ''Cmovs''), (NoSign, ''Jns'', ''Setns'', ''Cmovns''),
      (Overflow, ''Jo'', ''Seto'', ''Cmovo''), (NoOverflow, ''Jno'', ''Setno'', ''Cmovno''),
      (Parity, ''Jp'', ''Setp'', ''Cmovp''), (NoParity, ''Jnp'', ''Setnp'', ''Cmovnp'')]"

definition jcc_cond :: "Mnemonic \<Rightarrow> Cond option" where
  "jcc_cond m = map_option fst (find (\<lambda>(_, j, _, _). j = m) cond_table)"

definition setcc_cond :: "Mnemonic \<Rightarrow> Cond option" where
  "setcc_cond m = map_option fst (find (\<lambda>(_, _, st, _). st = m) cond_table)"

definition cmovcc_cond :: "Mnemonic \<Rightarrow> Cond option" where
  "cmovcc_cond m = map_option fst (find (\<lambda>(_, _, _, c). c = m) cond_table)"

end
