(* ===== verification/X86_Lift_Int.thy ===== *)
theory X86_Lift_Int
  imports X86_Lift_Ops
begin

text \<open>
  Lifting of the integer instructions (\<^verbatim>\<open>lift/integer.rs\<close>), one definition per lifting function.
\<close>

unbundle bit_operations_syntax

section \<open>Two operands\<close>

definition lift_binop :: "BinOp \<Rightarrow> FlagMask \<Rightarrow> bool \<Rightarrow> Instruction \<Rightarrow> LiftSt \<Rightarrow> LiftSt option" where
  "lift_binop op fm write_back insn s =
     (let sz = operation_size insn
      in if op_kind insn 0 = OpMemory then do {
           (addr, s) \<leftarrow> effective_address insn s;
           if write_back \<and> has_lock_prefix insn then do {
             rop \<leftarrow> rmw_of_binop op;
             (b, s) \<leftarrow> lower_read insn 1 s;
             let (old, s) = fresh s;
             let s = push (AtomicRmw old addr b sz rop) s;
             let (res, s) = fresh s;
             Some (push (mk_binop op res (Temp old) b sz fm) s)
           } else do {
             let (a, s) = lift_load addr sz s;
             (b, s) \<leftarrow> lower_read insn 1 s;
             let (res, s) = fresh s;
             let s = push (mk_binop op res a b sz fm) s;
             Some (if write_back then push (Store addr (Temp res) sz OrderNone) s else s)
           }
         } else do {
           (a, s) \<leftarrow> lower_read insn 0 s;
           (b, s) \<leftarrow> lower_read insn 1 s;
           let (res, s) = fresh s;
           let s = push (mk_binop op res a b sz fm) s;
           if write_back then write_operand insn 0 (Temp res) s else Some s
         })"

section \<open>One operand\<close>

definition lift_unary_op0 ::
    "RmwOp \<Rightarrow> Val \<Rightarrow> bool \<Rightarrow> (nat \<Rightarrow> Val \<Rightarrow> nat \<Rightarrow> IrOp) \<Rightarrow> Instruction \<Rightarrow> LiftSt \<Rightarrow> LiftSt option" where
  "lift_unary_op0 rmw_op rmw_src recompute_flags emit insn s =
     (let sz = operand_size insn 0
      in if op_kind insn 0 = OpMemory then do {
           (addr, s) \<leftarrow> effective_address insn s;
           if has_lock_prefix insn then
             let (old, s) = fresh s;
                 s = push (AtomicRmw old addr rmw_src sz rmw_op) s
             in if recompute_flags
                then let (res, s) = fresh s in Some (push (emit res (Temp old) sz) s)
                else Some s
           else
             let (a, s) = lift_load addr sz s;
                 (res, s) = fresh s;
                 s = push (emit res a sz) s
             in Some (push (Store addr (Temp res) sz OrderNone) s)
         } else do {
           (a, s) \<leftarrow> lower_read insn 0 s;
           let (res, s) = fresh s;
           let s = push (emit res a sz) s;
           write_operand insn 0 (Temp res) s
         })"

definition lift_incdec :: "BinOp \<Rightarrow> Instruction \<Rightarrow> LiftSt \<Rightarrow> LiftSt option" where
  "lift_incdec op =
     lift_unary_op0 (if op = BinAdd then RmwAdd else RmwSub) (Imm 1) True
       (\<lambda>res a sz. mk_binop op res a (Imm 1) sz FM_ALL_BUT_CF)"

definition lift_neg :: "Instruction \<Rightarrow> LiftSt \<Rightarrow> LiftSt option" where
  "lift_neg = lift_unary_op0 RmwRsub (Imm 0) True (\<lambda>res a sz. Sub res (Imm 0) a sz FM_ALL)"

definition lift_not :: "Instruction \<Rightarrow> LiftSt \<Rightarrow> LiftSt option" where
  "lift_not = lift_unary_op0 RmwXor (Imm (- 1)) False (\<lambda>res a sz. Xor res a (Imm (- 1)) sz FM_NONE)"

section \<open>Shifts, products and quotients\<close>

definition lift_double_shift :: "bool \<Rightarrow> Instruction \<Rightarrow> LiftSt \<Rightarrow> LiftSt option" where
  "lift_double_shift left insn s =
     (let sz = operand_size insn 0
      in do {
        (b, s) \<leftarrow> lower_read insn 1 s;
        (count, s) \<leftarrow> lower_read insn 2 s;
        let (res, s) = fresh s;
        if op_kind insn 0 = OpMemory then do {
          (addr, s) \<leftarrow> effective_address insn s;
          let (a, s) = lift_load addr sz s;
          let s = push (DoubleShift res a b count sz left FM_SHIFT) s;
          Some (push (Store addr (Temp res) sz OrderNone) s)
        } else do {
          (a, s) \<leftarrow> lower_read insn 0 s;
          let s = push (DoubleShift res a b count sz left FM_SHIFT) s;
          write_operand insn 0 (Temp res) s
        }
      })"

definition lift_widening_mul :: "bool \<Rightarrow> Instruction \<Rightarrow> LiftSt \<Rightarrow> LiftSt option" where
  "lift_widening_mul sg insn s =
     (let sz = operand_size insn 0; (a, s) = lift_read_reg Rax s
      in do {
        (b, s) \<leftarrow> lower_read insn 0 s;
        let (lo, s) = fresh s;
        let (hi, s) = fresh s;
        if sz = 1 then
          let s = push (Mul lo hi a b 1 sg FM_CF_OF) s;
              (hi_sh, s) = alu_none (\<lambda>dst. Shl dst (Temp hi) (Imm 8) 2 FM_NONE) s;
              (ax, s) = alu_none (\<lambda>dst. Or dst (Temp lo) hi_sh 2 FM_NONE) s
          in Some (push (WriteReg Rax ax 2) s)
        else
          let s = push (Mul lo hi a b sz sg FM_CF_OF) s;
              s = push (WriteReg Rax (Temp lo) sz) s
          in Some (push (WriteReg Rdx (Temp hi) sz) s)
      })"

definition lift_imul :: "Instruction \<Rightarrow> LiftSt \<Rightarrow> LiftSt option" where
  "lift_imul insn s =
     (if op_count insn = 1 then lift_widening_mul True insn s
      else if op_count insn = 2 \<or> op_count insn = 3 then
        let sz = operand_size insn 0; i = (if op_count insn = 2 then 0 else 1)
        in do {
          (a, s) \<leftarrow> lower_read insn i s;
          (b, s) \<leftarrow> lower_read insn (i + 1) s;
          let (lo, s) = fresh s;
          let (hi, s) = fresh s;
          let s = push (Mul lo hi a b sz True FM_CF_OF) s;
          write_operand insn 0 (Temp lo) s
        }
      else None)"

definition lift_div :: "bool \<Rightarrow> Instruction \<Rightarrow> LiftSt \<Rightarrow> LiftSt option" where
  "lift_div sg insn s =
     (let sz = operand_size insn 0
      in if sz = 1 then
           let (rax, s) = lift_read_reg Rax s;
               (hi, s) = alu_none (\<lambda>dst. Shr dst rax (Imm 8) 8 FM_NONE) s
           in do {
             (divisor, s) \<leftarrow> lower_read insn 0 s;
             let (quot, s) = fresh s;
             let (rem, s) = fresh s;
             let s = push (Div quot rem hi rax divisor 1 sg) s;
             let s = push (WriteReg Rax (Temp quot) 1) s;
             Some (emit_write (HighByte Rax) (Temp rem) s)
           }
         else
           let (hi, s) = lift_read_reg Rdx s;
               (lo, s) = lift_read_reg Rax s
           in do {
             (divisor, s) \<leftarrow> lower_read insn 0 s;
             let (quot, s) = fresh s;
             let (rem, s) = fresh s;
             let s = push (Div quot rem hi lo divisor sz sg) s;
             let s = push (WriteReg Rax (Temp quot) sz) s;
             Some (push (WriteReg Rdx (Temp rem) sz) s)
           })"

section \<open>Exchanges\<close>

definition lift_xadd :: "Instruction \<Rightarrow> LiftSt \<Rightarrow> LiftSt option" where
  "lift_xadd insn s =
     (let sz = operand_size insn 0
      in do {
        (src, s) \<leftarrow> lower_read insn 1 s;
        if op_kind insn 0 = OpMemory then do {
          (addr, s) \<leftarrow> effective_address insn s;
          let (old, s) = fresh s;
          let s = push (AtomicRmw old addr src sz RmwAdd) s;
          let (res, s) = fresh s;
          let s = push (mk_binop BinAdd res (Temp old) src sz FM_ALL) s;
          write_operand insn 1 (Temp old) s
        } else do {
          (dst_val, s) \<leftarrow> lower_read insn 0 s;
          let (res, s) = fresh s;
          let s = push (mk_binop BinAdd res dst_val src sz FM_ALL) s;
          s \<leftarrow> write_operand insn 1 dst_val s;
          write_operand insn 0 (Temp res) s
        }
      })"

definition lift_cmpxchg :: "Instruction \<Rightarrow> LiftSt \<Rightarrow> LiftSt option" where
  "lift_cmpxchg insn s =
     (if op_kind insn 0 \<noteq> OpMemory then None
      else
        let sz = operand_size insn 0
        in do {
          (addr, s) \<leftarrow> effective_address insn s;
          (src, s) \<leftarrow> lower_read insn 1 s;
          let (acc, s) = lift_read_reg Rax s;
          let (ex, s) = fresh s;
          let s = push (And ex acc (Imm (size_mask sz)) 8 FM_NONE) s;
          let (old, s) = fresh s;
          let s = push (AtomicCas old addr (Temp ex) src sz) s;
          let (res, s) = fresh s;
          let s = push (Sub res (Temp ex) (Temp old) sz FM_ALL) s;
          Some (push (WriteReg Rax (Temp old) sz) s)
        })"

definition lift_xchg :: "Instruction \<Rightarrow> LiftSt \<Rightarrow> LiftSt option" where
  "lift_xchg insn s =
     (let reg_idx = (if op_kind insn 0 = OpMemory then Some 1
                     else if op_kind insn 1 = OpMemory then Some 0 else None)
      in case reg_idx of
           Some r \<Rightarrow>
             let sz = operand_size insn r
             in do {
               (addr, s) \<leftarrow> effective_address insn s;
               (reg_val, s) \<leftarrow> lower_read insn r s;
               let (old, s) = fresh s;
               let s = push (AtomicRmw old addr reg_val sz RmwXchg) s;
               write_operand insn r (Temp old) s
             }
         | None \<Rightarrow> do {
             (a_val, s) \<leftarrow> lower_read insn 0 s;
             (b_val, s) \<leftarrow> lower_read insn 1 s;
             (dst0, s) \<leftarrow> lower_write_target insn 0 s;
             (dst1, s) \<leftarrow> lower_write_target insn 1 s;
             let s = emit_write dst0 b_val s;
             Some (emit_write dst1 a_val s)
           })"

section \<open>Bits\<close>

definition lift_bitscan :: "BitScanOp \<Rightarrow> Instruction \<Rightarrow> LiftSt \<Rightarrow> LiftSt option" where
  "lift_bitscan op insn s = do {
     (src, s) \<leftarrow> lower_read insn 1 s;
     (old, s) \<leftarrow> lower_read insn 0 s;
     let (t, s) = fresh s;
     let s = push (BitScan t src old (operand_size insn 0) op) s;
     write_operand insn 0 (Temp t) s
   }"

definition emit_mem_bt :: "Val \<Rightarrow> nat \<Rightarrow> Val \<Rightarrow> BtOp \<Rightarrow> bool \<Rightarrow> LiftSt \<Rightarrow> LiftSt" where
  "emit_mem_bt ea esize bt op locked s =
     (if locked \<and> op \<noteq> BtTest then
        let (shift, s) = alu_none (\<lambda>t. And t bt (Imm (of_nat (esize * 8) - 1)) esize FM_NONE) s;
            (m, s) = alu_none (\<lambda>t. Shl t (Imm 1) shift esize FM_NONE) s;
            (rmw_op, src, s) =
              (case op of
                 BtSet \<Rightarrow> (RmwOr, m, s)
               | BtComplement \<Rightarrow> (RmwXor, m, s)
               | _ \<Rightarrow> let (inv, s) = fresh s
                      in (RmwAnd, Temp inv, push (Xor inv m (Imm (size_mask esize)) esize FM_NONE) s));
            (old, s) = fresh s;
            s = push (AtomicRmw old ea src esize rmw_op) s;
            (cf, s) = fresh s
        in push (Bt cf (Temp old) bt esize BtTest) s
      else
        let (a, s) = lift_load ea esize s;
            (result, s) = fresh s;
            s = push (Bt result a bt esize op) s
        in if op \<noteq> BtTest then push (Store ea (Temp result) esize OrderNone) s else s)"

definition lift_bt :: "BtOp \<Rightarrow> Instruction \<Rightarrow> LiftSt \<Rightarrow> LiftSt option" where
  "lift_bt op insn s =
     (let sz = operand_size insn 0
      in do {
        (bt, s) \<leftarrow> lower_read insn 1 s;
        if op_kind insn 0 = OpMemory then do {
          (addr, s) \<leftarrow> effective_address insn s;
          let (ea, esize, s) =
            (if op_kind insn 1 = OpRegister then
               let (sx, s) = fresh s;
                   s = push (Sext sx bt (operand_size insn 1)) s;
                   (off, s) = fresh s;
                   s = push (Sar off (Temp sx) (Imm 3) 8 FM_NONE) s;
                   (v, s) = add_addr addr (Temp off) s
               in (v, 1, s)
             else (addr, sz, s));
          Some (emit_mem_bt ea esize bt op (has_lock_prefix insn) s)
        } else do {
          (a, s) \<leftarrow> lower_read insn 0 s;
          let (result, s) = fresh s;
          let s = push (Bt result a bt sz op) s;
          if op \<noteq> BtTest then write_operand insn 0 (Temp result) s else Some s
        }
      })"

definition lift_bswap :: "Instruction \<Rightarrow> LiftSt \<Rightarrow> LiftSt option" where
  "lift_bswap insn s = do {
     (a, s) \<leftarrow> lower_read insn 0 s;
     let (t, s) = fresh s;
     let s = push (Bswap t a (operand_size insn 0)) s;
     write_operand insn 0 (Temp t) s
   }"

definition lift_bmi :: "BmiOp \<Rightarrow> Instruction \<Rightarrow> LiftSt \<Rightarrow> LiftSt option" where
  "lift_bmi op insn s = do {
     (a, s) \<leftarrow> lower_read insn 1 s;
     (b, s) \<leftarrow> (if op_count insn \<ge> 3 then lower_read insn 2 s else Some (Imm 0, s));
     let (t, s) = fresh s;
     let s = push (Bmi t a b (operand_size insn 0) op) s;
     write_operand insn 0 (Temp t) s
   }"

definition lift_mulx :: "Instruction \<Rightarrow> LiftSt \<Rightarrow> LiftSt option" where
  "lift_mulx insn s =
     (let (rdx, s) = lift_read_reg Rdx s
      in do {
        (src, s) \<leftarrow> lower_read insn 2 s;
        let (lo, s) = fresh s;
        let (hi, s) = fresh s;
        let s = push (Mul lo hi rdx src (operand_size insn 0) False FM_NONE) s;
        s \<leftarrow> write_operand insn 1 (Temp lo) s;
        write_operand insn 0 (Temp hi) s
      })"

definition lift_bmi_shift ::
    "(nat \<Rightarrow> Val \<Rightarrow> Val \<Rightarrow> nat \<Rightarrow> FlagMask \<Rightarrow> IrOp) \<Rightarrow> Instruction \<Rightarrow> LiftSt \<Rightarrow> LiftSt option" where
  "lift_bmi_shift mk insn s = do {
     (a, s) \<leftarrow> lower_read insn 1 s;
     (b, s) \<leftarrow> lower_read insn 2 s;
     let (t, s) = fresh s;
     let s = push (mk t a b (operand_size insn 0) FM_NONE) s;
     write_operand insn 0 (Temp t) s
   }"

section \<open>Moves\<close>

definition lift_movbe :: "Instruction \<Rightarrow> LiftSt \<Rightarrow> LiftSt option" where
  "lift_movbe insn s =
     (let sz = operand_size insn 0
      in do {
        (addr, s) \<leftarrow> effective_address insn s;
        if op_kind insn 1 = OpMemory then do {
          let (loaded, s) = lift_load addr sz s;
          let (swapped, s) = fresh s;
          let s = push (Bswap swapped loaded sz) s;
          write_operand insn 0 (Temp swapped) s
        } else do {
          (a, s) \<leftarrow> lower_read insn 1 s;
          let (swapped, s) = fresh s;
          let s = push (Bswap swapped a sz) s;
          Some (push (Store addr (Temp swapped) sz OrderNone) s)
        }
      })"

definition lift_movzx :: "Instruction \<Rightarrow> LiftSt \<Rightarrow> LiftSt option" where
  "lift_movzx insn s = do {
     (v, s) \<leftarrow> lower_read insn 1 s;
     let (z, s) = fresh s;
     let s = push (And z v (Imm (size_mask (operand_size insn 1))) 8 FM_NONE) s;
     write_operand insn 0 (Temp z) s
   }"

definition lift_movsx :: "Instruction \<Rightarrow> LiftSt \<Rightarrow> LiftSt option" where
  "lift_movsx insn s = do {
     (v, s) \<leftarrow> lower_read insn 1 s;
     let (x, s) = fresh s;
     let s = push (Sext x v (operand_size insn 1)) s;
     write_operand insn 0 (Temp x) s
   }"

definition lift_cbw_family :: "nat \<Rightarrow> nat \<Rightarrow> LiftSt \<Rightarrow> LiftSt" where
  "lift_cbw_family from to s =
     (let (rax, s) = lift_read_reg Rax s;
          (x, s) = fresh s;
          s = push (Sext x rax from) s
      in push (WriteReg Rax (Temp x) to) s)"

definition lift_sign_into_dx :: "nat \<Rightarrow> LiftSt \<Rightarrow> LiftSt" where
  "lift_sign_into_dx sz s =
     (let (rax, s) = lift_read_reg Rax s;
          (x, s) = fresh s;
          s = push (Sar x rax (Imm (of_nat (sz * 8 - 1))) sz FM_NONE) s
      in push (WriteReg Rdx (Temp x) sz) s)"

definition lift_setcc :: "Cond \<Rightarrow> Instruction \<Rightarrow> LiftSt \<Rightarrow> LiftSt option" where
  "lift_setcc cond insn s =
     (let (c, s) = fresh s;
          s = push (GetCond c cond) s
      in write_operand insn 0 (Temp c) s)"

definition lift_cmovcc :: "Cond \<Rightarrow> Instruction \<Rightarrow> LiftSt \<Rightarrow> LiftSt option" where
  "lift_cmovcc cond insn s = do {
     (src, s) \<leftarrow> lower_read insn 1 s;
     (dst_val, s) \<leftarrow> lower_read insn 0 s;
     let (c, s) = fresh s;
     let s = push (GetCond c cond) s;
     let (m, s) = fresh s;
     let s = push (Sub m (Imm 0) (Temp c) 8 FM_NONE) s;
     let (diff, s) = fresh s;
     let s = push (Xor diff dst_val src 8 FM_NONE) s;
     let (sel, s) = fresh s;
     let s = push (And sel (Temp diff) (Temp m) 8 FM_NONE) s;
     let (res, s) = fresh s;
     let s = push (Xor res dst_val (Temp sel) 8 FM_NONE) s;
     write_operand insn 0 (Temp res) s
   }"

end
