(* ===== verification/X86_Lift_Ctl.thy ===== *)
theory X86_Lift_Ctl
  imports X86_Lift_Int
begin

text \<open>
  Lifting of stack, string, port and control-flow instructions (\<^verbatim>\<open>lift/control.rs\<close>) and the dispatch on the
  mnemonic (\<^verbatim>\<open>lift/mod.rs\<close>, \<^verbatim>\<open>lift_insn\<close>).  The x87 and vector arms of the dispatch are the argument
  \<open>lift_vector\<close>.  Assertions that only a debug build checks are left out.
\<close>

unbundle bit_operations_syntax

section \<open>Ports\<close>

definition lift_port_io :: "bool \<Rightarrow> Instruction \<Rightarrow> LiftSt \<Rightarrow> LiftSt option" where
  "lift_port_io dir_out insn s =
     (let (acc_idx, port_idx) = (if dir_out then (1, 0) else (0, 1));
          sz = operand_size insn acc_idx
      in if \<not> (sz = 1 \<or> sz = 2 \<or> sz = 4) then None
         else do {
           (port, s) \<leftarrow> (case op_kind insn port_idx of
                Immediate8 \<Rightarrow> Some (Imm (immediate insn port_idx AND 0xFFFF), s)
              | OpRegister \<Rightarrow>
                  let (dx, s) = lift_read_reg Rdx s
                  in Some (alu_none (\<lambda>dst. And dst dx (Imm 0xFFFF) 8 FM_NONE) s)
              | _ \<Rightarrow> None);
           let (v, s) = (if dir_out then lift_read_reg Rax s else (Imm 0, s));
           Some (push (PortIo port v sz dir_out) s)
         })"

section \<open>The stack\<close>

definition lift_push :: "CpuMode \<Rightarrow> Instruction \<Rightarrow> LiftSt \<Rightarrow> LiftSt option" where
  "lift_push m insn s =
     (let sz = push_pop_size insn m
      in do {
        (src, s) \<leftarrow> (case sreg_operand insn 0 of
                       Some seg \<Rightarrow> Some (lift_read_reg seg s)
                     | None \<Rightarrow> lower_read insn 0 s);
        let (rsp, s) = lift_read_reg Rsp s;
        let (new_rsp, s) = fresh s;
        let s = push (Sub new_rsp rsp (Imm (of_nat sz)) 8 FM_NONE) s;
        let s = emit_sp_wrap new_rsp m s;
        let (store_addr, s) = stack_addr (Temp new_rsp) m s;
        let s = push (Store store_addr src sz OrderNone) s;
        Some (push (WriteReg Rsp (Temp new_rsp) (sp_write_size m)) s)
      })"

definition lift_pop :: "CpuMode \<Rightarrow> Instruction \<Rightarrow> LiftSt \<Rightarrow> LiftSt option" where
  "lift_pop m insn s =
     (let sz = push_pop_size insn m;
          (rsp, s) = lift_read_reg Rsp s;
          (load_addr, s) = stack_addr rsp m s;
          (val, s) = lift_load load_addr sz s;
          (new_rsp, s) = fresh s;
          s = push (Add new_rsp rsp (Imm (of_nat sz)) 8 FM_NONE) s;
          s = (if wraps_16 m then emit_sp_wrap new_rsp m s else s);
          rsp_writeback = WriteReg Rsp (Temp new_rsp) (sp_write_size m)
      in do {
        (dst, s) \<leftarrow> (case sreg_operand insn 0 of
                       Some seg \<Rightarrow> Some (TargetReg seg 2, s)
                     | None \<Rightarrow> lower_write_target insn 0 s);
        case dst of
          TargetMem _ _ \<Rightarrow> Some (push rsp_writeback (emit_write dst val s))
        | _ \<Rightarrow> Some (emit_write dst val (push rsp_writeback s))
      })"

definition lift_leave :: "CpuMode \<Rightarrow> Instruction \<Rightarrow> LiftSt \<Rightarrow> LiftSt" where
  "lift_leave m insn s =
     (let stk = (if insn_code insn = Leavew then 2 else stack_slot m);
          (rbp, s) = lift_read_reg Rbp s;
          (val, s) = lift_load rbp stk s;
          (new_rsp, s) = fresh s;
          s = push (Add new_rsp rbp (Imm (of_nat stk)) 8 FM_NONE) s;
          s = push (WriteReg Rbp val stk) s
      in push (WriteReg Rsp (Temp new_rsp) (sp_write_size m)) s)"

definition lift_leave_real16 :: "LiftSt \<Rightarrow> LiftSt" where
  "lift_leave_real16 s =
     (let (bp, s) = lift_read_reg Rbp s;
          (bp16, s) = alu_none (\<lambda>dst. And dst bp (Imm 0xFFFF) 8 FM_NONE) s;
          (load_addr, s) = stack_addr bp16 Real16 s;
          (val, s) = lift_load load_addr 2 s;
          (new_sp, s) = alu_none (\<lambda>dst. Add dst bp16 (Imm 2) 8 FM_NONE) s;
          s = push (WriteReg Rsp new_sp 2) s
      in push (WriteReg Rbp val 2) s)"

section \<open>Calls and returns in real mode\<close>

definition lift_call_real16 :: "Instruction \<Rightarrow> LiftSt \<Rightarrow> LiftSt option" where
  "lift_call_real16 insn s =
     (if is_far_flow insn then None
      else do {
        (target, s) \<leftarrow> branch_target insn Real16 s;
        let return_ip = mask_pc (next_ip insn) Real16;
        let (sp, s) = lift_read_reg Rsp s;
        let (new_sp, s) = fresh s;
        let s = push (Sub new_sp sp (Imm 2) 8 FM_NONE) s;
        let s = emit_sp_wrap new_sp Real16 s;
        let (store_addr, s) = stack_addr (Temp new_sp) Real16 s;
        let s = push (Store store_addr (Imm return_ip) 2 OrderNone) s;
        let s = push (WriteReg Rsp (Temp new_sp) 2) s;
        Some (push (Jump target) s)
      })"

definition ret_pop_extra :: "Instruction \<Rightarrow> u16" where
  "ret_pop_extra insn = (if op_count insn > 0 then immediate16 insn else 0)"

definition lift_ret_real16 :: "Instruction \<Rightarrow> LiftSt \<Rightarrow> LiftSt option" where
  "lift_ret_real16 insn s =
     (if is_far_flow insn then None
      else
        let (sp, s) = lift_read_reg Rsp s;
            (load_addr, s) = stack_addr sp Real16 s;
            (i, s) = lift_load load_addr 2 s;
            (new_sp, s) = fresh s;
            s = push (Add new_sp sp (Imm (2 + ucast (ret_pop_extra insn))) 8 FM_NONE) s;
            s = emit_sp_wrap new_sp Real16 s;
            s = push (WriteReg Rsp (Temp new_sp) 2) s
        in Some (push (Jump i) s))"

definition far_target :: "Instruction \<Rightarrow> LiftSt \<Rightarrow> (Val \<times> Val \<times> LiftSt) option" where
  "far_target insn s =
     (case op_kind insn 0 of
        FarBranch16 \<Rightarrow> Some (Imm (ucast (far_branch_selector insn)), Imm (ucast (far_branch16 insn)), s)
      | OpMemory \<Rightarrow> do {
          (addr, s) \<leftarrow> effective_address insn s;
          let (ip_t, s) = lift_load addr 2 s;
          let (cs_addr, s) = add_addr addr (Imm 2) s;
          let (cs_t, s) = lift_load cs_addr 2 s;
          Some (cs_t, ip_t, s)
        }
      | _ \<Rightarrow> None)"

definition lift_far_jmp_real16 :: "Instruction \<Rightarrow> LiftSt \<Rightarrow> LiftSt option" where
  "lift_far_jmp_real16 insn s = do {
     (cs, i, s) \<leftarrow> far_target insn s;
     Some (push (FarJump cs i) s)
   }"

definition lift_far_call_real16 :: "Instruction \<Rightarrow> LiftSt \<Rightarrow> LiftSt option" where
  "lift_far_call_real16 insn s = do {
     (cs, i, s) \<leftarrow> far_target insn s;
     Some (push (FarCall cs i (ucast (mask_pc (next_ip insn) Real16))) s)
   }"

definition lift_retf_real16 :: "Instruction \<Rightarrow> LiftSt \<Rightarrow> LiftSt" where
  "lift_retf_real16 insn s = push (FarRet (ret_pop_extra insn)) s"

definition lift_loop_real16 :: "LoopKind \<Rightarrow> Instruction \<Rightarrow> LiftSt \<Rightarrow> LiftSt" where
  "lift_loop_real16 kind insn s =
     push (LoopCx kind (mask_pc (near_branch_target insn) Real16) (mask_pc (next_ip insn) Real16)) s"

section \<open>Strings and segments\<close>

definition rep_kind :: "StrOp \<Rightarrow> Instruction \<Rightarrow> RepKind" where
  "rep_kind op insn =
     (let f3 = has_rep_prefix insn \<or> has_repe_prefix insn; f2 = has_repne_prefix insn
      in if op = Scas \<or> op = Cmps
         then (if f2 then Repne else if f3 then Repe else RepNone)
         else (if f3 then Rep else RepNone))"

definition lift_string :: "StrOp \<Rightarrow> nat \<Rightarrow> CpuMode \<Rightarrow> Instruction \<Rightarrow> LiftSt \<Rightarrow> LiftSt" where
  "lift_string op elem m insn s =
     (let addr_bits = (if reg_size (memory_base insn) = 2 then 16
                       else if reg_size (memory_base insn) = 4 then 32 else 64);
          reads_ds_source = (op = Movs \<or> op = Lods \<or> op = Cmps)
      in if wraps_16 m then
           let rep = (if (op = Movs \<or> op = Stos \<or> op = Lods) \<and> has_repne_prefix insn then Rep else rep_kind op insn);
               src_seg = (case iced_segment_reg (memory_segment insn) of Some r \<Rightarrow> r | None \<Rightarrow> Ds);
               (ds_base, s) = seg_base_shl4 src_seg s;
               (es_base, s) = seg_base_shl4 Es s
           in push (RepStringReal op elem rep ds_base es_base) s
         else
           let (seg_base, s) =
                 (if reads_ds_source then
                    (case reg_name (segment_prefix insn) of
                       SegFS \<Rightarrow> lift_read_reg FsBase s
                     | SegGS \<Rightarrow> lift_read_reg GsBase s
                     | _ \<Rightarrow> (Imm 0, s))
                  else (Imm 0, s))
           in push (RepString op elem (rep_kind op insn) addr_bits seg_base) s)"

definition lift_mov_sreg_real16 :: "Instruction \<Rightarrow> LiftSt \<Rightarrow> (bool \<times> LiftSt) option" where
  "lift_mov_sreg_real16 insn s =
     (case sreg_operand insn 0 of
        Some seg \<Rightarrow>
          if seg = Cs then Some (True, push (IntGate 6 (mask_pc (insn_ip insn) Real16)) s)
          else do {
            (src, s) \<leftarrow> lower_read insn 1 s;
            Some (False, push (WriteReg seg src 2) s)
          }
      | None \<Rightarrow> do {
          seg \<leftarrow> sreg_operand insn 1;
          let (sel, s) = lift_read_reg seg s;
          s \<leftarrow> write_operand insn 0 sel s;
          Some (False, s)
        })"

definition lift_xlat_real16 :: "Instruction \<Rightarrow> LiftSt \<Rightarrow> LiftSt" where
  "lift_xlat_real16 insn s =
     (let seg = (case iced_segment_reg (memory_segment insn) of Some r \<Rightarrow> r | None \<Rightarrow> Ds);
          (base, s) = seg_base_shl4 seg s;
          (bx, s) = lift_read_reg Rbx s;
          (bx, s) = alu_none (\<lambda>dst. And dst bx (Imm 0xFFFF) 8 FM_NONE) s;
          (ax, s) = lift_read_reg Rax s;
          (al, s) = alu_none (\<lambda>dst. And dst ax (Imm 0xFF) 8 FM_NONE) s;
          (total, s) = alu_none (\<lambda>dst. Add dst bx al 8 FM_NONE) s;
          (off, s) = alu_none (\<lambda>dst. And dst total (Imm 0xFFFF) 8 FM_NONE) s;
          (addr, s) = add_addr base off s;
          (v, s) = lift_load addr 1 s
      in push (WriteReg Rax v 1) s)"

definition lift_bound_real16 :: "Instruction \<Rightarrow> LiftSt \<Rightarrow> LiftSt option" where
  "lift_bound_real16 insn s =
     (if operand_size insn 0 \<noteq> 2 then None
      else do {
        reg \<leftarrow> iced_to_reg (op_register insn 0);
        let (index, s) = lift_read_reg reg s;
        (addr, s) \<leftarrow> effective_address insn s;
        let (lower, s) = lift_load addr 2 s;
        let (upper_addr, s) = add_addr addr (Imm 2) s;
        let (upper, s) = lift_load upper_addr 2 s;
        Some (push (BoundGate index lower upper (mask_pc (insn_ip insn) Real16) (mask_pc (next_ip insn) Real16)) s)
      })"

definition lift_load_far_ptr_real16 :: "Reg \<Rightarrow> Instruction \<Rightarrow> LiftSt \<Rightarrow> LiftSt option" where
  "lift_load_far_ptr_real16 seg insn s = do {
     dst \<leftarrow> iced_to_reg (op_register insn 0);
     (addr, s) \<leftarrow> effective_address insn s;
     let (off, s) = lift_load addr 2 s;
     let (sel_addr, s) = add_addr addr (Imm 2) s;
     let (sel, s) = lift_load sel_addr 2 s;
     let s = push (WriteReg dst off 2) s;
     Some (push (WriteReg seg sel 2) s)
   }"

section \<open>The dispatch\<close>

text \<open>
  An arm is the mnemonic it matches and what it does.  \<open>fall\<close> marks an arm that leaves the block open
  (\<^verbatim>\<open>Ok(false)\<close>), \<open>stop\<close> one that ends it (\<^verbatim>\<open>Ok(true)\<close>).
\<close>

type_synonym lift_result = "(bool \<times> LiftSt) option"

definition fall :: "LiftSt option \<Rightarrow> lift_result" where
  "fall r = map_option (Pair False) r"

definition stop :: "LiftSt option \<Rightarrow> lift_result" where
  "stop r = map_option (Pair True) r"

definition binop_arms :: "(string \<times> BinOp \<times> FlagMask \<times> bool) list" where
  "binop_arms =
     [(''Add'', BinAdd, FM_ALL, True), (''Adc'', BinAdc, FM_ALL, True), (''Sub'', BinSub, FM_ALL, True),
      (''Sbb'', BinSbb, FM_ALL, True), (''And'', BinAnd, FM_ALL, True), (''Or'', BinOr, FM_ALL, True),
      (''Xor'', BinXor, FM_ALL, True), (''Cmp'', BinSub, FM_ALL, False), (''Test'', BinAnd, FM_ALL, False),
      (''Shl'', BinShl, FM_SHIFT, True), (''Sal'', BinShl, FM_SHIFT, True), (''Shr'', BinShr, FM_SHIFT, True),
      (''Sar'', BinSar, FM_SHIFT, True), (''Rol'', BinRol, FM_CF_OF, True), (''Ror'', BinRor, FM_CF_OF, True),
      (''Rcl'', BinRcl, FM_CF_OF, True), (''Rcr'', BinRcr, FM_CF_OF, True)]"

definition string_arms :: "(string \<times> StrOp \<times> nat) list" where
  "string_arms =
     [(''Movsb'', Movs, 1), (''Movsw'', Movs, 2), (''Movsq'', Movs, 8),
      (''Stosb'', Stos, 1), (''Stosw'', Stos, 2), (''Stosd'', Stos, 4), (''Stosq'', Stos, 8),
      (''Lodsb'', Lods, 1), (''Lodsw'', Lods, 2), (''Lodsd'', Lods, 4), (''Lodsq'', Lods, 8),
      (''Scasb'', Scas, 1), (''Scasw'', Scas, 2), (''Scasd'', Scas, 4), (''Scasq'', Scas, 8),
      (''Cmpsb'', Cmps, 1), (''Cmpsw'', Cmps, 2), (''Cmpsq'', Cmps, 8)]"

definition nop_mnemonics :: "string list" where
  "nop_mnemonics =
     [''Nop'', ''Endbr64'', ''Endbr32'', ''Pause'', ''Wait'', ''Rdsspd'', ''Rdsspq'', ''Prefetchnta'', ''Prefetcht0'',
      ''Prefetcht1'', ''Prefetcht2'', ''Prefetchw'', ''Prefetchwt1'', ''Ldmxcsr'', ''Vldmxcsr'',
      ''Mfence'', ''Lfence'', ''Sfence'']"

definition lift_mov :: "Instruction \<Rightarrow> LiftSt \<Rightarrow> LiftSt option" where
  "lift_mov insn s = do {
     (src, s) \<leftarrow> lower_read insn 1 s;
     write_operand insn 0 src s
   }"

definition lift_lea :: "Instruction \<Rightarrow> LiftSt \<Rightarrow> LiftSt option" where
  "lift_lea insn s = do {
     (addr, s) \<leftarrow> effective_address_no_segment insn s;
     write_operand insn 0 addr s
   }"

definition lift_popcnt :: "Instruction \<Rightarrow> LiftSt \<Rightarrow> LiftSt option" where
  "lift_popcnt insn s = do {
     (src, s) \<leftarrow> lower_read insn 1 s;
     let (t, s) = fresh s;
     let s = push (Popcnt t src (operand_size insn 0)) s;
     write_operand insn 0 (Temp t) s
   }"

definition lift_crc32 :: "Instruction \<Rightarrow> LiftSt \<Rightarrow> LiftSt option" where
  "lift_crc32 insn s = do {
     (crc, s) \<leftarrow> lower_read insn 0 s;
     (src, s) \<leftarrow> lower_read insn 1 s;
     let (t, s) = fresh s;
     let s = push (Crc32 t crc src (operand_size insn 1)) s;
     write_operand insn 0 (Temp t) s
   }"

definition lift_stmxcsr :: "Instruction \<Rightarrow> LiftSt \<Rightarrow> LiftSt option" where
  "lift_stmxcsr insn s = do {
     (addr, s) \<leftarrow> effective_address insn s;
     Some (push (Store addr (Imm 0x1F80) 4 OrderNone) s)
   }"

definition lift_rdtsc :: "LiftSt \<Rightarrow> LiftSt" where
  "lift_rdtsc s = push (WriteReg Rdx (Imm 0) 4) (push (WriteReg Rax (Imm 0x12345678) 4) s)"

definition lift_salc :: "LiftSt \<Rightarrow> LiftSt" where
  "lift_salc s =
     (let (cf, s) = fresh s;
          s = push (GetCond cf Below) s;
          (al, s) = alu_none (\<lambda>dst. Sub dst (Imm 0) (Temp cf) 1 FM_NONE) s
      in push (WriteReg Rax al 1) s)"

definition lift_call :: "CpuMode \<Rightarrow> Instruction \<Rightarrow> LiftSt \<Rightarrow> LiftSt option" where
  "lift_call m insn s = do {
     slot \<leftarrow> call_ret_slot insn m;
     (target, s) \<leftarrow> branch_target insn m s;
     Some (push (Call target (mask_pc (next_ip insn) m) slot (wraps_32 m)) s)
   }"

definition lift_ret :: "CpuMode \<Rightarrow> Instruction \<Rightarrow> LiftSt \<Rightarrow> LiftSt option" where
  "lift_ret m insn s = do {
     slot \<leftarrow> call_ret_slot insn m;
     Some (push (Ret slot (ret_pop_extra insn) (wraps_32 m)) s)
   }"

definition lift_jmp :: "CpuMode \<Rightarrow> Instruction \<Rightarrow> LiftSt \<Rightarrow> LiftSt option" where
  "lift_jmp m insn s = do {
     (target, s) \<leftarrow> branch_target insn m s;
     Some (push (Jump target) s)
   }"

definition lift_int :: "Instruction \<Rightarrow> IrOp" where
  "lift_int insn =
     (if immediate8 insn = 0x80 then Syscall False
      else OpTrap (immediate8 insn) (of_nat (insn_len insn)))"

text \<open>The arms guarded by \<^verbatim>\<open>mode.wraps_16()\<close>, which stand before the generic arm of the same mnemonic.\<close>

definition real16_arms :: "Instruction \<Rightarrow> LiftSt \<Rightarrow> (string \<times> lift_result) list" where
  "real16_arms insn s =
     (let nx = mask_pc (next_ip insn) Real16; here = mask_pc (insn_ip insn) Real16;
          one = (\<lambda>op. fall (Some (push op s))); last = (\<lambda>op. stop (Some (push op s)))
      in
     [(''Retf'', stop (Some (lift_retf_real16 insn s))), (''Call'', stop (lift_call_real16 insn s)),
      (''Ret'', stop (lift_ret_real16 insn s)), (''Leave'', fall (Some (lift_leave_real16 s))),
      (''Ud2'', last (IntGate 6 here)), (''Int3'', last (IntGate 3 nx)), (''Int'', last (IntGate (immediate8 insn) nx)),
      (''Into'', last (IntoGate nx)), (''Bound'', stop (lift_bound_real16 insn s)),
      (''Cli'', one (SetIf False)), (''Sti'', one (SetIf True)), (''Pushf'', one PushfReal), (''Popf'', one PopfReal),
      (''Iret'', last IretReal), (''Clc'', one (SetCf (Some False))), (''Stc'', one (SetCf (Some True))),
      (''Cmc'', one (SetCf None)), (''Daa'', one (Bcd Daa)), (''Das'', one (Bcd Das)), (''Aaa'', one (Bcd Aaa)),
      (''Aas'', one (Bcd Aas)), (''Aam'', one (Bcd (Aam (immediate8 insn)))), (''Aad'', one (Bcd (Aad (immediate8 insn)))),
      (''Loop'', stop (Some (lift_loop_real16 Loop insn s))), (''Loope'', stop (Some (lift_loop_real16 Loope insn s))),
      (''Loopne'', stop (Some (lift_loop_real16 Loopne insn s))), (''Jcxz'', stop (Some (lift_loop_real16 Jcxz insn s))),
      (''Salc'', fall (Some (lift_salc s))), (''Xlatb'', fall (Some (lift_xlat_real16 insn s))),
      (''Pusha'', one PushaReal), (''Popa'', one PopaReal),
      (''Enter'', one (EnterReal (immediate16 insn) (immediate8_2nd insn))),
      (''Les'', fall (lift_load_far_ptr_real16 Es insn s)), (''Lds'', fall (lift_load_far_ptr_real16 Ds insn s))])"

text \<open>The arms that hold in every mode and match on the mnemonic alone.\<close>

definition generic_arms :: "CpuMode \<Rightarrow> Instruction \<Rightarrow> LiftSt \<Rightarrow> (string \<times> lift_result) list" where
  "generic_arms m insn s =
     (let one = (\<lambda>op. fall (Some (push op s))); last = (\<lambda>op. stop (Some (push op s))) in
     [(''Mov'', fall (lift_mov insn s)), (''Movnti'', fall (lift_mov insn s)), (''Lea'', fall (lift_lea insn s)),
      (''Shld'', fall (lift_double_shift True insn s)), (''Shrd'', fall (lift_double_shift False insn s)),
      (''Inc'', fall (lift_incdec BinAdd insn s)), (''Dec'', fall (lift_incdec BinSub insn s)),
      (''Neg'', fall (lift_neg insn s)), (''Not'', fall (lift_not insn s)),
      (''Mul'', fall (lift_widening_mul False insn s)), (''Imul'', fall (lift_imul insn s)),
      (''Div'', fall (lift_div False insn s)), (''Idiv'', fall (lift_div True insn s)),
      (''Bswap'', fall (lift_bswap insn s)), (''Movbe'', fall (lift_movbe insn s)),
      (''Andn'', fall (lift_bmi Andn insn s)), (''Blsi'', fall (lift_bmi Blsi insn s)),
      (''Blsr'', fall (lift_bmi Blsr insn s)), (''Blsmsk'', fall (lift_bmi Blsmsk insn s)),
      (''Bextr'', fall (lift_bmi Bextr insn s)), (''Bzhi'', fall (lift_bmi Bzhi insn s)),
      (''Shlx'', fall (lift_bmi_shift Shl insn s)), (''Shrx'', fall (lift_bmi_shift Shr insn s)),
      (''Sarx'', fall (lift_bmi_shift Sar insn s)), (''Rorx'', fall (lift_bmi_shift Ror insn s)),
      (''Pdep'', fall (lift_bmi Pdep insn s)), (''Pext'', fall (lift_bmi Pext insn s)),
      (''Mulx'', fall (lift_mulx insn s)), (''Xchg'', fall (lift_xchg insn s)), (''Xadd'', fall (lift_xadd insn s)),
      (''Cmpxchg'', fall (lift_cmpxchg insn s)), (''Cpuid'', one Cpuid), (''Xgetbv'', one Xgetbv),
      (''Rdtsc'', fall (Some (lift_rdtsc s))),
      (''Bsf'', fall (lift_bitscan Bsf insn s)), (''Bsr'', fall (lift_bitscan Bsr insn s)),
      (''Tzcnt'', fall (lift_bitscan Tzcnt insn s)), (''Lzcnt'', fall (lift_bitscan Lzcnt insn s)),
      (''Popcnt'', fall (lift_popcnt insn s)), (''Crc32'', fall (lift_crc32 insn s)),
      (''Stmxcsr'', fall (lift_stmxcsr insn s)), (''Vstmxcsr'', fall (lift_stmxcsr insn s)),
      (''Bt'', fall (lift_bt BtTest insn s)), (''Bts'', fall (lift_bt BtSet insn s)),
      (''Btr'', fall (lift_bt BtReset insn s)), (''Btc'', fall (lift_bt BtComplement insn s)),
      (''Std'', one (SetDf True)), (''Cld'', one (SetDf False)),
      (''Movzx'', fall (lift_movzx insn s)), (''Movsx'', fall (lift_movsx insn s)), (''Movsxd'', fall (lift_movsx insn s)),
      (''Cbw'', fall (Some (lift_cbw_family 1 2 s))), (''Cwde'', fall (Some (lift_cbw_family 2 4 s))),
      (''Cdqe'', fall (Some (lift_cbw_family 4 8 s))), (''Cwd'', fall (Some (lift_sign_into_dx 2 s))),
      (''Cdq'', fall (Some (lift_sign_into_dx 4 s))), (''Cqo'', fall (Some (lift_sign_into_dx 8 s))),
      (''Push'', fall (lift_push m insn s)), (''Pop'', fall (lift_pop m insn s)),
      (''Jmp'', stop (lift_jmp m insn s)), (''Call'', stop (lift_call m insn s)), (''Ret'', stop (lift_ret m insn s)),
      (''Leave'', fall (Some (lift_leave m insn s))), (''Syscall'', last (Syscall True)), (''Hlt'', last Hlt),
      (''In'', stop (lift_port_io False insn s)), (''Out'', stop (lift_port_io True insn s)),
      (''Ud2'', last (OpTrap 6 0)), (''Int3'', last (OpTrap 3 (of_nat (insn_len insn)))),
      (''Int1'', last (OpTrap 1 (of_nat (insn_len insn)))), (''Int'', last (lift_int insn)),
      (''Lahf'', one Lahf), (''Sahf'', one Sahf)])"

definition cond_arms :: "CpuMode \<Rightarrow> Instruction \<Rightarrow> LiftSt \<Rightarrow> lift_result option" where
  "cond_arms m insn s =
     (case jcc_cond (mnemonic insn) of
        Some cond \<Rightarrow>
          Some (stop (Some (push (Branch cond (mask_pc (near_branch_target insn) m) (mask_pc (next_ip insn) m)) s)))
      | None \<Rightarrow>
          (case setcc_cond (mnemonic insn) of
             Some cond \<Rightarrow> Some (fall (lift_setcc cond insn s))
           | None \<Rightarrow> map_option (\<lambda>cond. fall (lift_cmovcc cond insn s)) (cmovcc_cond (mnemonic insn))))"

definition lift_insn ::
    "(Instruction \<Rightarrow> LiftSt \<Rightarrow> lift_result) \<Rightarrow> CpuMode \<Rightarrow> Instruction \<Rightarrow> LiftSt \<Rightarrow> lift_result" where
  "lift_insn lift_vector m insn s =
     (let mn = mnemonic insn
      in if mn \<in> set nop_mnemonics then fall (Some s)
         else if mn = ''Mov'' \<and> wraps_16 m \<and> (sreg_operand insn 0 \<noteq> None \<or> sreg_operand insn 1 \<noteq> None)
         then lift_mov_sreg_real16 insn s
         else if (mn = ''Movsd'' \<or> mn = ''Cmpsd'') \<and> \<not> is_reg_xmm insn 0 \<and> \<not> is_reg_xmm insn 1
         then fall (Some (lift_string (if mn = ''Movsd'' then Movs else Cmps) 4 m insn s))
         else if mn = ''Jmp'' \<and> wraps_16 m \<and> is_far_jmp insn then stop (lift_far_jmp_real16 insn s)
         else if mn = ''Call'' \<and> wraps_16 m \<and> is_far_call insn then stop (lift_far_call_real16 insn s)
         else case (if wraps_16 m then map_of (real16_arms insn s) mn else None) of
           Some r \<Rightarrow> r
         | None \<Rightarrow>
             (case map_of binop_arms mn of
                Some (op, fm, wb) \<Rightarrow> fall (lift_binop op fm wb insn s)
              | None \<Rightarrow>
                  (case map_of string_arms mn of
                     Some (op, elem) \<Rightarrow> fall (Some (lift_string op elem m insn s))
                   | None \<Rightarrow>
                       (case map_of (generic_arms m insn s) mn of
                          Some r \<Rightarrow> r
                        | None \<Rightarrow>
                            (case cond_arms m insn s of
                               Some r \<Rightarrow> r
                             | None \<Rightarrow> lift_vector insn s)))))"

end
