(* ===== verification/X86_Lift.thy ===== *)
theory X86_Lift
  imports X86_Lift_Ctl X86_Interp X86_Elide
begin

text \<open>
  Lifting of blocks and regions (\<^verbatim>\<open>lift/mod.rs\<close>) and the single step of the interpreter (\<^verbatim>\<open>interp/mod.rs\<close>,
  \<^verbatim>\<open>step_one\<close>).  The decoder is an argument: from the bitness, the option word, the bytes not yet
  consumed and their address it gives the instruction and the decoder's error state.  The decode loop counts
  down a fuel of one more than the bytes of the fetch window; the decoder consumes at least one byte per
  instruction, so it never runs out.  \<open>None\<close> is a panic of the source.
\<close>

unbundle bit_operations_syntax

section \<open>Fetch and decode\<close>

type_synonym decoder = "nat \<Rightarrow> u32 \<Rightarrow> u8 list \<Rightarrow> u64 \<Rightarrow> Instruction \<times> DecoderError"

type_synonym insn_lifter = "CpuMode \<Rightarrow> Instruction \<Rightarrow> LiftSt \<Rightarrow> lift_result"

text \<open>
  What lifting takes from outside: the decoder, the lifting of one instruction (\<open>lift_insn\<close> with the vector and
  x87 arms filled in) and the environment switch of \<^verbatim>\<open>flag_elision_disabled\<close>.
\<close>

record lift_env =
  decode :: decoder
  insn_lift :: insn_lifter
  elision_disabled :: bool

definition BLOCK_FETCH_WINDOW :: nat where "BLOCK_FETCH_WINDOW = 4096"

definition MAX_INSN_LEN_286 :: nat where "MAX_INSN_LEN_286 = 10"

text \<open>\<^verbatim>\<open>DecoderOptions::NONE\<close> is 0; \<^verbatim>\<open>NO_INVALID_CHECK\<close> is 1.\<close>

definition decoder_options :: "CpuMode \<Rightarrow> u32" where
  "decoder_options m = (if wraps_16 m then 1 else 0)"

definition push_real16_fault :: "Instruction \<Rightarrow> CpuMode \<Rightarrow> u8 \<Rightarrow> LiftSt \<Rightarrow> LiftSt" where
  "push_real16_fault insn m vector s =
     push (IntGate vector (mask_pc (insn_ip insn) m)) (push (InsnStart (insn_ip insn)) s)"

definition emit_real16_ud_if_invalid :: "Instruction \<Rightarrow> DecoderError \<Rightarrow> CpuMode \<Rightarrow> LiftSt \<Rightarrow> LiftSt option" where
  "emit_real16_ud_if_invalid insn last_error m s =
     (if wraps_16 m \<and> last_error = InvalidInstruction then Some (push_real16_fault insn m 6 s) else None)"

text \<open>
  \<^verbatim>\<open>refill_unsupported_bytes\<close>: a length above 15 overruns the fifteen-byte buffer and panics, which is \<open>None\<close>.
\<close>

definition refill_unsupported_bytes :: "LiftError \<Rightarrow> u8 list \<Rightarrow> u64 \<Rightarrow> LiftError option" where
  "refill_unsupported_bytes err code start =
     (case err of
        Unsupported addr bytes len \<Rightarrow>
          let off = unat (addr - start)
          in if off + len \<le> length code
             then if len \<le> 15 then Some (Unsupported addr (take len (drop off code) @ drop len bytes) len) else None
             else Some (Unsupported addr bytes len)
      | DecodeFault _ \<Rightarrow> Some err)"

section \<open>Blocks\<close>

record block_acc =
  acc_st :: LiftSt
  acc_icount :: u32
  acc_len :: u32

definition count_insn :: "Instruction \<Rightarrow> block_acc \<Rightarrow> block_acc" where
  "count_insn insn a = a\<lparr>acc_icount := acc_icount a + 1, acc_len := acc_len a + of_nat (insn_len insn)\<rparr>"


text \<open>
  The decode loop from position \<open>pos\<close> of the window \<open>code\<close>.
\<close>

fun lift_loop ::
    "lift_env \<Rightarrow> CpuMode \<Rightarrow> u8 list \<Rightarrow> u64 \<Rightarrow> nat \<Rightarrow> nat \<Rightarrow> block_acc \<Rightarrow> (LiftError + block_acc) option" where
  "lift_loop E m code start 0 pos a = None"
| "lift_loop E m code start (Suc fuel) pos a =
     (if \<not> pos < length code then Some (Inr a)
      else
        let (insn, err) = decode E (mode_bits m) (decoder_options m) (drop pos code) (start + of_nat pos)
        in if is_invalid insn then
             if err = NoMoreBytes \<and> length code = BLOCK_FETCH_WINDOW \<and> acc_len a > 0 then Some (Inr a)
             else (case emit_real16_ud_if_invalid insn err m (acc_st a) of
                     Some s \<Rightarrow> Some (Inr (count_insn insn (a\<lparr>acc_st := s\<rparr>)))
                   | None \<Rightarrow> Some (Inl (DecodeFault (insn_ip insn))))
           else if wraps_16 m \<and> insn_len insn > MAX_INSN_LEN_286 then
             Some (Inr (count_insn insn (a\<lparr>acc_st := push_real16_fault insn m 13 (acc_st a)\<rparr>)))
           else
             let a = count_insn insn a; s = push (InsnStart (insn_ip insn)) (acc_st a)
             in (case insn_lift E m insn s of
                   None \<Rightarrow> map_option Inl (refill_unsupported_bytes (unsupported_insn insn) code start)
                 | Some (terminated, s) \<Rightarrow>
                     if terminated then Some (Inr (a\<lparr>acc_st := s\<rparr>))
                     else lift_loop E m code start fuel (pos + insn_len insn) (a\<lparr>acc_st := s\<rparr>)))"

definition finish_block :: "lift_env \<Rightarrow> u64 \<Rightarrow> block_acc \<Rightarrow> IrBlock" where
  "finish_block E start a =
     \<lparr>guest_start = start, ops = elide_dead_flags (elision_disabled E) (lops (acc_st a)), temp_count = temps (acc_st a),
      guest_len = acc_len a, icount = acc_icount a\<rparr>"

definition acc_new :: block_acc where
  "acc_new = \<lparr>acc_st = lift_new, acc_icount = 0, acc_len = 0\<rparr>"

definition lift_block :: "lift_env \<Rightarrow> Memory \<Rightarrow> FetchAddr \<Rightarrow> CpuMode \<Rightarrow> (LiftError + IrBlock) option" where
  "lift_block E mem at m = do {
     r \<leftarrow> code_slice (pa at) (of_nat BLOCK_FETCH_WINDOW) mem;
     case r of
       Inl _ \<Rightarrow> Some (Inl (DecodeFault (ip at)))
     | Inr code \<Rightarrow> do {
         res \<leftarrow> lift_loop E m code (ip at) (length code + 1) 0 acc_new;
         case res of Inl e \<Rightarrow> Some (Inl e) | Inr a \<Rightarrow> Some (Inr (finish_block E (ip at) a))
       }
   }"

definition one_block :: "lift_env \<Rightarrow> u64 \<Rightarrow> Instruction \<Rightarrow> LiftSt \<Rightarrow> IrBlock" where
  "one_block E start insn s =
     \<lparr>guest_start = start, ops = elide_dead_flags (elision_disabled E) (lops s), temp_count = temps s,
      guest_len = of_nat (insn_len insn), icount = 1\<rparr>"

definition lift_one :: "lift_env \<Rightarrow> Memory \<Rightarrow> FetchAddr \<Rightarrow> CpuMode \<Rightarrow> (LiftError + IrBlock) option" where
  "lift_one E mem at m = do {
     r \<leftarrow> code_slice (pa at) (of_nat BLOCK_FETCH_WINDOW) mem;
     case r of
       Inl _ \<Rightarrow> Some (Inl (DecodeFault (ip at)))
     | Inr code \<Rightarrow>
         if code = [] then Some (Inl (DecodeFault (ip at)))
         else
           let (insn, err) = decode E (mode_bits m) (decoder_options m) code (ip at)
           in if is_invalid insn then
                (case emit_real16_ud_if_invalid insn err m lift_new of
                   Some s \<Rightarrow> Some (Inr (one_block E (ip at) insn s))
                 | None \<Rightarrow> Some (Inl (DecodeFault (insn_ip insn))))
              else if wraps_16 m \<and> insn_len insn > MAX_INSN_LEN_286 then
                Some (Inr (one_block E (ip at) insn (push_real16_fault insn m 13 lift_new)))
              else
                (case insn_lift E m insn (push (InsnStart (insn_ip insn)) lift_new) of
                   None \<Rightarrow> map_option Inl (refill_unsupported_bytes (unsupported_insn insn) code (ip at))
                 | Some (_, s) \<Rightarrow> Some (Inr (one_block E (ip at) insn s)))
   }"

definition step_one ::
    "lift_env \<Rightarrow> CpuMode \<Rightarrow> CpuState \<Rightarrow> Memory \<Rightarrow> (CpuState \<times> Memory \<times> RetireInfo \<times> StepResult) option" where
  "step_one E m c mem = do {
     r \<leftarrow> lift_one E mem (fetch_for_mode m (rip c) (cs_sel c)) m;
     case r of
       Inr ir \<Rightarrow> interpret_block ir c mem
     | Inl (Unsupported addr bytes len) \<Rightarrow>
         Some (c, mem, \<lparr>info_retired = 0, info_sti_shadow = False\<rparr>, StepExit (ExUnknownInstruction addr bytes len))
     | Inl (DecodeFault addr) \<Rightarrow>
         Some (c, mem, \<lparr>info_retired = 0, info_sti_shadow = False\<rparr>, StepExit (ExUnmappedMemory addr AccExecute))
   }"

section \<open>Regions\<close>

definition static_succs :: "IrBlock \<Rightarrow> u64 list" where
  "static_succs b =
     (if ops b = [] then []
      else case last (ops b) of
             Jump (Imm t) \<Rightarrow> [t]
           | Branch _ taken fallthrough \<Rightarrow> [taken, fallthrough]
           | _ \<Rightarrow> [])"

record region_acc =
  ra_blocks :: "(u64 \<times> IrBlock) list"
  ra_post :: "u64 list"
  ra_icount :: u32

text \<open>
  The depth-first search over static successors.  The work list holds the edges still to follow, each below the
  block it leaves; \<open>Inr a\<close> is the point where block \<open>a\<close> is finished and joins the post-order.  It terminates
  because every lifted block uses up room below the cap.
\<close>

definition block_edges :: "u64 \<Rightarrow> IrBlock \<Rightarrow> (u64 + u64) list" where
  "block_edges a b = map Inl (static_succs b) @ [Inr a]"

function region_dfs ::
    "(u64 \<Rightarrow> (LiftError + IrBlock) option) \<Rightarrow> RegionCaps \<Rightarrow> (u64 + u64) list \<Rightarrow> region_acc \<Rightarrow> region_acc option" where
  "region_dfs lift caps [] r = Some r"
| "region_dfs lift caps (Inr a # ws) r = region_dfs lift caps ws (r\<lparr>ra_post := ra_post r @ [a]\<rparr>)"
| "region_dfs lift caps (Inl t # ws) r =
     (if map_of (ra_blocks r) t \<noteq> None then region_dfs lift caps ws r
      else if length (ra_blocks r) \<ge> max_blocks caps \<or> ra_icount r \<ge> max_icount caps
      then region_dfs lift caps ws r
      else case lift t of
             None \<Rightarrow> None
           | Some (Inl _) \<Rightarrow> region_dfs lift caps ws r
           | Some (Inr b) \<Rightarrow>
               region_dfs lift caps (block_edges t b @ ws)
                 (r\<lparr>ra_blocks := (t, b) # ra_blocks r, ra_icount := ra_icount r + icount b\<rparr>))"
  by pat_completeness auto
termination
  by (relation "inv_image (less_than <*lex*> less_than)
        (\<lambda>(_, caps, ws, r). (max_blocks caps - length (ra_blocks r), length ws))") auto

definition index_of :: "u64 \<Rightarrow> IrBlock list \<Rightarrow> nat option" where
  "index_of a bs = map_of (rev (zip (map guest_start bs) [0..<length bs])) a"

definition region_has_loop :: "IrBlock list \<Rightarrow> bool" where
  "region_has_loop bs \<longleftrightarrow>
     list_ex (\<lambda>(i, b). list_ex (\<lambda>t. case index_of t bs of Some j \<Rightarrow> j \<le> i | None \<Rightarrow> False) (static_succs b))
       (zip [0..<length bs] bs)"

definition lift_region ::
    "lift_env \<Rightarrow> Memory \<Rightarrow> u64 \<Rightarrow> RegionCaps \<Rightarrow> CpuMode \<Rightarrow> (LiftError + IrRegion) option" where
  "lift_region E mem ent caps m = do {
     r \<leftarrow> lift_block E mem (fetch_flat ent) m;
     case r of
       Inl e \<Rightarrow> Some (Inl e)
     | Inr first \<Rightarrow> do {
         acc \<leftarrow> region_dfs (\<lambda>a. lift_block E mem (fetch_flat a) m) caps (block_edges ent first)
                  \<lparr>ra_blocks = [(ent, first)], ra_post = [], ra_icount = icount first\<rparr>;
         ordered \<leftarrow> those (map (map_of (ra_blocks acc)) (rev (ra_post acc)));
         Some (Inr \<lparr>entry = ent, blocks = ordered, has_loop = region_has_loop ordered\<rparr>)
       }
   }"

end
