(* ===== verification/X86_Typing.thy ===== *)
theory X86_Typing
  imports X86_Lift
begin

text \<open>
  A type system for the intermediate representation and its soundness for the interpreter: a well-typed block is
  interpreted without a panic, whatever the registers and the memory hold.  It covers the panics of the operation
  bodies (a temporary out of range, a width \<^verbatim>\<open>write_gpr\<close> rejects) and the termination of repeated string operations.
\<close>

unbundle bit_operations_syntax

section \<open>Well-typed blocks\<close>

text \<open>The number of temporaries a block must have for an operand to exist.\<close>

fun val_bound :: "Val \<Rightarrow> nat" where
  "val_bound (Temp t) = Suc t"
| "val_bound (Imm _) = 0"

text \<open>The widths \<^verbatim>\<open>write_gpr\<close> accepts, for a register that is written through it.\<close>

definition reg_width_ok :: "Reg \<Rightarrow> nat \<Rightarrow> bool" where
  "reg_width_ok reg sz \<longleftrightarrow> gpr_index reg = None \<or> valid_size sz"

abbreviation wt2 :: "nat \<Rightarrow> nat \<Rightarrow> Val \<Rightarrow> Val \<Rightarrow> bool" where
  "wt2 n dst a b \<equiv> dst < n \<and> val_bound a \<le> n \<and> val_bound b \<le> n"

text \<open>
  An operation is well typed in a block of \<open>n\<close> temporaries when every temporary it names is below \<open>n\<close> and every
  width it gives to \<^verbatim>\<open>write_gpr\<close> is one of 1, 2, 4 and 8.
\<close>

primrec wt_op :: "nat \<Rightarrow> IrOp \<Rightarrow> bool" where
  "wt_op n (InsnStart a) \<longleftrightarrow> True"
| "wt_op n (ReadReg dst reg) \<longleftrightarrow> dst < n"
| "wt_op n (WriteReg reg src sz) \<longleftrightarrow> val_bound src \<le> n \<and> reg_width_ok reg sz"
| "wt_op n (Add dst a b sz fm) \<longleftrightarrow> wt2 n dst a b"
| "wt_op n (Sub dst a b sz fm) \<longleftrightarrow> wt2 n dst a b"
| "wt_op n (Adc dst a b sz fm) \<longleftrightarrow> wt2 n dst a b"
| "wt_op n (Sbb dst a b sz fm) \<longleftrightarrow> wt2 n dst a b"
| "wt_op n (And dst a b sz fm) \<longleftrightarrow> wt2 n dst a b"
| "wt_op n (Or dst a b sz fm) \<longleftrightarrow> wt2 n dst a b"
| "wt_op n (Xor dst a b sz fm) \<longleftrightarrow> wt2 n dst a b"
| "wt_op n (Shl dst a b sz fm) \<longleftrightarrow> wt2 n dst a b"
| "wt_op n (Shr dst a b sz fm) \<longleftrightarrow> wt2 n dst a b"
| "wt_op n (Sar dst a b sz fm) \<longleftrightarrow> wt2 n dst a b"
| "wt_op n (DoubleShift dst a b cnt sz left fm) \<longleftrightarrow> wt2 n dst a b \<and> val_bound cnt \<le> n"
| "wt_op n (Rol dst a b sz fm) \<longleftrightarrow> wt2 n dst a b"
| "wt_op n (Ror dst a b sz fm) \<longleftrightarrow> wt2 n dst a b"
| "wt_op n (Rcl dst a b sz fm) \<longleftrightarrow> wt2 n dst a b"
| "wt_op n (Rcr dst a b sz fm) \<longleftrightarrow> wt2 n dst a b"
| "wt_op n (Sext dst a from) \<longleftrightarrow> dst < n \<and> val_bound a \<le> n"
| "wt_op n (Bswap dst a sz) \<longleftrightarrow> dst < n \<and> val_bound a \<le> n"
| "wt_op n (Mul lo hi a b sz sg fm) \<longleftrightarrow> wt2 n lo a b \<and> hi < n"
| "wt_op n (Div quot rem hi lo d sz sg) \<longleftrightarrow> wt2 n quot hi lo \<and> rem < n \<and> val_bound d \<le> n"
| "wt_op n (GetCond dst cond) \<longleftrightarrow> dst < n"
| "wt_op n (Load dst addr sz) \<longleftrightarrow> dst < n \<and> val_bound addr \<le> n"
| "wt_op n (Store addr src sz ord) \<longleftrightarrow> val_bound addr \<le> n \<and> val_bound src \<le> n"
| "wt_op n (Bt result a b sz op) \<longleftrightarrow> wt2 n result a b"
| "wt_op n Cpuid \<longleftrightarrow> True"
| "wt_op n Xgetbv \<longleftrightarrow> True"
| "wt_op n (Popcnt dst src sz) \<longleftrightarrow> dst < n \<and> val_bound src \<le> n"
| "wt_op n (Crc32 dst crc src k) \<longleftrightarrow> wt2 n dst crc src"
| "wt_op n (BitScan dst src old sz op) \<longleftrightarrow> wt2 n dst src old"
| "wt_op n (Bmi dst a b sz op) \<longleftrightarrow> wt2 n dst a b"
| "wt_op n (AtomicRmw old addr src sz op) \<longleftrightarrow> wt2 n old addr src"
| "wt_op n (AtomicCas old addr expected src sz) \<longleftrightarrow> wt2 n old addr expected \<and> val_bound src \<le> n"
| "wt_op n (SetDf v) \<longleftrightarrow> True"
| "wt_op n (SetIf v) \<longleftrightarrow> True"
| "wt_op n PushfReal \<longleftrightarrow> True"
| "wt_op n PopfReal \<longleftrightarrow> True"
| "wt_op n (IntGate vector saved_ip) \<longleftrightarrow> True"
| "wt_op n (IntoGate nx) \<longleftrightarrow> True"
| "wt_op n (BoundGate index lower upper fault_ip nx) \<longleftrightarrow>
     val_bound index \<le> n \<and> val_bound lower \<le> n \<and> val_bound upper \<le> n"
| "wt_op n (SegLimitCheck offset sz vector fault_ip) \<longleftrightarrow> val_bound offset \<le> n"
| "wt_op n IretReal \<longleftrightarrow> True"
| "wt_op n (SetCf v) \<longleftrightarrow> True"
| "wt_op n (Bcd kind) \<longleftrightarrow> True"
| "wt_op n (LoopCx kind taken fallthrough) \<longleftrightarrow> True"
| "wt_op n (FarJump cs i) \<longleftrightarrow> val_bound cs \<le> n \<and> val_bound i \<le> n"
| "wt_op n (FarCall cs i ret_ip) \<longleftrightarrow> val_bound cs \<le> n \<and> val_bound i \<le> n"
| "wt_op n (FarRet pop_extra) \<longleftrightarrow> True"
| "wt_op n (RepString op elem rep addr_bits seg_base) \<longleftrightarrow> val_bound seg_base \<le> n \<and> valid_size elem"
| "wt_op n (RepStringReal op elem rep ds es) \<longleftrightarrow> val_bound ds \<le> n \<and> val_bound es \<le> n \<and> valid_size elem"
| "wt_op n Lahf \<longleftrightarrow> True"
| "wt_op n Sahf \<longleftrightarrow> True"
| "wt_op n PushaReal \<longleftrightarrow> True"
| "wt_op n PopaReal \<longleftrightarrow> True"
| "wt_op n (EnterReal alloc level) \<longleftrightarrow> True"
| "wt_op n (Jump target) \<longleftrightarrow> val_bound target \<le> n"
| "wt_op n (Branch cond taken fallthrough) \<longleftrightarrow> True"
| "wt_op n (Call target return_addr slot wrap_sp) \<longleftrightarrow> val_bound target \<le> n"
| "wt_op n (Ret slot pop_extra wrap_sp) \<longleftrightarrow> True"
| "wt_op n (Syscall is_amd64) \<longleftrightarrow> True"
| "wt_op n Hlt \<longleftrightarrow> True"
| "wt_op n (OpTrap vector adv) \<longleftrightarrow> True"
| "wt_op n (PortIo port v sz dir_out) \<longleftrightarrow> val_bound port \<le> n \<and> val_bound v \<le> n"

definition wt_block :: "IrBlock \<Rightarrow> bool" where
  "wt_block ir \<longleftrightarrow> list_all (wt_op (temp_count ir)) (ops ir)"

section \<open>String operations return\<close>

lemma rcx_others: "RCX \<noteq> RSI" "RCX \<noteq> RDI" "RCX \<noteq> RAX" "RSI \<noteq> RDI" "RDI \<noteq> RSI" "RAX < 16"
  by (simp_all add: reg_defs)

text \<open>A step of a string operation returns and leaves its counter alone.\<close>

definition keeps_rcx :: "CpuState \<Rightarrow> (CpuState \<times> 'm \<times> StrFault option) option \<Rightarrow> bool" where
  "keeps_rcx c r \<longleftrightarrow> (\<exists>c' m' f. r = Some (c', m', f) \<and> gpr c' RCX = gpr c RCX)"

lemma keeps_rcx_simps [simp]:
  "keeps_rcx c (Some (c', m', f)) \<longleftrightarrow> gpr c' RCX = gpr c RCX"
  "keeps_rcx c (str_trap cur a wr t v elem c m)"
  by (auto simp: keeps_rcx_def str_trap_def)

lemma write_rax_ok:
  assumes "valid_size elem"
  obtains c1 where "write_gpr RAX v elem c = Some c1" "gpr c1 RCX = gpr c RCX"
  using write_gpr_merge [OF rcx_others(6) assms, of v c] rcx_others by auto

lemma string_step_ok:
  assumes "valid_size elem"
  shows "keeps_rcx c (string_step sload sstore op elem cur ab sb db stp c m)"
proof (cases "op = Lods")
  case True
  obtain m1 r where ld: "sload (sb + (gpr c RSI AND addr_mask ab)) elem m = (m1, r)" by (cases "sload (sb + (gpr c RSI AND addr_mask ab)) elem m")
  show ?thesis
  proof (cases r)
    case (Inl t)
    with True ld show ?thesis by (simp add: string_step_def Let_def)
  next
    case (Inr v)
    obtain c1 where "write_gpr RAX v elem c = Some c1" "gpr c1 RCX = gpr c RCX" by (rule write_rax_ok [OF assms])
    with True ld Inr show ?thesis by (simp add: string_step_def Let_def set_gpr_def rcx_others)
  qed
next
  case False
  then show ?thesis
    by (cases op) (simp_all add: string_step_def set_gpr_def rcx_others Let_def split: prod.split sum.split)
qed

lemma and_addr_mask: "w AND addr_mask ab = take_bit (if ab = 16 then 16 else if ab = 32 then 32 else 64) w"
  by (simp add: addr_mask_def and_mask_numerals take_bit_word_eq_self)

lemma take_bit_pred:
  fixes x :: "'a::len word"
  assumes "x \<noteq> 0" and "take_bit k x = x"
  shows "take_bit k (x - 1) = x - 1"
proof -
  have "unat (x - 1) \<le> unat x" using assms(1) by (simp add: unat_minus_one)
  also have "unat x = take_bit k (unat x)" using assms(2) by (metis unsigned_take_bit_eq)
  also have "\<dots> < 2 ^ k" by (rule take_bit_nat_less_exp)
  finally have "take_bit k (unat (x - 1)) = unat (x - 1)" by (rule take_bit_nat_eq_self)
  then show ?thesis by (metis unsigned_take_bit_eq word_unat_eq_iff)
qed

lemma advance_down:
  assumes "r AND addr_mask ab \<noteq> 0"
  shows "unat (advance ab (- 1) r AND addr_mask ab) < unat (r AND addr_mask ab)"
proof -
  define k :: nat where "k = (if ab = 16 then 16 else if ab = 32 then 32 else 64)"
  have m: "w AND addr_mask ab = take_bit k w" for w
    unfolding and_addr_mask k_def ..
  have "take_bit k (take_bit k r - 1) = take_bit k r - 1"
    by (rule take_bit_pred) (use assms in \<open>simp_all add: m\<close>)
  moreover have "take_bit k (r AND NOT (addr_mask ab)) = 0"
    unfolding m [symmetric] by (simp add: and.assoc)
  moreover have "advance ab (- 1) r =
      (if ab = 32 then take_bit k (take_bit k r - 1) else (r AND NOT (addr_mask ab)) OR take_bit k (take_bit k r - 1))"
    by (simp only: advance_def Let_def m add_uminus_conv_diff)
  ultimately have "advance ab (- 1) r AND addr_mask ab = take_bit k r - 1"
    unfolding m by (simp add: take_bit_or)
  then show ?thesis using assms by (simp add: m unat_minus_one unat_gt_0)
qed

lemma string_loop_ok:
  assumes "valid_size elem" and "unat (gpr c RCX AND addr_mask ab) < n"
  shows "\<exists>r. string_loop n sload sstore op elem rep cur ab sb db stp c m = Some r"
  using assms(2)
proof (induction n arbitrary: c m)
  case 0
  then show ?case by simp
next
  case (Suc n)
  obtain c' m' f where step: "string_step sload sstore op elem cur ab sb db stp c m = Some (c', m', f)"
    and rcx: "gpr c' RCX = gpr c RCX"
    using string_step_ok [OF assms(1), of c sload sstore op cur ab sb db stp m] unfolding keeps_rcx_def by blast
  define c2 where "c2 = set_gpr RCX (advance ab (- 1) (gpr c' RCX)) c'"
  show ?case
  proof (cases "gpr c RCX AND addr_mask ab = 0")
    case True
    then show ?thesis using step by (cases "rep = RepNone") (simp_all add: Let_def)
  next
    case False
    have "\<exists>r. string_loop n sload sstore op elem rep cur ab sb db stp c2 m' = Some r"
      using Suc.IH [of c2 m'] Suc.prems advance_down [OF False] by (simp add: c2_def set_gpr_def rcx)
    then show ?thesis
      using step by (cases rep) (auto simp: Let_def c2_def [symmetric] simp del: string_loop.simps(1))
  qed
qed

lemma string_run_ok:
  assumes "valid_size elem"
  shows "\<exists>r. string_run_impl sload sstore op elem rep cur ab sb db c m = Some r"
  unfolding string_run_impl_def Let_def by (rule string_loop_ok [OF assms]) (simp add: string_fuel_def)

section \<open>A well-typed block runs\<close>

text \<open>An operation body returns and keeps the number of temporaries.\<close>

definition runs :: "nat \<Rightarrow> exec_result \<Rightarrow> bool" where
  "runs n r \<longleftrightarrow> (\<exists>st x. r = Some (st, x) \<and> length (itemps st) = n)"

lemma runs_Some [simp]: "runs n (Some (st, x)) \<longleftrightarrow> length (itemps st) = n"
  by (simp add: runs_def)

lemma read_val_bound: "val_bound v \<le> length ts \<Longrightarrow> \<exists>x. read_val v ts = Some x"
  by (cases v) (auto simp: idx_def)

lemma runs_read:
  assumes "val_bound v \<le> length ts" and "\<And>x. runs n (f x)"
  shows "runs n (read_val v ts \<bind> f)"
  using read_val_bound [OF assms(1)] assms(2) by auto

lemma runs_set_temp:
  assumes "t < length (itemps st)" and "\<And>st'. length (itemps st') = length (itemps st) \<Longrightarrow> runs n (f st')"
  shows "runs n (set_temp t v st \<bind> f)"
  using assms by (simp add: set_temp_def set_idx_def)

lemma runs_finish [simp]:
  "runs n (next_op st) \<longleftrightarrow> length (itemps st) = n"
  "runs n (stop_op r st) \<longleftrightarrow> length (itemps st) = n"
  "runs n (trap_op cur t a sz k v st) \<longleftrightarrow> length (itemps st) = n"
  "length (itemps (upd_flags f st)) = length (itemps st)"
  "runs n (ends_block mr st) \<longleftrightarrow> length (itemps st) = n"
  "runs n (on_machine g st) \<longleftrightarrow> length (itemps st) = n"
  by (simp_all add: next_op_def stop_op_def trap_op_def trap_out_def upd_flags_def ends_block_def on_machine_def Let_def
      split: prod.split sum.split)

lemma runs_alu_finish [simp]: "runs n (alu_finish d fm r st)" if "d < n" "length (itemps st) = n"
  unfolding alu_finish_def by (rule runs_set_temp) (use that in auto)

lemma runs_shift_finish [simp]: "runs n (shift_finish d fm c r f st)" if "d < n" "length (itemps st) = n"
  unfolding shift_finish_def by (rule runs_set_temp) (use that in auto)

lemma runs_write_reg:
  assumes "reg_width_ok reg sz" and "\<And>c'. runs n (f c')"
  shows "runs n (write_reg reg v sz c \<bind> f)"
  using assms by (cases "gpr_index reg") (auto simp: write_reg_def reg_width_ok_def write_gpr_merge)

lemma runs_write_gpr:
  assumes "valid_size sz" "i < 16" and "\<And>c'. runs n (f c')"
  shows "runs n (write_gpr i v sz c \<bind> f)"
  using assms by (simp add: write_gpr_merge)

lemma runs_str_finish: "runs n (str_finish r st)" if "\<exists>x. r = Some x" "length (itemps st) = n"
  using that by (auto simp: str_finish_def)

lemma runs_if: "(c \<Longrightarrow> runs n x) \<Longrightarrow> (\<not> c \<Longrightarrow> runs n y) \<Longrightarrow> runs n (if c then x else y)"
  by simp

lemma runs_prod: "(\<And>a b. p = (a, b) \<Longrightarrow> runs n (f a b)) \<Longrightarrow> runs n (case p of (a, b) \<Rightarrow> f a b)"
  by (cases p) simp

lemma runs_bind_Some: "runs n (f x) \<Longrightarrow> runs n (Some x \<bind> f)"
  by simp

lemmas runs_intros = runs_read runs_set_temp runs_if runs_prod runs_write_reg runs_bind_Some

lemma runs_cpuid: "runs n (exec_cpuid st)" "runs n (exec_xgetbv st)" if "length (itemps st) = n"
  using that
  by (simp_all add: exec_cpuid_def exec_xgetbv_def cpuid_run_def xgetbv_run_def write_gpr_merge valid_size_def reg_defs
      split: prod.split)

lemma exec_binary_runs:
  assumes "length (itemps st) = n" and "wt2 n d a b"
  shows
    "runs n (exec_add d a b sz fm st)"
    "runs n (exec_adc d a b sz fm st)"
    "runs n (exec_sub d a b sz fm st)"
    "runs n (exec_sbb d a b sz fm st)"
    "runs n (exec_and d a b sz fm st)"
    "runs n (exec_or d a b sz fm st)"
    "runs n (exec_xor d a b sz fm st)"
    "runs n (exec_shl d a b sz fm st)"
    "runs n (exec_shr d a b sz fm st)"
    "runs n (exec_sar d a b sz fm st)"
    "runs n (exec_rol d a b sz fm st)"
    "runs n (exec_ror d a b sz fm st)"
    "runs n (exec_rcl d a b sz fm st)"
    "runs n (exec_rcr d a b sz fm st)"
    "runs n (exec_bt d a b sz bop st)"
    "runs n (exec_crc32 d a b sz st)"
    "runs n (exec_bmi d a b sz mop st)"
    "runs n (exec_bit_scan d a b sz sop st)"
    "runs n (exec_atomic_rmw cur d a b sz rop st)"
  using assms
  by (auto simp: exec_add_def exec_adc_def exec_sub_def exec_sbb_def exec_and_def exec_or_def exec_xor_def exec_shl_def exec_shr_def exec_sar_def exec_rol_def exec_ror_def exec_rcl_def exec_rcr_def exec_bt_def exec_crc32_def exec_bmi_def exec_bit_scan_def exec_atomic_rmw_def Let_def
      split: prod.split sum.split intro!: runs_intros)

lemma exec_wide_runs:
  assumes "length (itemps st) = n" and "wt2 n d a b"
  shows
    "val_bound c \<le> n \<Longrightarrow> runs n (exec_double_shift d a b c sz left fm st)"
    "d' < n \<Longrightarrow> runs n (exec_mul d d' a b sz sg fm st)"
    "d' < n \<Longrightarrow> val_bound c \<le> n \<Longrightarrow> runs n (exec_div cur d d' a b c sz sg st)"
    "val_bound c \<le> n \<Longrightarrow> runs n (exec_atomic_cas cur d a b c sz st)"
  using assms
  by (auto simp: exec_double_shift_def exec_mul_def exec_div_def exec_atomic_cas_def Let_def
      split: prod.split sum.split option.split intro!: runs_intros)

lemma exec_unary_runs:
  assumes "length (itemps st) = n" and "d < n"
  shows
    "runs n (exec_read_reg d r st)"
    "runs n (exec_get_cond d cond st)"
    "val_bound a \<le> n \<Longrightarrow> runs n (exec_sext d a sz st)"
    "val_bound a \<le> n \<Longrightarrow> runs n (exec_bswap d a sz st)"
    "val_bound a \<le> n \<Longrightarrow> runs n (exec_popcnt d a sz st)"
    "val_bound a \<le> n \<Longrightarrow> runs n (exec_load cur d a sz st)"
  using assms
  by (auto simp: exec_read_reg_def exec_get_cond_def exec_sext_def exec_bswap_def exec_popcnt_def exec_load_def Let_def
      split: prod.split sum.split option.split intro!: runs_intros)

lemma exec_effect_runs:
  assumes "length (itemps st) = n" and "val_bound a \<le> n"
  shows
    "reg_width_ok r sz \<Longrightarrow> runs n (exec_write_reg r a sz st)"
    "val_bound b \<le> n \<Longrightarrow> runs n (exec_store cur a b sz st)"
    "val_bound b \<le> n \<Longrightarrow> val_bound c \<le> n \<Longrightarrow> runs n (exec_bound_gate cur a b c fip nip st)"
    "runs n (exec_seg_limit_check cur a sz vec fip st)"
    "runs n (exec_jump a st)"
    "runs n (exec_call cur a ret slot wr st)"
    "val_bound b \<le> n \<Longrightarrow> runs n (exec_port_io be a b sz out st)"
    "valid_size elem \<Longrightarrow> runs n (exec_rep_string cur op elem rep ab a st)"
    "valid_size elem \<Longrightarrow> val_bound b \<le> n \<Longrightarrow> runs n (exec_rep_string_real cur op elem rep a b st)"
  using assms
  by (auto simp: exec_write_reg_def exec_store_def exec_bound_gate_def exec_seg_limit_check_def exec_jump_def
      exec_call_def exec_port_io_def exec_rep_string_def exec_rep_string_real_def string_run_def Let_def
      split: prod.split sum.split intro!: runs_intros runs_str_finish string_run_ok)

lemma exec_state_runs:
  assumes "length (itemps st) = n"
  shows
    "runs n (exec_set_df v st)" "runs n (exec_lahf st)" "runs n (exec_sahf st)" "runs n (exec_pusha_real cur st)"
    "runs n (exec_popa_real cur st)" "runs n (exec_enter_real cur alloc level st)" "runs n (exec_pushf_real cur st)"
    "runs n (exec_popf_real cur st)" "runs n (exec_branch cond taken ft st)" "runs n (exec_ret cur slot extra wr st)"
    "runs n (exec_syscall be amd st)" "runs n (exec_hlt be st)" "runs n (exec_trap cur vec adv st)"
    "runs n (exec_set_cf cfv st)" "runs n (exec_into_gate cur nip st)" "runs n (exec_bcd cur kind st)"
  using assms
  by (simp_all add: exec_set_df_def exec_lahf_def exec_sahf_def exec_pusha_real_def exec_popa_real_def
      exec_enter_real_def exec_pushf_real_def exec_popf_real_def exec_branch_def exec_ret_def exec_syscall_def exec_hlt_def
      exec_trap_def exec_set_cf_def exec_into_gate_def exec_bcd_def Let_def split: prod.split sum.split BcdKind.split)

lemma exec_far_runs:
  assumes "length (itemps st) = n" and "val_bound a \<le> n" and "val_bound b \<le> n"
  shows
    "runs n (exec_far_jump (itemps st) a b s \<bind> (\<lambda>r. ends_block r st))"
    "runs n (exec_far_call (itemps st) cur a b ret s \<bind> (\<lambda>r. ends_block r st))"
  using assms
  by (auto simp: exec_far_jump_def exec_far_call_def intro!: runs_intros)

lemma exec_op_runs:
  assumes "wt_op n op" and "length (itemps st) = n"
  shows "runs n (exec_op cur be op st)"
  using assms
  by (cases op) (simp_all add: exec_binary_runs exec_wide_runs exec_unary_runs exec_effect_runs exec_state_runs
      exec_far_runs runs_cpuid split: prod.split)

lemma walk_ops_ok:
  assumes "list_all (wt_op n) os" and "length (itemps (wst w)) = n"
  shows "\<exists>w' r. walk_ops be os w = Some (w', r)"
  using assms
proof (induction os arbitrary: w)
  case (Cons op os)
  have "\<exists>w' x. walk_op be op w = Some (w', x) \<and> length (itemps (wst w')) = n"
    using exec_op_runs [of n op "wst w" "cur_addr w" be] Cons.prems
    by (cases op) (auto simp: walk_op_def runs_def simp del: exec_op.simps)
  then obtain w' x where "walk_op be op w = Some (w', x)" "length (itemps (wst w')) = n" by blast
  then show ?case using Cons by (cases x) auto
qed simp

lemma interpret_block_ok:
  assumes "wt_block ir"
  shows "\<exists>r. interpret_block ir c m = Some r"
  using walk_ops_ok [of "temp_count ir" "ops ir" "block_start ir c m" "block_end ir"] assms
  by (auto simp: wt_block_def interpret_block_def block_start_def Let_def)

end
