(* ===== verification/X86_Vm.thy ===== *)
theory X86_Vm
  imports X86_Lift X86_Mem_Reach
begin

text \<open>
  The shared machine \<^verbatim>\<open>Vm\<close> (\<^verbatim>\<open>vm.rs\<close>): configuration, mapping with its cache invalidation, the handling of
  self-modifying code, tier-up, and the resolution of an address to a cached block.  A backend is the record of
  the methods of \<^verbatim>\<open>trait Backend\<close> on a state \<open>'b\<close> of its own; \<open>interpreter_backend\<close> is the one of the core
  crate.  Another virtual CPU may run between two locked sections of \<^verbatim>\<open>resolve\<close>; what it does there to the
  machine is an argument of the model.
\<close>

unbundle bit_operations_syntax

section \<open>Backends\<close>

datatype MemConsistency = Fast | AcqRel | FullTso

datatype (plugins only: size) TierUpUnit = TierBlock IrBlock | TierRegion IrRegion

datatype TierUpSubmit = Queued | Busy | UnsupportedSubmit

record TierUpRequest =
  req_pc :: u64
  req_unit :: TierUpUnit
  req_consistency :: MemConsistency
  req_mmio :: "(u64 \<times> u64) option"
  req_guest_base :: u64
  req_spans :: "span list"
  req_epoch :: u64

record TierUpFinished =
  fin_pc :: u64
  fin_block :: CachedBlock
  fin_spans :: "span list"
  fin_epoch :: u64

record 'b Backend =
  be_materialize :: "IrBlock \<Rightarrow> MemConsistency \<Rightarrow> (u64 \<times> u64) option \<Rightarrow> u64 \<Rightarrow> 'b \<Rightarrow> CachedBlock \<times> 'b"
  be_region_caps :: "'b \<Rightarrow> RegionCaps option"
  be_materialize_region ::
    "IrRegion \<Rightarrow> MemConsistency \<Rightarrow> (u64 \<times> u64) option \<Rightarrow> u64 \<Rightarrow> 'b \<Rightarrow> (CachedBlock \<times> 'b) option"
  be_invalidate_links :: "'b \<Rightarrow> 'b"
  be_tier_up_async :: "TierUpRequest \<Rightarrow> 'b \<Rightarrow> TierUpSubmit \<times> 'b"
  be_tier_up_finished :: "'b \<Rightarrow> TierUpFinished list \<times> 'b"
  be_set_tiering :: "bool \<Rightarrow> 'b \<Rightarrow> 'b"

text \<open>\<^verbatim>\<open>InterpreterBackend\<close>: the methods it does not override are the defaults of the trait.\<close>

definition interpreter_backend :: "unit Backend" where
  "interpreter_backend =
     \<lparr>be_materialize = (\<lambda>ir _ _ _ b. (Interpreted ir, b)), be_region_caps = (\<lambda>_. None),
      be_materialize_region = (\<lambda>_ _ _ _ _. None), be_invalidate_links = id,
      be_tier_up_async = (\<lambda>_ b. (UnsupportedSubmit, b)), be_tier_up_finished = (\<lambda>b. ([], b)),
      be_set_tiering = (\<lambda>_. id)\<rparr>"

section \<open>The machine\<close>

record 'b Vm =
  vm_mem :: Memory
  vm_cache :: TranslationCache
  vm_backend :: 'b
  consistency :: MemConsistency
  tier_up_after :: "u32 option"
  tier_up_background :: bool
  tier_up_region_after :: "u32 option"
  vm_features :: GuestCpuFeatures
  vm_x87_precision :: X87Precision
  vm_mode :: CpuMode

definition from_mem :: "Memory \<Rightarrow> 'b \<Rightarrow> MemConsistency \<Rightarrow> 'b Vm" where
  "from_mem mem b c =
     \<lparr>vm_mem = mem, vm_cache = cache_new, vm_backend = b, consistency = c, tier_up_after = None,
      tier_up_background = False, tier_up_region_after = None, vm_features = features_default,
      vm_x87_precision = Fast_precision, vm_mode = Long64\<rparr>"

definition with_backend :: "MemoryModel \<Rightarrow> MemConsistency \<Rightarrow> nat \<Rightarrow> 'b \<Rightarrow> 'b Vm option" where
  "with_backend m c ptr b = map_option (\<lambda>mem. from_mem mem b c) (memory_new m ptr)"

definition with_backend_host_ram ::
    "MemoryModel \<Rightarrow> MemConsistency \<Rightarrow> (nat \<Rightarrow> u8) \<Rightarrow> nat \<Rightarrow> nat \<Rightarrow> bool \<Rightarrow> u64 \<Rightarrow> 'b \<Rightarrow> 'b Vm option" where
  "with_backend_host_ram m c bytes len ptr prot base b =
     map_option (\<lambda>mem. from_mem mem b c) (from_host_ram m bytes len ptr prot base)"

definition set_tier_up_after :: "'b Backend \<Rightarrow> u32 option \<Rightarrow> 'b Vm \<Rightarrow> 'b Vm" where
  "set_tier_up_after B n vm = vm\<lparr>tier_up_after := n, vm_backend := be_set_tiering B (n \<noteq> None) (vm_backend vm)\<rparr>"

definition set_tier_up_background :: "bool \<Rightarrow> 'b Vm \<Rightarrow> 'b Vm" where
  "set_tier_up_background on vm = vm\<lparr>tier_up_background := on\<rparr>"

definition set_tier_up_region_after :: "u32 option \<Rightarrow> 'b Vm \<Rightarrow> 'b Vm" where
  "set_tier_up_region_after n vm = vm\<lparr>tier_up_region_after := n\<rparr>"

definition set_guest_cpu_features :: "GuestCpuFeatures \<Rightarrow> 'b Vm \<Rightarrow> 'b Vm" where
  "set_guest_cpu_features f vm = vm\<lparr>vm_features := f\<rparr>"

definition set_x87_precision :: "X87Precision \<Rightarrow> 'b Vm \<Rightarrow> 'b Vm" where
  "set_x87_precision p vm = vm\<lparr>vm_x87_precision := p\<rparr>"

definition set_cpu_mode :: "CpuMode \<Rightarrow> 'b Vm \<Rightarrow> 'b Vm" where
  "set_cpu_mode m vm = vm\<lparr>vm_mode := m\<rparr>"

text \<open>\<open>Some None\<close> is the source's \<^verbatim>\<open>None\<close>: the memory cannot be copied.\<close>

definition fork_with_backend :: "'c \<Rightarrow> nat \<Rightarrow> 'b Vm \<Rightarrow> 'c Vm option option" where
  "fork_with_backend b ptr vm =
     map_option (map_option (\<lambda>mem.
       \<lparr>vm_mem = mem, vm_cache = cache_new, vm_backend = b, consistency = consistency vm,
        tier_up_after = tier_up_after vm, tier_up_background = tier_up_background vm,
        tier_up_region_after = tier_up_region_after vm, vm_features = vm_features vm,
        vm_x87_precision = vm_x87_precision vm, vm_mode = vm_mode vm\<rparr>)) (deep_copy (vm_mem vm) ptr)"

section \<open>Mapping and self-modifying code\<close>

definition invalidate_links :: "'b Backend \<Rightarrow> 'b Vm \<Rightarrow> 'b Vm" where
  "invalidate_links B vm = vm\<lparr>vm_backend := be_invalidate_links B (vm_backend vm)\<rparr>"

text \<open>\<^verbatim>\<open>invalidate_overlapping\<close> on the cache of a machine, the closure acting on its memory.\<close>

definition vm_invalidate :: "u64 \<Rightarrow> u64 \<Rightarrow> (Memory \<Rightarrow> Memory) \<Rightarrow> 'b Vm \<Rightarrow> BlockKey list \<times> 'b Vm" where
  "vm_invalidate lo hi f vm =
     (let (victims, c, mem) = invalidate_overlapping lo hi f (vm_cache vm, vm_mem vm)
      in (victims, vm\<lparr>vm_cache := c, vm_mem := mem\<rparr>))"

definition vm_map :: "'b Backend \<Rightarrow> u64 \<Rightarrow> u64 \<Rightarrow> Prot \<Rightarrow> RegionKind \<Rightarrow> 'b Vm \<Rightarrow> (MapError + 'b Vm) option" where
  "vm_map B addr sz pr k vm = do {
     r \<leftarrow> mem_map addr sz pr k (vm_mem vm);
     case r of
       Inl e \<Rightarrow> Some (Inl e)
     | Inr mem \<Rightarrow>
         let vm = vm\<lparr>vm_mem := mem\<rparr>
         in if k = TrapKind
            then Some (Inr (invalidate_links B (snd (vm_invalidate 0 (- 1) clear_all_code_pages vm))))
            else Some (Inr vm)
   }"

definition vm_unmap :: "'b Backend \<Rightarrow> u64 \<Rightarrow> u64 \<Rightarrow> 'b Vm \<Rightarrow> MapError + 'b Vm" where
  "vm_unmap B addr sz vm =
     (case unmap addr sz (vm_mem vm) of
        Inl e \<Rightarrow> Inl e
      | Inr mem \<Rightarrow>
          let vm = vm\<lparr>vm_mem := mem\<rparr>;
              lo = addr; hi = saturating_add addr sz;
              (dropped, vm) = vm_invalidate lo hi
                (fold clear_code_page (pages_between (page_of lo) (page_of (saturating_sub hi 1)))) vm
          in Inr (if dropped \<noteq> [] then invalidate_links B vm else vm))"

definition vm_materialize :: "'b Backend \<Rightarrow> IrBlock \<Rightarrow> 'b Vm \<Rightarrow> CachedBlock \<times> 'b Vm" where
  "vm_materialize B ir vm =
     (let (block, b) = be_materialize B ir (consistency vm) (trap_window (vm_mem vm)) (guest_base (vm_mem vm)) (vm_backend vm)
      in (block, vm\<lparr>vm_backend := b\<rparr>))"

definition smc_page :: "u64 \<Rightarrow> bool \<times> 'b Vm \<Rightarrow> bool \<times> 'b Vm" where
  "smc_page page iv =
     (let (invalidated, vm) = iv;
          lo = push_bit CODE_PAGE_BITS page;
          hi = lo + push_bit CODE_PAGE_BITS 1;
          (victims, vm) = vm_invalidate lo hi (clear_code_page page) vm
      in (invalidated \<or> victims \<noteq> [], vm))"

definition handle_smc :: "'b Backend \<Rightarrow> 'b Vm \<Rightarrow> 'b Vm" where
  "handle_smc B vm =
     (let (pages, mem) = take_dirty_code (vm_mem vm);
          (invalidated, vm) = fold smc_page pages (False, vm\<lparr>vm_mem := mem\<rparr>)
      in if invalidated then invalidate_links B vm else vm)"

section \<open>Tier-up\<close>

definition mark_spans :: "span list \<Rightarrow> Memory \<Rightarrow> Memory" where
  "mark_spans sps mem = fold (\<lambda>(start, len). mark_code start len) sps mem"

definition on_cache :: "(TranslationCache \<Rightarrow> TranslationCache) \<Rightarrow> 'b Vm \<Rightarrow> 'b Vm" where
  "on_cache f vm = vm\<lparr>vm_cache := f (vm_cache vm)\<rparr>"

definition publish_finished :: "TierUpFinished \<Rightarrow> 'b Vm \<Rightarrow> 'b Vm" where
  "publish_finished fin vm =
     (let key = block_key (fin_pc fin) (vm_mode vm);
          multi_span = (length (fin_spans fin) > 1);
          (published, c, mem) =
            upgrade_region key (fin_block fin) (fin_spans fin) (fin_epoch fin) mark_spans (vm_cache vm, vm_mem vm);
          c = end_tier_up key c;
          c = (if published
               then (let c = record_tier_bg_published c in if multi_span then record_region c else c)
               else record_tier_bg_rejected c)
      in vm\<lparr>vm_cache := c, vm_mem := mem\<rparr>)"

definition drain_tier_up :: "'b Backend \<Rightarrow> 'b Vm \<Rightarrow> 'b Vm" where
  "drain_tier_up B vm =
     (let (fins, b) = be_tier_up_finished B (vm_backend vm)
      in fold publish_finished fins (vm\<lparr>vm_backend := b\<rparr>))"

definition loop_region :: "IrRegion \<Rightarrow> bool" where
  "loop_region r \<longleftrightarrow> length (blocks r) > 1 \<and> has_loop r"

definition region_candidate ::
    "lift_env \<Rightarrow> 'b Backend \<Rightarrow> u64 \<Rightarrow> CpuMode \<Rightarrow> 'b Vm \<Rightarrow> (bool \<times> 'b Vm) option" where
  "region_candidate E B pc m vm =
     (let key = block_key pc m
      in case be_region_caps B (vm_backend vm) of
           None \<Rightarrow> Some (False, vm)
         | Some caps \<Rightarrow>
             (case region_decision key (vm_cache vm) of
                Some c \<Rightarrow> Some (c, vm)
              | None \<Rightarrow> do {
                  r \<leftarrow> lift_region E (vm_mem vm) pc caps m;
                  let c = (case r of Inr rg \<Rightarrow> loop_region rg | Inl _ \<Rightarrow> False);
                  Some (c, on_cache (set_region_decision key c) vm)
                }))"

text \<open>
  The background branch of \<^verbatim>\<open>resolve\<close>: \<open>True\<close> when the block stays interpreted for now, \<open>False\<close> when the
  backend has no worker and the block is compiled inline.
\<close>

definition submit_unit ::
    "'b Backend \<Rightarrow> u64 \<Rightarrow> CpuMode \<Rightarrow> u64 \<Rightarrow> TierUpUnit \<Rightarrow> span list \<Rightarrow> 'b Vm \<Rightarrow> bool \<times> 'b Vm" where
  "submit_unit B pc m ep un sps vm =
     (let key = block_key pc m;
          (r, b) = be_tier_up_async B
            \<lparr>req_pc = pc, req_unit = un, req_consistency = consistency vm, req_mmio = trap_window (vm_mem vm),
             req_guest_base = guest_base (vm_mem vm), req_spans = sps, req_epoch = ep\<rparr> (vm_backend vm);
          vm = vm\<lparr>vm_backend := b\<rparr>
      in case r of
           Queued \<Rightarrow> (True, vm)
         | Busy \<Rightarrow> (True, on_cache (end_tier_up key) vm)
         | UnsupportedSubmit \<Rightarrow> (False, on_cache (end_tier_up key) vm))"

definition tier_up_submit ::
    "lift_env \<Rightarrow> 'b Backend \<Rightarrow> u64 \<Rightarrow> CpuMode \<Rightarrow> u64 \<Rightarrow> IrBlock \<Rightarrow> u32 \<Rightarrow> u32 \<Rightarrow> 'b Vm \<Rightarrow> (bool \<times> 'b Vm) option" where
  "tier_up_submit E B pc m ep ir thr count vm =
     (let key = block_key pc m; single = [(guest_start ir, guest_len ir)]
      in do {
        (cand, vm) \<leftarrow> region_candidate E B pc m vm;
        if cand \<and> count < (case tier_up_region_after vm of Some t \<Rightarrow> t | None \<Rightarrow> thr) then Some (True, vm)
        else
          let (mine, c) = try_begin_tier_up key (vm_cache vm); vm = vm\<lparr>vm_cache := c\<rparr>
          in if \<not> mine then Some (True, vm)
             else if cand then do {
               caps \<leftarrow> be_region_caps B (vm_backend vm);
               r \<leftarrow> lift_region E (vm_mem vm) pc caps m;
               case r of
                 Inr rg \<Rightarrow>
                   Some (if loop_region rg
                         then submit_unit B pc m ep (TierRegion rg) (X86_Ir.spans rg) vm
                         else submit_unit B pc m ep (TierBlock ir) single vm)
               | Inl _ \<Rightarrow> Some (submit_unit B pc m ep (TierBlock ir) single vm)
             }
             else Some (submit_unit B pc m ep (TierBlock ir) single vm)
      })"

section \<open>Resolution\<close>

datatype (plugins only: size) resolve_outcome = Break | Return CachedBlock | Retry

definition lift_exit :: "LiftError \<Rightarrow> Exit" where
  "lift_exit e =
     (case e of
        Unsupported addr bytes len \<Rightarrow> ExUnknownInstruction addr bytes len
      | DecodeFault addr \<Rightarrow> ExUnmappedMemory addr AccExecute)"

definition finish_single :: "'b Backend \<Rightarrow> BlockKey \<Rightarrow> u64 \<Rightarrow> IrBlock \<Rightarrow> 'b Vm \<Rightarrow> CachedBlock \<times> 'b Vm" where
  "finish_single B key span_start ir vm =
     (let (materialized, vm) = (if tier_up_after vm \<noteq> None then (Interpreted ir, vm) else vm_materialize B ir vm);
          (c, mem) = cache_insert key materialized [(span_start, guest_len ir)]
            (\<lambda>_. mark_code span_start (guest_len ir)) (vm_cache vm, vm_mem vm)
      in (materialized, vm\<lparr>vm_cache := c, vm_mem := mem\<rparr>))"

text \<open>
  One round of the loop of \<^verbatim>\<open>resolve\<close>; \<open>others\<close> is what other virtual CPUs do between the snapshot of the epoch
  and \<^verbatim>\<open>upgrade\<close>.
\<close>

definition resolve_step ::
    "lift_env \<Rightarrow> 'b Backend \<Rightarrow> ('b Vm \<Rightarrow> 'b Vm) \<Rightarrow> u64 \<Rightarrow> CpuMode \<Rightarrow> 'b Vm \<Rightarrow> (resolve_outcome \<times> 'b Vm) option" where
  "resolve_step E B others pc m vm =
     (let key = block_key pc m;
          vm = (if tier_up_background vm then drain_tier_up B vm else vm);
          ep = tc_epoch (vm_cache vm);
          (found, c) = cache_get key (vm_cache vm);
          vm = vm\<lparr>vm_cache := c\<rparr>
      in case found of
           None \<Rightarrow> Some (Break, vm)
         | Some block \<Rightarrow>
             (case (tier_up_after vm, block) of
                (Some thr, Interpreted ir) \<Rightarrow>
                  let (count, c) = bump_hotness key (vm_cache vm); vm = vm\<lparr>vm_cache := c\<rparr>
                  in if count < thr then Some (Return block, vm)
                     else do {
                       (stay, vm) \<leftarrow> (if tier_up_background vm then tier_up_submit E B pc m ep ir thr count vm
                                      else Some (False, vm));
                       if stay then Some (Return block, vm)
                       else
                         let (compiled, vm) = vm_materialize B ir vm;
                             vm = others vm;
                             (ok, c) = upgrade key compiled (guest_start ir, guest_len ir) ep (vm_cache vm);
                             vm = vm\<lparr>vm_cache := c\<rparr>
                         in Some (if ok then Return compiled else Retry, vm)
                     }
              | _ \<Rightarrow> Some (Return block, vm)))"

primrec resolve_loop ::
    "lift_env \<Rightarrow> 'b Backend \<Rightarrow> u64 \<Rightarrow> CpuMode \<Rightarrow> ('b Vm \<Rightarrow> 'b Vm) list \<Rightarrow> 'b Vm \<Rightarrow> (resolve_outcome \<times> 'b Vm) option" where
  "resolve_loop E B pc m [] vm = resolve_step E B id pc m vm"
| "resolve_loop E B pc m (f # fs) vm = do {
     (r, vm) \<leftarrow> resolve_step E B f pc m vm;
     case r of Retry \<Rightarrow> resolve_loop E B pc m fs vm | _ \<Rightarrow> Some (r, vm)
   }"

definition insert_region :: "'b Backend \<Rightarrow> BlockKey \<Rightarrow> IrRegion \<Rightarrow> 'b Vm \<Rightarrow> (CachedBlock \<times> 'b Vm) option" where
  "insert_region B key rg vm = do {
     (block, b) \<leftarrow> be_materialize_region B rg (consistency vm) (trap_window (vm_mem vm)) (guest_base (vm_mem vm)) (vm_backend vm);
     let (c, mem) = cache_insert key block (X86_Ir.spans rg) mark_spans (vm_cache vm, vm_mem vm);
     Some (block, vm\<lparr>vm_backend := b, vm_cache := record_region c, vm_mem := mem\<rparr>)
   }"

text \<open>The miss path; \<open>others\<close> runs between reading the code bytes and publishing the translation.\<close>

definition resolve_miss ::
    "lift_env \<Rightarrow> 'b Backend \<Rightarrow> ('b Vm \<Rightarrow> 'b Vm) \<Rightarrow> FetchAddr \<Rightarrow> CpuMode \<Rightarrow> 'b Vm \<Rightarrow> ((Exit + CachedBlock) \<times> 'b Vm) option" where
  "resolve_miss E B others at m vm =
     (let pc = pa at; key = block_key pc m;
          single = (\<lambda>ir. let (b, vm) = finish_single B key pc ir (others vm) in Some (Inr b, vm))
      in case (if tier_up_background vm then None else be_region_caps B (vm_backend vm)) of
           Some caps \<Rightarrow> do {
             r \<leftarrow> lift_region E (vm_mem vm) pc caps m;
             case r of
               Inl e \<Rightarrow> Some (Inl (lift_exit e), vm)
             | Inr rg \<Rightarrow>
                 if loop_region rg
                 then do { (b, vm) \<leftarrow> insert_region B key rg (others vm); Some (Inr b, vm) }
                 else (case blocks rg of [] \<Rightarrow> None | ir # _ \<Rightarrow> single ir)
           }
         | None \<Rightarrow> do {
             r \<leftarrow> lift_block E (vm_mem vm) at m;
             case r of Inl e \<Rightarrow> Some (Inl (lift_exit e), vm) | Inr ir \<Rightarrow> single ir
           })"

definition resolve ::
    "lift_env \<Rightarrow> 'b Backend \<Rightarrow> ('b Vm \<Rightarrow> 'b Vm) list \<Rightarrow> ('b Vm \<Rightarrow> 'b Vm) \<Rightarrow> FetchAddr \<Rightarrow> CpuMode \<Rightarrow> 'b Vm
     \<Rightarrow> ((Exit + CachedBlock) \<times> 'b Vm) option" where
  "resolve E B fs g at m vm = do {
     (r, vm) \<leftarrow> resolve_loop E B (pa at) m fs vm;
     case r of
       Return b \<Rightarrow> Some (Inr b, vm)
     | Break \<Rightarrow> resolve_miss E B g at m vm
     | Retry \<Rightarrow> None
   }"

end
