(* ===== verification/X86_Coherence.thy ===== *)
theory X86_Coherence
  imports X86_Vm
begin

text \<open>
  Coherence of the translation cache with guest memory. A store by the guest reports every code page on
  which it changes a byte; an entry of the cache records the spans it was translated from; the invariant
  says that every byte of a cached unit lies on a tagged page and is the byte the unit was translated from
  unless its page is waiting for invalidation. Tagging, insertion, invalidation, the handling of self-
  modifying code, mapping and page-aligned unmapping keep it.
\<close>

unbundle bit_operations_syntax

section \<open>Stores that report the code pages they change\<close>

definition tracked :: "Memory \<Rightarrow> Memory \<Rightarrow> bool" where
  "tracked m m' \<longleftrightarrow> same_map m m' \<and> code_page m' = code_page m \<and> set (dirty_code m) \<subseteq> set (dirty_code m') \<and>
     (\<forall>x. mem_byte m' x \<noteq> mem_byte m x \<and> page_of x \<in> page_set (code_page m) \<longrightarrow> page_of x \<in> set (dirty_code m'))"

lemma tracked_refl [simp]: "tracked m m"
  by (simp add: tracked_def)

lemma same_map_trans: "same_map a b \<Longrightarrow> same_map b c \<Longrightarrow> same_map a c"
  by (simp add: same_map_def)

lemma tracked_trans:
  assumes "tracked a b" "tracked b c"
  shows "tracked a c"
proof -
  have s: "code_page b = code_page a" "code_page c = code_page a" "set (dirty_code b) \<subseteq> set (dirty_code c)"
    "set (dirty_code a) \<subseteq> set (dirty_code b)" "same_map a c"
    using assms same_map_trans [of a b c] by (simp_all add: tracked_def)
  have "page_of x \<in> set (dirty_code c)" if "mem_byte c x \<noteq> mem_byte a x" "page_of x \<in> page_set (code_page a)" for x
  proof (cases "mem_byte b x = mem_byte a x")
    case True
    then have "mem_byte c x \<noteq> mem_byte b x" using that(1) by simp
    then show ?thesis using assms(2) that(2) s(1) by (simp add: tracked_def)
  next
    case False
    then have "page_of x \<in> set (dirty_code b)" using assms(1) that(2) by (simp add: tracked_def)
    with s(3) show ?thesis by blast
  qed
  with s show ?thesis by (auto simp: tracked_def)
qed

lemma tracked_hint: "tracked m (m\<lparr>last_region := h\<rparr>)"
  by (simp add: tracked_def same_map_def mem_byte_def host_off_def)

lemma tracked_watch: "tracked m (m\<lparr>watch := w\<rparr>)"
  by (simp add: tracked_def same_map_def mem_byte_def host_off_def)

lemma host_off_diff:
  assumes "host_off x mem = host_off a mem + i" "unat a + i < 2 ^ 64" "guest_base mem \<le> a"
  shows "unat (x - a) = i"
proof -
  have "x - guest_base mem = (a - guest_base mem) + of_nat i"
    using assms by (simp add: host_off_def word_unat_eq_iff unat_word_ariths unat_sub word_le_nat_alt unat_of_nat)
  then have "x - a = of_nat i" by (simp add: algebra_simps)
  then show ?thesis using assms(2) by (simp add: unat_of_nat)
qed

lemma tracked_store:
  assumes wf: "regions_wf mem" and r: "region_for a len mem = Some r"
    and b: "\<And>j. b j \<noteq> backing mem j \<Longrightarrow> host_off a mem \<le> j \<and> j < host_off a mem + unat len"
  shows "tracked mem (note_write a len (mem\<lparr>last_region := h, backing := b\<rparr>))" (is "tracked mem ?m")
proof -
  note d = region_for_SomeD [OF wf r]
  have lt: "unat a + unat len < 2 ^ 64" using d(5) unat_u64_less [of "mem_size mem"] by simp
  have "page_of x \<in> set (code_page_range a len)" if "mem_byte ?m x \<noteq> mem_byte mem x" for x
  proof -
    have "b (host_off x mem) \<noteq> backing mem (host_off x mem)" using that by (simp add: mem_byte_def host_off_def)
    then obtain i where i: "host_off x mem = host_off a mem + i" "i < unat len"
      using b [of "host_off x mem"] by (metis le_iff_add nat_add_left_cancel_less)
    then have "unat (x - a) = i" using lt d(4) by (intro host_off_diff) simp_all
    with i(2) lt show ?thesis by (intro byte_page_in_range) simp_all
  qed
  then show ?thesis by (auto simp: tracked_def same_map_def note_write_dirty)
qed

lemma copy_in_outside: "copy_in b off bs j \<noteq> b j \<Longrightarrow> off \<le> j \<and> j < off + length bs"
  by (auto simp: copy_in_def split: if_splits)

lemma plain_write_outside: "plain_write b off v n j \<noteq> b j \<Longrightarrow> off \<le> j \<and> j < off + n"
  using copy_in_outside [of b off "take n (to_le_bytes 8 v)" j] by (auto simp: plain_write_def)

lemma region_at_tracked:
  assumes "regions_wf mem" "0 < n" "n < 2 ^ 64"
  obtains h where "region_at a n mem = (mem\<lparr>last_region := h\<rparr>, lookup_region a n mem)"
  using region_at_cases [OF assms] .

lemma scalar_tracked:
  assumes "regions_wf mem" "valid_size n"
  shows "tracked mem (fst (mem_read a n mem))" "tracked mem (fst (mem_write a v n mem))"
    "tracked mem (fst (probe_write a n mem))" "tracked mem (fst (atomic_rmw a v n op mem))"
    "tracked mem (fst (atomic_cas a e v n mem))"
proof -
  have n: "0 < n" "n < 2 ^ 64" "unat (of_nat n :: u64) = n" using assms(2) by (auto simp: valid_size_def)
  obtain h where h: "region_at a n mem = (mem\<lparr>last_region := h\<rparr>, lookup_region a n mem)"
    using region_at_cases [OF assms(1) n(1,2)] .
  have o: "host_off a (mem\<lparr>last_region := h\<rparr>) = host_off a mem" by (simp add: host_off_def)
  have st: "tracked mem (note_write a (of_nat n) (mem\<lparr>last_region := h, backing := b\<rparr>))"
    if "lookup_region a n mem = Inr r" "\<And>j. b j \<noteq> backing mem j \<Longrightarrow> host_off a mem \<le> j \<and> j < host_off a mem + n" for r b
    using that n(3) by (intro tracked_store [OF assms(1)]) (auto simp: lookup_region_Inr)
  have w: "tracked mem (note_write a (of_nat n) (mem\<lparr>last_region := h, backing := plain_write (backing mem) (host_off a mem) u n\<rparr>))"
    if "lookup_region a n mem = Inr r" for r u
    using that plain_write_outside by (rule st)
  show "tracked mem (fst (mem_read a n mem))" "tracked mem (fst (probe_write a n mem))"
    by (simp_all add: mem_read_def probe_write_def h tracked_hint split: sum.splits)
  show "tracked mem (fst (mem_write a v n mem))"
    using w assms(2) by (auto simp: mem_write_def h o tracked_hint split: sum.splits)
  show "tracked mem (fst (atomic_rmw a v n op mem))"
    using w assms(2) by (auto simp: atomic_rmw_def h o tracked_hint Let_def atomic_rmw_raw_plain split: sum.splits)
  show "tracked mem (fst (atomic_cas a e v n mem))"
    using w st [where b = "backing mem"] assms(2)
    by (auto simp: atomic_cas_def h o tracked_hint Let_def atomic_cas_raw_plain [OF assms(2), simplified] split: sum.splits)
qed

lemma bulk_tracked:
  assumes "regions_wf mem" "length bs < 2 ^ 64"
  shows "write_bytes a bs mem = Inr mem' \<Longrightarrow> tracked mem mem'" "tracked mem (snd (write_ram_guest a bs mem))"
proof -
  have l: "unat (of_nat (length bs) :: u64) = length bs" using assms(2) by (simp add: unat_of_nat)
  have w: "tracked mem (note_write a (of_nat (length bs)) (mem\<lparr>backing := copy_in (backing mem) (host_off a mem) bs\<rparr>))"
    if "region_for a (of_nat (length bs)) mem = Some r" for r
    using tracked_store [OF assms(1) that, of "copy_in (backing mem) (host_off a mem) bs" "last_region mem"]
      copy_in_outside [of "backing mem" "host_off a mem" bs] l by simp
  show "write_bytes a bs mem = Inr mem' \<Longrightarrow> tracked mem mem'"
    using w by (auto simp: write_bytes_def split: if_splits)
  show "tracked mem (snd (write_ram_guest a bs mem))"
    using w by (auto simp: write_ram_guest_def split: option.splits RegionKind.splits)
qed

inductive guest_store :: "Memory \<Rightarrow> Memory \<Rightarrow> bool" where
  gs_read: "valid_size n \<Longrightarrow> guest_store mem (fst (mem_read a n mem))"
| gs_write: "valid_size n \<Longrightarrow> guest_store mem (fst (mem_write a v n mem))"
| gs_probe: "valid_size n \<Longrightarrow> guest_store mem (fst (probe_write a n mem))"
| gs_rmw: "valid_size n \<Longrightarrow> guest_store mem (fst (atomic_rmw a v n op mem))"
| gs_cas: "valid_size n \<Longrightarrow> guest_store mem (fst (atomic_cas a e v n mem))"
| gs_bytes: "length bs < 2 ^ 64 \<Longrightarrow> write_bytes a bs mem = Inr mem' \<Longrightarrow> guest_store mem mem'"
| gs_wide: "length bs < 2 ^ 64 \<Longrightarrow> guest_store mem (snd (write_ram_guest a bs mem))"

lemma guest_store_tracked:
  assumes "guest_store mem mem'" "mem_inv mem"
  shows "tracked mem mem'" "mem_inv mem'"
proof -
  have wf: "regions_wf mem" using assms(2) by (simp add: mem_inv_def)
  show "tracked mem mem'" using assms(1)
    by cases (use scalar_tracked [OF wf] bulk_tracked [OF wf] in blast)+
  show "mem_inv mem'" using assms(1)
    by cases (use access_inv [OF assms(2)] bulk_inv [OF assms(2)] in blast)+
qed

section \<open>The cache as a map\<close>

lemma update_some [simp]: "map_of (AList.update k v al) = (map_of al)(k \<mapsto> v)"
  by (rule update_conv')

lemma delete_none [simp]: "map_of (AList.delete k al) = (map_of al)(k := None)"
  by (rule delete_conv')

lemma drop_unit_fields:
  "map_of (tc_map (fold drop_unit ks c)) k = (if k \<in> set ks then None else map_of (tc_map c) k)"
  "map_of (tc_spans (fold drop_unit ks c)) k = (if k \<in> set ks then None else map_of (tc_spans c) k)"
  "tc_epoch (fold drop_unit ks c) = tc_epoch c"
  by (induction ks arbitrary: c) (auto simp: drop_unit_def)

definition cache_wf :: "TranslationCache \<Rightarrow> bool" where
  "cache_wf c \<longleftrightarrow> distinct (map fst (tc_map c)) \<and> distinct (map fst (tc_spans c)) \<and>
     dom (map_of (tc_map c)) = dom (map_of (tc_spans c))"

lemma drop_unit_distinct:
  assumes "distinct (map fst (tc_map c))" "distinct (map fst (tc_spans c))"
  shows "distinct (map fst (tc_map (fold drop_unit ks c)))" "distinct (map fst (tc_spans (fold drop_unit ks c)))"
  using assms by (induction ks arbitrary: c) (simp_all add: drop_unit_def distinct_delete)

lemma drop_unit_wf:
  assumes "cache_wf c"
  shows "cache_wf (fold drop_unit ks c)"
proof -
  have "dom (map_of (tc_map (fold drop_unit ks c))) = dom (map_of (tc_map c)) - set ks"
    "dom (map_of (tc_spans (fold drop_unit ks c))) = dom (map_of (tc_spans c)) - set ks"
    by (auto simp: drop_unit_fields dom_def split: if_splits)
  then show ?thesis using assms drop_unit_distinct [of c ks] by (simp add: cache_wf_def)
qed

lemma upsert_wf:
  assumes "cache_wf c"
  shows "cache_wf (c\<lparr>tc_map := AList.update k b (tc_map c), tc_spans := AList.update k sps (tc_spans c)\<rparr>)"
  using assms by (simp add: cache_wf_def distinct_update)

lemma cache_wf_same:
  assumes "tc_map c' = tc_map c" "tc_spans c' = tc_spans c"
  shows "cache_wf c' = cache_wf c"
  using assms by (simp add: cache_wf_def)

lemma invalidate_victims:
  assumes "distinct (map fst (tc_spans c))"
  shows "k \<in> set (fst (invalidate_overlapping lo hi f (c, m))) \<longleftrightarrow>
    (\<exists>sps. map_of (tc_spans c) k = Some sps \<and> list_ex (span_overlaps lo hi) sps)"
  using assms by (auto simp: invalidate_overlapping_def Let_def map_of_eq_Some_iff image_iff Bex_def)

lemma invalidate_fields:
  assumes "invalidate_overlapping lo hi f (c, m) = (vs, c', m')"
  shows "map_of (tc_map c') k = (if k \<in> set vs then None else map_of (tc_map c) k)"
    "map_of (tc_spans c') k = (if k \<in> set vs then None else map_of (tc_spans c) k)"
    "cache_wf c \<Longrightarrow> cache_wf c'" "m' = f m" "tc_epoch c' = (if vs = [] then tc_epoch c else tc_epoch c + 1)"
proof -
  let ?c = "fold drop_unit vs c"
  define v where "v = map fst (filter (\<lambda>(_, ranges). list_ex (span_overlaps lo hi) ranges) (tc_spans c))"
  have e0: "(vs, c', m') =
    (v, if v \<noteq> [] then (fold drop_unit v c)\<lparr>tc_epoch := tc_epoch (fold drop_unit v c) + 1\<rparr> else fold drop_unit v c, f m)"
    using assms unfolding invalidate_overlapping_def Let_def prod.case v_def by (rule sym)
  have e: "c' = (if vs \<noteq> [] then ?c\<lparr>tc_epoch := tc_epoch ?c + 1\<rparr> else ?c)" "m' = f m"
    using e0 by simp_all
  then show "map_of (tc_map c') k = (if k \<in> set vs then None else map_of (tc_map c) k)"
    "map_of (tc_spans c') k = (if k \<in> set vs then None else map_of (tc_spans c) k)"
    "tc_epoch c' = (if vs = [] then tc_epoch c else tc_epoch c + 1)" "m' = f m"
    by (simp_all add: drop_unit_fields)
  show "cache_wf c \<Longrightarrow> cache_wf c'"
    using e drop_unit_wf [of c vs] cache_wf_same [of c' ?c] by simp
qed

section \<open>Coherence of translations and memory\<close>

definition span_bytes :: "span \<Rightarrow> u64 set" where
  "span_bytes sp = {x. unat (x - fst sp) < unat (snd sp)}"

definition span_ok :: "Memory \<Rightarrow> span \<Rightarrow> bool" where
  "span_ok mem sp \<longleftrightarrow> unat (fst sp) + unat (snd sp) \<le> unat (mem_size mem)"

text \<open>
  Every byte of a cached unit lies on a tagged page, and is the byte the unit was translated from (\<open>g\<close> remembers
  it) unless its page is among the pages \<open>D\<close> whose invalidation is pending.
\<close>

definition span_fresh :: "u64 set \<Rightarrow> (u64 \<Rightarrow> u8) \<Rightarrow> Memory \<Rightarrow> span \<Rightarrow> bool" where
  "span_fresh D b mem sp \<longleftrightarrow> span_ok mem sp \<and>
     (\<forall>x\<in>span_bytes sp. page_of x \<in> page_set (code_page mem) \<and> (mem_byte mem x = b x \<or> page_of x \<in> D))"

definition coherent :: "u64 set \<Rightarrow> (BlockKey \<Rightarrow> u64 \<Rightarrow> u8) \<Rightarrow> TranslationCache \<Rightarrow> Memory \<Rightarrow> bool" where
  "coherent D g c mem \<longleftrightarrow> cache_wf c \<and> mem_inv mem \<and>
     (\<forall>k sps. map_of (tc_spans c) k = Some sps \<longrightarrow> (\<forall>sp\<in>set sps. span_fresh D (g k) mem sp))"

lemma coherentD:
  assumes "coherent D g c mem" "map_of (tc_spans c) k = Some sps" "sp \<in> set sps"
  shows "span_fresh D (g k) mem sp"
  using assms by (simp add: coherent_def)

lemma mem_size_small:
  assumes "mem_inv mem"
  shows "unat (mem_size mem) < 2 ^ 44"
proof -
  have "unat (mem_size mem) \<le> unat (guest_base mem) + backing_len mem"
    using assms by (simp add: mem_inv_def regions_wf_def)
  moreover have "unat MAX_TRACKED_SPAN < 2 ^ 44" by (simp add: MAX_TRACKED_SPAN_def CODE_PAGE_BITS_def)
  ultimately show ?thesis using assms by (simp add: mem_inv_def)
qed

lemma span_byte_bounds:
  assumes "span_ok mem sp" "mem_inv mem" "x \<in> span_bytes sp"
  shows "unat (fst sp) \<le> unat x" "unat x < unat (fst sp) + unat (snd sp)" "unat x < unat (mem_size mem)"
    "fst sp \<le> x" "x < fst sp + ucast (snd sp)"
proof -
  have l: "unat (fst sp) + unat (snd sp) < 2 ^ 44" using assms(1) mem_size_small [OF assms(2)] by (simp add: span_ok_def)
  have d: "unat (x - fst sp) < unat (snd sp)" using assms(3) by (simp add: span_bytes_def)
  have x: "unat x = unat (fst sp) + unat (x - fst sp)"
    using unat_add_of_nat [of "fst sp" "unat (x - fst sp)"] d l by simp
  then show "unat (fst sp) \<le> unat x" "unat x < unat (fst sp) + unat (snd sp)" using d by simp_all
  with assms(1) show "unat x < unat (mem_size mem)" by (simp add: span_ok_def)
  show "fst sp \<le> x" using x by (simp add: word_le_nat_alt)
  have "unat (ucast (snd sp) :: u64) = unat (snd sp)"
    by (simp add: unsigned_ucast_eq take_bit_nat_eq_self [OF unat_u32_less])
  then show "x < fst sp + ucast (snd sp)" using x d l by (simp add: word_less_nat_alt unat_word_ariths)
qed

lemma coherent_tracked:
  assumes "coherent D g c mem" "tracked mem mem'" "mem_inv mem'" "set (dirty_code mem') \<subseteq> D'" "D \<subseteq> D'"
  shows "coherent D' g c mem'"
proof -
  have m: "mem_size mem' = mem_size mem" "code_page mem' = code_page mem"
    using assms(2) same_mapD(5) [of mem mem'] by (simp_all add: tracked_def)
  have "span_fresh D' (g k) mem' sp" if "span_fresh D (g k) mem sp" for k sp
    unfolding span_fresh_def m
  proof (intro conjI ballI)
    show "span_ok mem' sp" using that m by (simp add: span_fresh_def span_ok_def)
    fix x assume "x \<in> span_bytes sp"
    then have x: "page_of x \<in> page_set (code_page mem)" "mem_byte mem x = g k x \<or> page_of x \<in> D"
      using that by (simp_all add: span_fresh_def)
    show "page_of x \<in> page_set (code_page mem)" by (rule x(1))
    show "mem_byte mem' x = g k x \<or> page_of x \<in> D'"
    proof (cases "mem_byte mem' x = mem_byte mem x")
      case True
      with x(2) assms(5) show ?thesis by auto
    next
      case False
      then have "page_of x \<in> set (dirty_code mem')" using x(1) assms(2) by (simp add: tracked_def)
      with assms(4) show ?thesis by blast
    qed
  qed
  with assms(1,3) show ?thesis by (auto simp: coherent_def)
qed

lemma coherent_same:
  assumes "coherent D g c mem" "mem_inv mem'" "mem_size mem' = mem_size mem" "mem_byte mem' = mem_byte mem"
    "page_set (code_page mem) \<subseteq> page_set (code_page mem')"
  shows "coherent D g c mem'"
proof -
  have "span_fresh D b mem' sp" if "span_fresh D b mem sp" for b sp
    using that assms(3-5) by (auto simp: span_fresh_def span_ok_def)
  with assms(1,2) show ?thesis by (simp add: coherent_def)
qed

lemma coherent_cache:
  assumes "coherent D g c mem" "tc_map c' = tc_map c" "tc_spans c' = tc_spans c"
  shows "coherent D g c' mem"
  using assms cache_wf_same [of c' c] by (simp add: coherent_def)

section \<open>Tagging\<close>

lemma mark_code_keeps:
  "same_map mem (mark_code a l mem)" "mem_inv mem \<Longrightarrow> mem_inv (mark_code a l mem)"
  "mem_byte (mark_code a l mem) = mem_byte mem" "dirty_code (mark_code a l mem) = dirty_code mem"
  "page_set (code_page mem) \<subseteq> page_set (code_page (mark_code a l mem))"
  "length (code_page (mark_code a l mem)) = length (code_page mem)"
proof -
  show "same_map mem (mark_code a l mem)" by (rule mark_code_same_map)
  show "mem_inv mem \<Longrightarrow> mem_inv (mark_code a l mem)" by (rule mark_code_mem_inv)
  have f: "backing (fold mark_code_page ps m) = backing m \<and> dirty_code (fold mark_code_page ps m) = dirty_code m \<and>
      guest_base (fold mark_code_page ps m) = guest_base m \<and> length (code_page (fold mark_code_page ps m)) = length (code_page m)" for ps m
    by (induction ps arbitrary: m) (simp_all add: mark_code_page_def word_bit_eq)
  then show "mem_byte (mark_code a l mem) = mem_byte mem" "dirty_code (mark_code a l mem) = dirty_code mem"
    "length (code_page (mark_code a l mem)) = length (code_page mem)"
    by (simp_all add: mark_code_def mem_byte_def host_off_def fun_eq_iff)
  show "page_set (code_page mem) \<subseteq> page_set (code_page (mark_code a l mem))" by (auto simp: mark_code_set)
qed

lemma mark_code_tags:
  assumes "mem_inv mem" "span_ok mem sp" "x \<in> span_bytes sp"
  shows "page_of x \<in> page_set (code_page (mark_code (fst sp) (snd sp) mem))"
proof -
  have u: "unat (ucast (snd sp) :: u64) = unat (snd sp)"
    by (simp add: unsigned_ucast_eq take_bit_nat_eq_self [OF unat_u32_less])
  have "unat (fst sp) + unat (snd sp) < 2 ^ 44" using assms(2) mem_size_small [OF assms(1)] by (simp add: span_ok_def)
  then have "page_of x \<in> set (code_page_range (fst sp) (ucast (snd sp)))"
    using assms(3) u by (intro byte_page_in_range) (simp_all add: span_bytes_def)
  moreover have "word_of (page_of x) < length (code_page mem)"
    using covers_page [of "code_page mem" mem x] span_byte_bounds(3) [OF assms(2,1,3)] assms(1)
    by (simp add: mem_inv_def smc_inv_def)
  ultimately show ?thesis by (simp add: mark_code_set)
qed

lemma mark_spans_keeps:
  assumes "mem_inv mem"
  shows "same_map mem (mark_spans sps mem) \<and> mem_inv (mark_spans sps mem) \<and>
    mem_byte (mark_spans sps mem) = mem_byte mem \<and> dirty_code (mark_spans sps mem) = dirty_code mem \<and>
    page_set (code_page mem) \<subseteq> page_set (code_page (mark_spans sps mem)) \<and>
    (\<forall>sp\<in>set sps. span_ok mem sp \<longrightarrow> (\<forall>x\<in>span_bytes sp. page_of x \<in> page_set (code_page (mark_spans sps mem))))"
  using assms
proof (induction sps arbitrary: mem)
  case Nil
  then show ?case by (simp add: mark_spans_def)
next
  case (Cons sp sps)
  obtain a l where sp: "sp = (a, l)" by (cases sp)
  let ?m = "mark_code a l mem"
  have e: "mark_spans (sp # sps) mem = mark_spans sps ?m" by (simp add: mark_spans_def sp)
  note k = mark_code_keeps [where mem = mem and a = a and l = l] mark_code_keeps(2) [OF Cons.prems, where a = a and l = l]
  note IH = Cons.IH [OF k(7)]
  have "span_ok ?m q = span_ok mem q" for q
    using same_mapD(5) [OF k(1)] by (simp add: span_ok_def)
  moreover have "page_of x \<in> page_set (code_page (mark_spans sps ?m))" if "span_ok mem sp" "x \<in> span_bytes sp" for x
    using mark_code_tags [OF Cons.prems that] IH by (auto simp: sp)
  ultimately show ?case
    unfolding e using IH k same_map_trans [OF k(1)] by auto
qed

lemma coherent_insert:
  assumes "coherent D g c mem" "\<forall>sp\<in>set sps. span_ok mem sp"
  shows "coherent D (g(key := mem_byte mem))
    (c\<lparr>tc_map := AList.update key b (tc_map c), tc_spans := AList.update key sps (tc_spans c)\<rparr>) (mark_spans sps mem)"
proof -
  have inv: "mem_inv mem" using assms(1) by (simp add: coherent_def)
  note k = mark_spans_keeps [OF inv, of sps]
  have "mem_size (mark_spans sps mem) = mem_size mem" using k same_mapD(5) by blast
  then have ok: "span_ok (mark_spans sps mem) = span_ok mem" by (simp add: span_ok_def fun_eq_iff)
  have "span_fresh D (mem_byte mem) (mark_spans sps mem) sp" if "sp \<in> set sps" for sp
    using that assms(2) k ok by (auto simp: span_fresh_def)
  moreover have "span_fresh D (g q) (mark_spans sps mem) sp" if "map_of (tc_spans c) q = Some l" "sp \<in> set l" for q l sp
    using coherentD [OF assms(1) that] k ok by (auto simp: span_fresh_def)
  ultimately show ?thesis
    using assms(1) k upsert_wf [where c = c and k = key and b = b and sps = sps] by (auto simp: coherent_def)
qed

section \<open>Invalidation\<close>

lemma span_overlaps_byte:
  assumes "span_ok mem sp" "mem_inv mem" "x \<in> span_bytes sp" "lo \<le> x" "x < hi"
  shows "span_overlaps lo hi sp"
  using span_byte_bounds(4,5) [OF assms(1-3)] assms(4,5) by (auto simp: span_overlaps_def split: prod.splits)

text \<open>Dropping the units that overlap a range, then clearing tags of pages that lie inside the range.\<close>

lemma coherent_invalidate:
  assumes "coherent D g c mem" "invalidate_overlapping lo hi f (c, mem) = (vs, c', mem')"
    and f: "mem_inv (f mem)" "mem_size (f mem) = mem_size mem" "mem_byte (f mem) = mem_byte mem"
    and tags: "\<And>x. unat x < unat (mem_size mem) \<Longrightarrow> page_of x \<in> page_set (code_page mem) \<Longrightarrow> \<not> (lo \<le> x \<and> x < hi) \<Longrightarrow>
       page_of x \<in> page_set (code_page (f mem))"
    and D: "\<And>x. unat x < unat (mem_size mem) \<Longrightarrow> page_of x \<in> D \<Longrightarrow> \<not> (lo \<le> x \<and> x < hi) \<Longrightarrow> page_of x \<in> D'"
  shows "coherent D' g c' mem'"
proof -
  have wf: "cache_wf c" "mem_inv mem" using assms(1) by (simp_all add: coherent_def)
  note i = invalidate_fields [OF assms(2)]
  have "span_fresh D' (g k) (f mem) sp" if k: "map_of (tc_spans c') k = Some sps" "sp \<in> set sps" for k sps sp
  proof -
    have s: "map_of (tc_spans c) k = Some sps" "k \<notin> set vs" using k(1) i(2) [of k] by (simp_all split: if_splits)
    then have no: "\<not> list_ex (span_overlaps lo hi) sps"
      using invalidate_victims [of c k lo hi f mem] wf(1) assms(2) by (simp add: cache_wf_def)
    have fr: "span_fresh D (g k) mem sp" by (rule coherentD [OF assms(1) s(1) k(2)])
    then have ok: "span_ok mem sp" by (simp add: span_fresh_def)
    have out: "\<not> (lo \<le> x \<and> x < hi)" if "x \<in> span_bytes sp" for x
      using no k(2) span_overlaps_byte [OF ok wf(2) that] by (auto simp: list_ex_iff)
    have lt: "unat x < unat (mem_size mem)" if "x \<in> span_bytes sp" for x
      using span_byte_bounds(3) [OF ok wf(2) that] .
    show ?thesis
      using fr f(2,3) tags [OF lt _ out] D [OF lt _ out] by (auto simp: span_fresh_def span_ok_def)
  qed
  then show ?thesis using wf f(1) i(3,4) by (simp add: coherent_def)
qed

lemma page_interval:
  assumes "unat x < 2 ^ 63"
  shows "push_bit CODE_PAGE_BITS (page_of x) \<le> x" "x < push_bit CODE_PAGE_BITS (page_of x) + push_bit CODE_PAGE_BITS 1"
proof -
  have d: "unat x div 4096 * 4096 \<le> unat x" "unat x < unat x div 4096 * 4096 + 4096"
    using dividend_less_div_times [of 4096 "unat x"] by simp_all
  have "unat (push_bit CODE_PAGE_BITS (page_of x) :: u64) = (unat x div 4096 * 4096) mod 2 ^ 64"
    by (simp add: push_bit_eq_mult unat_word_ariths unat_page_of [unfolded CODE_PAGE_BITS_def] CODE_PAGE_BITS_def)
  then have u: "unat (push_bit CODE_PAGE_BITS (page_of x) :: u64) = unat x div 4096 * 4096"
    using d(1) assms by simp
  then show "push_bit CODE_PAGE_BITS (page_of x) \<le> x" using d(1) by (simp add: word_le_nat_alt)
  show "x < push_bit CODE_PAGE_BITS (page_of x) + push_bit CODE_PAGE_BITS 1"
    using u d assms by (simp add: word_less_nat_alt unat_word_ariths CODE_PAGE_BITS_def)
qed

lemma clear_code_keeps:
  "same_map mem (clear_code_page p mem)" "mem_byte (clear_code_page p mem) = mem_byte mem"
  "dirty_code (clear_code_page p mem) = dirty_code mem"
  by (simp_all add: clear_code_page_def word_bit_eq same_map_def mem_byte_def host_off_def fun_eq_iff)

lemma clear_pages_keeps:
  "mem_inv mem \<Longrightarrow> mem_inv (fold clear_code_page ps mem)" "same_map mem (fold clear_code_page ps mem)"
  "mem_byte (fold clear_code_page ps mem) = mem_byte mem" "dirty_code (fold clear_code_page ps mem) = dirty_code mem"
  "page_set (code_page (fold clear_code_page ps mem)) = page_set (code_page mem) - set ps"
proof (induction ps arbitrary: mem)
  case (Cons p ps)
  {
    case 1
    then show ?case using Cons(1) [OF clear_code_mem_inv(1)] by simp
  next
    case 2
    then show ?case using same_map_trans [OF clear_code_keeps(1) [of mem p] Cons(2)] by simp
  next
    case 3
    then show ?case by (simp add: Cons(3) clear_code_keeps)
  next
    case 4
    then show ?case by (simp add: Cons(4) clear_code_keeps)
  next
    case 5
    then show ?case by (simp add: Cons(5) clear_code_page_set) blast
  }
qed simp_all

lemma smc_page_coherent:
  assumes "coherent (insert p D) g (vm_cache vm) (vm_mem vm)" "smc_page p (iv, vm) = (iv', vm')"
  shows "coherent D g (vm_cache vm') (vm_mem vm')" "dirty_code (vm_mem vm') = dirty_code (vm_mem vm)"
proof -
  let ?lo = "push_bit CODE_PAGE_BITS p" and ?c = "vm_cache vm" and ?m = "vm_mem vm"
  let ?hi = "?lo + push_bit CODE_PAGE_BITS 1"
  have inv: "mem_inv ?m" using assms(1) by (simp add: coherent_def)
  obtain vs c' m' where i: "invalidate_overlapping ?lo ?hi (clear_code_page p) (?c, ?m) = (vs, c', m')"
    by (metis prod_cases3)
  then have e: "vm_cache vm' = c'" "vm_mem vm' = m'"
    using assms(2) by (auto simp: smc_page_def Let_def vm_invalidate_def)
  have ne: "page_of x \<noteq> p" if "unat x < unat (mem_size ?m)" "\<not> (?lo \<le> x \<and> x < ?hi)" for x
    using page_interval [of x] that mem_size_small [OF inv] by auto
  show "coherent D g (vm_cache vm') (vm_mem vm')"
    unfolding e
  proof (rule coherent_invalidate [OF assms(1) i])
    show "mem_inv (clear_code_page p ?m)" using inv by (rule clear_code_mem_inv)
    show "mem_size (clear_code_page p ?m) = mem_size ?m" using clear_code_keeps(1) by (rule same_mapD(5))
    show "mem_byte (clear_code_page p ?m) = mem_byte ?m" by (rule clear_code_keeps)
  qed (use ne in \<open>auto simp: clear_code_page_set\<close>)
  show "dirty_code (vm_mem vm') = dirty_code ?m"
    using invalidate_fields(4) [OF i] e by (simp add: clear_code_keeps)
qed

lemma smc_pages_coherent:
  assumes "coherent (set ps \<union> D) g (vm_cache vm) (vm_mem vm)" "fold smc_page ps (iv, vm) = (iv', vm')"
  shows "coherent D g (vm_cache vm') (vm_mem vm') \<and> dirty_code (vm_mem vm') = dirty_code (vm_mem vm)"
  using assms
proof (induction ps arbitrary: iv vm)
  case Nil
  then show ?case by simp
next
  case (Cons p ps)
  obtain i1 vm1 where s: "smc_page p (iv, vm) = (i1, vm1)" by (metis prod.exhaust)
  have "coherent (insert p (set ps \<union> D)) g (vm_cache vm) (vm_mem vm)" using Cons.prems(1) by simp
  note c = smc_page_coherent [OF this s]
  from Cons.IH [OF c(1)] Cons.prems(2) s c(2) show ?case by simp
qed

lemma invalidate_links_same [simp]:
  "vm_cache (invalidate_links B vm) = vm_cache vm" "vm_mem (invalidate_links B vm) = vm_mem vm"
  by (simp_all add: invalidate_links_def)

lemma handle_smc_coherent:
  assumes "coherent (set (dirty_code (vm_mem vm))) g (vm_cache vm) (vm_mem vm)"
  shows "coherent {} g (vm_cache (handle_smc B vm)) (vm_mem (handle_smc B vm)) \<and> dirty_code (vm_mem (handle_smc B vm)) = []"
proof -
  let ?m = "vm_mem vm"
  have inv: "mem_inv ?m" using assms by (simp add: coherent_def)
  obtain ps m where t: "take_dirty_code ?m = (ps, m)" by (metis prod.exhaust)
  have "dirty_flag ?m \<longleftrightarrow> dirty_code ?m \<noteq> []" using inv by (simp add: mem_inv_def smc_inv_def)
  then have p: "ps = dirty_code ?m" "dirty_code m = []" "mem_byte m = mem_byte ?m" "code_page m = code_page ?m" "mem_size m = mem_size ?m"
    using t by (auto simp: take_dirty_code_def mem_byte_def host_off_def mem_size_def fun_eq_iff split: if_splits)
  have "coherent (set ps \<union> {}) g (vm_cache vm) m"
    using coherent_same [OF assms take_dirty_code_inv [OF inv t]] p by simp
  moreover obtain i vm' where f: "fold smc_page ps (False, vm\<lparr>vm_mem := m\<rparr>) = (i, vm')" by (metis prod.exhaust)
  ultimately have "coherent {} g (vm_cache vm') (vm_mem vm') \<and> dirty_code (vm_mem vm') = dirty_code m"
    using smc_pages_coherent [of ps "{}" g "vm\<lparr>vm_mem := m\<rparr>"] by simp
  then show ?thesis using f p(2) by (simp add: handle_smc_def t Let_def p(1) [symmetric])
qed

section \<open>Mapping\<close>

lemma mem_map_keeps:
  assumes "mem_map a n pr k mem = Some (Inr mem')"
  shows "mem_size mem' = mem_size mem" "mem_byte mem' = mem_byte mem" "code_page mem' = code_page mem"
    "dirty_code mem' = dirty_code mem"
  using assms by (auto simp: mem_map_def reprotect_def mem_size_def mem_byte_def host_off_def fun_eq_iff
      split: MemoryModel.splits if_splits option.splits)

lemma unmap_keeps:
  assumes "unmap a n mem = Inr mem'"
  shows "mem_size mem' = mem_size mem" "mem_byte mem' = mem_byte mem" "code_page mem' = code_page mem"
    "dirty_code mem' = dirty_code mem"
  using assms by (auto simp: unmap_def reprotect_def mem_size_def mem_byte_def host_off_def fun_eq_iff split: option.splits)

abbreviation vm_coherent :: "(BlockKey \<Rightarrow> u64 \<Rightarrow> u8) \<Rightarrow> 'b Vm \<Rightarrow> bool" where
  "vm_coherent g vm \<equiv> coherent (set (dirty_code (vm_mem vm))) g (vm_cache vm) (vm_mem vm)"

lemma vm_map_coherent:
  assumes "vm_coherent g vm" "vm_map B a n pr k vm = Some (Inr vm')"
  shows "vm_coherent g vm'"
proof -
  obtain m where m: "mem_map a n pr k (vm_mem vm) = Some (Inr m)"
    using assms(2) by (cases "mem_map a n pr k (vm_mem vm)") (auto simp: vm_map_def split: sum.splits)
  note k = mem_map_keeps [OF m]
  have inv: "mem_inv m" using assms(1) m by (auto simp: coherent_def intro: mem_map_inv)
  have c: "coherent (set (dirty_code m)) g (vm_cache vm) m" using coherent_same [OF assms(1) inv] k by simp
  show ?thesis
  proof (cases "k = TrapKind")
    case False
    then have "vm' = vm\<lparr>vm_mem := m\<rparr>" using assms(2) m by (simp add: vm_map_def Let_def)
    with c show ?thesis by simp
  next
    case True
    obtain vs c' m' where i: "invalidate_overlapping 0 (- 1) clear_all_code_pages (vm_cache vm, m) = (vs, c', m')"
      by (metis prod_cases3)
    then have e: "vm_cache vm' = c'" "vm_mem vm' = clear_all_code_pages m"
      using assms(2) m True invalidate_fields(4) [OF i] by (auto simp: vm_map_def Let_def vm_invalidate_def)
    have f: "mem_size (clear_all_code_pages m) = mem_size m" "mem_byte (clear_all_code_pages m) = mem_byte m"
      "dirty_code (clear_all_code_pages m) = dirty_code m"
      by (simp_all add: clear_all_code_pages_def mem_size_def mem_byte_def host_off_def fun_eq_iff)
    have top: "x < - 1" if "unat x < unat (mem_size m)" for x :: u64
    proof -
      have "unat x < 2 ^ 44" using that mem_size_small [OF inv] by (rule less_trans)
      then have "x \<noteq> - 1" by (auto simp: unsigned_minus_1_eq_mask mask_eq_exp_minus_1)
      then show ?thesis by (simp add: word_order.not_eq_extremum)
    qed
    have "coherent (set (dirty_code m)) g c' m'"
      using top f clear_code_mem_inv(2) [OF inv] by (intro coherent_invalidate [OF c i]) auto
    with e f invalidate_fields(4) [OF i] show ?thesis by simp
  qed
qed

lemma aligned_pages:
  assumes "unat lo mod 4096 = 0" "unat hi mod 4096 = 0" "lo < hi" "page_of x \<in> set (pages_between (page_of lo) (page_of (hi - 1)))"
  shows "lo \<le> x \<and> x < hi"
proof -
  have h: "unat (hi - 1) = unat hi - 1" using assms(3) by (simp add: unat_sub word_le_nat_alt word_less_nat_alt)
  have p: "unat lo div 4096 \<le> unat x div 4096" "unat x div 4096 \<le> (unat hi - 1) div 4096"
    using assms(4) by (simp_all add: set_pages_between word_le_nat_alt unat_page_of h)
  obtain i j where ij: "unat lo = 4096 * i" "unat hi = 4096 * j" using assms(1,2) by (meson mod_0_imp_dvd dvdE)
  have "0 < j" using assms(3) ij by (simp add: word_less_nat_alt)
  then have "(4096 * j - 1) div 4096 < j" by (simp add: div_less_iff_less_mult mult.commute)
  then have "unat x div 4096 < j" using p(2) ij(2) by simp
  then have "unat x < 4096 * j" by (simp add: div_less_iff_less_mult mult.commute)
  moreover have "4096 * i \<le> unat x div 4096 * 4096" using p(1) ij(1) by simp
  then have "4096 * i \<le> unat x" using order_trans [OF _ div_times_less_eq_dividend [of "unat x" 4096]] by simp
  ultimately have "4096 * i \<le> unat x" "unat x < 4096 * j" by simp_all
  with ij show ?thesis by (simp add: word_le_nat_alt word_less_nat_alt)
qed

lemma vm_unmap_coherent:
  assumes "vm_coherent g vm" "vm_unmap B a n vm = Inr vm'" "unat a mod 4096 = 0" "unat n mod 4096 = 0" "0 < n"
  shows "vm_coherent g vm'"
proof -
  obtain m where m: "unmap a n (vm_mem vm) = Inr m"
    using assms(2) by (auto simp: vm_unmap_def split: sum.splits)
  note k = unmap_keeps [OF m]
  let ?hi = "saturating_add a n"
  let ?ps = "pages_between (page_of a) (page_of (?hi - 1))"
  have inv: "mem_inv m" using assms(1) m by (auto simp: coherent_def intro: unmap_inv)
  obtain r where r: "r \<in> set (regions (vm_mem vm))" "region_start r = a" "region_size r = n"
    using m nth_mem by (fastforce simp: unmap_def position_Some_iff split: option.splits)
  have "region_ok (vm_mem vm) r" using r(1) assms(1) by (simp add: coherent_def mem_inv_def regions_wf_def list_all_iff)
  then have le: "unat a + unat n \<le> unat (mem_size (vm_mem vm))" using r by (simp add: region_ok_def)
  moreover have "unat (mem_size (vm_mem vm)) < 2 ^ 44" using assms(1) mem_size_small by (simp add: coherent_def)
  ultimately have u: "unat ?hi = unat a + unat n" by (simp add: saturating_add_def unat_word_ariths)
  have hi: "a < ?hi" "unat ?hi mod 4096 = 0" "saturating_sub ?hi 1 = ?hi - 1"
    using assms(3-5) u by (simp_all add: word_less_nat_alt mod_add_eq [symmetric] saturating_sub_def word_le_nat_alt)
  have c: "coherent (set (dirty_code m)) g (vm_cache vm) m" using coherent_same [OF assms(1) inv] k by simp
  obtain vs c' m' where i: "invalidate_overlapping a ?hi (fold clear_code_page ?ps) (vm_cache vm, m) = (vs, c', m')"
    by (metis prod_cases3)
  then have e: "vm_cache vm' = c'" "vm_mem vm' = fold clear_code_page ?ps m"
    using assms(2) m invalidate_fields(4) [OF i] hi(3) by (auto simp: vm_unmap_def Let_def vm_invalidate_def)
  have "page_of x \<notin> set ?ps" if "\<not> (a \<le> x \<and> x < ?hi)" for x
    using aligned_pages [OF assms(3) hi(2,1)] that by blast
  then have "coherent (set (dirty_code m)) g c' m'"
    using clear_pages_keeps [where mem = m and ps = ?ps] inv same_mapD(5) [OF clear_pages_keeps(2) [where mem = m and ps = ?ps]]
    by (intro coherent_invalidate [OF c i]) auto
  with e k clear_pages_keeps(4) invalidate_fields(4) [OF i] show ?thesis by simp
qed

end
