(* ===== verification/X86_Resolve.thy ===== *)
theory X86_Resolve
  imports X86_Coherence
begin

text \<open>
  Lifting, regions and resolution on coherent machines: the decode loop ends within its fuel and stays
  inside the mapped bytes, a region holds lifted blocks with its entry first, and resolving an address
  returns a cached block and keeps the cache coherent, for every backend that honours the contract of the
  trait. The step relation of a machine collects the operations that change its memory or its cache.
\<close>

unbundle bit_operations_syntax

section \<open>Fetching and lifting\<close>

lemma code_slice_spec:
  assumes "mem_inv mem" "unat w < 2 ^ 32"
  obtains "code_slice a w mem = Some (Inl Unmapped)"
  | code where "code_slice a w mem = Some (Inr code)" "unat a + length code \<le> unat (mem_size mem)" "length code \<le> unat w"
proof (cases "find (\<lambda>r. region_start r \<le> a \<and> a < region_end r) (regions mem)")
  case None
  then show ?thesis using that(1) by (simp add: code_slice_def)
next
  case (Some r)
  then have r: "r \<in> set (regions mem)" "region_start r \<le> a" "a < region_end r" by (auto simp: find_Some_iff)
  have wf: "regions_wf mem" using assms(1) by (simp add: mem_inv_def)
  then have ok: "region_ok mem r" using r(1) by (simp add: regions_wf_def list_all_iff)
  have e: "unat (region_end r) \<le> unat (mem_size mem)" using unat_region_end [OF ok] ok by (simp add: region_ok_def)
  let ?e = "min (saturating_add a w) (region_end r)"
  have sm: "unat (mem_size mem) < 2 ^ 44" by (rule mem_size_small [OF assms(1)])
  have "unat a < 2 ^ 44" using r(3) e sm by (simp add: word_less_nat_alt)
  then have "unat (saturating_add a w) = unat a + unat w" using assms(2) by (simp add: saturating_add_def unat_word_ariths)
  then have u: "unat a \<le> unat ?e" "unat ?e \<le> unat a + unat w" "unat ?e \<le> unat (region_end r)"
    using r(3) by (auto simp: min_def word_le_nat_alt word_less_nat_alt)
  have gb: "guest_base mem \<le> a" "guest_base mem \<le> region_start r" using ok r(2) by (auto simp: region_ok_def)
  have "guest_base mem \<le> ?e" using gb(1) u(1) by (simp add: word_le_nat_alt)
  then have h: "host_off a mem = unat a - unat (guest_base mem)" "host_off ?e mem = unat ?e - unat (guest_base mem)"
    using gb(1) by (simp_all add: host_off_def unat_sub)
  have g: "unat (guest_base mem) \<le> unat a" using gb(1) by (simp add: word_le_nat_alt)
  have "unat (mem_size mem) \<le> unat (guest_base mem) + backing_len mem" using wf by (simp add: regions_wf_def)
  then have "host_off ?e mem \<le> backing_len mem" "host_off a mem \<le> host_off ?e mem"
    unfolding h using u e by linarith+
  then have "code_slice a w mem = Some (Inr (slice mem (host_off a mem) (host_off ?e mem - host_off a mem)))"
    by (simp add: code_slice_def Some Let_def)
  then show ?thesis using u e h g by (intro that(2)) (auto simp: slice_def)
qed

text \<open>
  What lifting relies on of the decoder: an instruction takes between one and fifteen bytes, all of them among
  the bytes it was given.
\<close>

definition decoder_ok :: "lift_env \<Rightarrow> bool" where
  "decoder_ok E \<longleftrightarrow> (\<forall>bits opts bs a. bs \<noteq> [] \<longrightarrow>
     1 \<le> insn_len (fst (decode E bits opts bs a)) \<and> insn_len (fst (decode E bits opts bs a)) \<le> 15 \<and>
     insn_len (fst (decode E bits opts bs a)) \<le> length bs)"

lemma decoder_step:
  assumes "decoder_ok E" "pos < length code" "decode E b opts (drop pos code) a = (insn, err)"
  shows "1 \<le> insn_len insn" "insn_len insn \<le> 15" "pos + insn_len insn \<le> length code"
proof -
  have "drop pos code \<noteq> []" using assms(2) by simp
  then have "1 \<le> insn_len (fst (decode E b opts (drop pos code) a)) \<and> insn_len (fst (decode E b opts (drop pos code) a)) \<le> 15 \<and>
     insn_len (fst (decode E b opts (drop pos code) a)) \<le> length (drop pos code)"
    using assms(1) unfolding decoder_ok_def by blast
  then show "1 \<le> insn_len insn" "insn_len insn \<le> 15" "pos + insn_len insn \<le> length code"
    using assms(2,3) by auto
qed

lemma refill_total: "insn_len insn \<le> 15 \<Longrightarrow> \<exists>e. refill_unsupported_bytes (unsupported_insn insn) code start = Some e"
  by (simp add: refill_unsupported_bytes_def unsupported_insn_def Let_def)

lemma lift_loop_total:
  assumes "decoder_ok E" "length code < pos + n" "pos \<le> length code"
  shows "lift_loop E m code start n pos a \<noteq> None"
  using assms(2,3)
proof (induction n arbitrary: pos a)
  case 0
  then show ?case by simp
next
  case (Suc n)
  obtain insn err where d: "decode E (mode_bits m) (decoder_options m) (drop pos code) (start + of_nat pos) = (insn, err)"
    by fastforce
  show ?case
  proof (cases "pos < length code")
    case True
    note s = decoder_step [OF assms(1) True d]
    have IH: "lift_loop E m code start n (pos + insn_len insn) b \<noteq> None" for b
      using Suc s by (intro Suc.IH) simp_all
    then show ?thesis
      using True d refill_total [OF s(2), of code start] by (auto simp: Let_def split: option.splits prod.splits)
  qed simp
qed

lemma lift_loop_len:
  assumes "decoder_ok E" "length code \<le> 4096"
  shows "lift_loop E m code start n pos a = Some (Inr a') \<Longrightarrow> pos \<le> length code \<Longrightarrow> unat (acc_len a) = pos \<Longrightarrow>
    unat (acc_len a') \<le> length code"
proof (induction n arbitrary: pos a)
  case 0
  then show ?case by simp
next
  case (Suc n)
  obtain insn err where d: "decode E (mode_bits m) (decoder_options m) (drop pos code) (start + of_nat pos) = (insn, err)"
    by fastforce
  show ?case
  proof (cases "pos < length code")
    case True
    note s = decoder_step [OF assms(1) True d]
    have c: "unat (acc_len (count_insn insn (a\<lparr>acc_st := st\<rparr>))) = pos + insn_len insn"
      "unat (acc_len (count_insn insn a)) = pos + insn_len insn" for st
      using Suc.prems(3) s assms(2) by (simp_all add: count_insn_def unat_word_ariths unat_of_nat)
    show ?thesis
      using Suc.prems True d s c Suc.IH [of "pos + insn_len insn"]
      by (auto simp: Let_def split: option.splits prod.splits if_splits)
  next
    case False
    then show ?thesis using Suc.prems by simp
  qed
qed

lemma lift_block_spec:
  assumes "decoder_ok E" "mem_inv mem"
  shows "lift_block E mem at m \<noteq> None"
    "lift_block E mem at m = Some (Inr ir) \<Longrightarrow> guest_start ir = ip at \<and> span_ok mem (pa at, guest_len ir)"
proof -
  have w: "unat (of_nat BLOCK_FETCH_WINDOW :: u64) = 4096" by (simp add: BLOCK_FETCH_WINDOW_def)
  consider "code_slice (pa at) (of_nat BLOCK_FETCH_WINDOW) mem = Some (Inl Unmapped)"
    | code where "code_slice (pa at) (of_nat BLOCK_FETCH_WINDOW) mem = Some (Inr code)"
      "unat (pa at) + length code \<le> unat (mem_size mem)" "length code \<le> 4096"
    using code_slice_spec [OF assms(2), of "of_nat BLOCK_FETCH_WINDOW" "pa at"] w by auto
  then have "lift_block E mem at m \<noteq> None \<and>
    (lift_block E mem at m = Some (Inr ir) \<longrightarrow> guest_start ir = ip at \<and> span_ok mem (pa at, guest_len ir))"
  proof cases
    case (2 code)
    obtain r where r: "lift_loop E m code (ip at) (length code + 1) 0 acc_new = Some r"
      using lift_loop_total [OF assms(1), of code 0 "length code + 1" m "ip at" acc_new] by auto
    have "unat (acc_len a) \<le> length code" if "r = Inr a" for a
      using lift_loop_len [OF assms(1) 2(3), of m "ip at" "length code + 1" 0 acc_new a] r that by (simp add: acc_new_def)
    then show ?thesis using 2 r by (auto simp: lift_block_def finish_block_def span_ok_def split: sum.splits)
  qed (simp add: lift_block_def)
  then show "lift_block E mem at m \<noteq> None"
    "lift_block E mem at m = Some (Inr ir) \<Longrightarrow> guest_start ir = ip at \<and> span_ok mem (pa at, guest_len ir)" by blast+
qed

section \<open>Regions\<close>

definition region_acc_ok :: "(u64 \<Rightarrow> (LiftError + IrBlock) option) \<Rightarrow> region_acc \<Rightarrow> bool" where
  "region_acc_ok lift r \<longleftrightarrow> (\<forall>(a, b)\<in>set (ra_blocks r). lift a = Some (Inr b)) \<and> set (ra_post r) \<subseteq> fst ` set (ra_blocks r)"

lemma region_dfs_ok:
  assumes "region_acc_ok lift r" "\<forall>a. Inr a \<in> set ws \<longrightarrow> a \<in> fst ` set (ra_blocks r)" "\<forall>a. lift a \<noteq> None"
  shows "\<exists>r'. region_dfs lift caps ws r = Some r' \<and> region_acc_ok lift r' \<and>
    (ra_post r' = [] \<longrightarrow> ra_post r = []) \<and>
    (ws \<noteq> [] \<longrightarrow> (\<forall>a. last ws = Inr a \<longrightarrow> ra_post r' \<noteq> [] \<and> last (ra_post r') = a)) \<and>
    (ws = [] \<longrightarrow> r' = r)"
  using assms
proof (induction lift caps ws r rule: region_dfs.induct)
  case (2 lift caps a ws r)
  have "region_acc_ok lift (r\<lparr>ra_post := ra_post r @ [a]\<rparr>)" using 2 by (auto simp: region_acc_ok_def)
  then obtain r' where "region_dfs lift caps ws (r\<lparr>ra_post := ra_post r @ [a]\<rparr>) = Some r'" "region_acc_ok lift r'"
    "ra_post r' \<noteq> []" "ws \<noteq> [] \<longrightarrow> (\<forall>a. last ws = Inr a \<longrightarrow> ra_post r' \<noteq> [] \<and> last (ra_post r') = a)"
    "ws = [] \<longrightarrow> r' = r\<lparr>ra_post := ra_post r @ [a]\<rparr>"
    using 2 by auto
  then show ?case by (cases ws) auto
next
  case (3 lift caps t ws r)
  let ?skip = "map_of (ra_blocks r) t \<noteq> None \<or> length (ra_blocks r) \<ge> max_blocks caps \<or> ra_icount r \<ge> max_icount caps \<or>
    (\<exists>e. lift t = Some (Inl e))"
  show ?case
  proof (cases ?skip)
    case True
    then have "region_dfs lift caps (Inl t # ws) r = region_dfs lift caps ws r" by auto
    moreover have "\<exists>r'. region_dfs lift caps ws r = Some r' \<and> region_acc_ok lift r' \<and>
      (ra_post r' = [] \<longrightarrow> ra_post r = []) \<and>
      (ws \<noteq> [] \<longrightarrow> (\<forall>a. last ws = Inr a \<longrightarrow> ra_post r' \<noteq> [] \<and> last (ra_post r') = a)) \<and> (ws = [] \<longrightarrow> r' = r)"
      using 3(1-3) 3(5-) True by (cases "lift t") auto
    ultimately show ?thesis by (cases ws) auto
  next
    case False
    obtain x where x: "lift t = Some x" using 3(7) by auto
    then obtain b where b: "lift t = Some (Inr b)" using False by (cases x) auto
    let ?r = "r\<lparr>ra_blocks := (t, b) # ra_blocks r, ra_icount := ra_icount r + icount b\<rparr>"
    have "region_acc_ok lift ?r" using 3(5) b by (auto simp: region_acc_ok_def)
    moreover have "\<forall>a. Inr a \<in> set (block_edges t b @ ws) \<longrightarrow> a \<in> fst ` set (ra_blocks ?r)"
      using 3(6) by (auto simp: block_edges_def)
    ultimately obtain r' where "region_dfs lift caps (block_edges t b @ ws) ?r = Some r'" "region_acc_ok lift r'"
      "ra_post r' = [] \<longrightarrow> ra_post r = []"
      "\<forall>a. last (block_edges t b @ ws) = Inr a \<longrightarrow> ra_post r' \<noteq> [] \<and> last (ra_post r') = a"
      using 3(4) [OF _ _ b refl] 3(7) False by (auto simp: block_edges_def)
    then show ?thesis using b False by (cases ws) (auto simp: block_edges_def)
  qed
qed simp

lemma lift_region_spec:
  assumes "decoder_ok E" "mem_inv mem"
  shows "lift_region E mem ent caps m \<noteq> None"
    "lift_region E mem ent caps m = Some (Inr rg) \<Longrightarrow>
       entry rg = ent \<and> blocks rg \<noteq> [] \<and> lift_block E mem (fetch_flat ent) m = Some (Inr (hd (blocks rg))) \<and>
       guest_start (hd (blocks rg)) = ent \<and> (\<forall>sp\<in>set (X86_Ir.spans rg). span_ok mem sp)"
proof -
  let ?l = "\<lambda>a. lift_block E mem (fetch_flat a) m"
  note L = lift_block_spec [OF assms, of "fetch_flat a" m for a]
  have goal: "lift_region E mem ent caps m \<noteq> None \<and> (lift_region E mem ent caps m = Some (Inr rg) \<longrightarrow>
       entry rg = ent \<and> blocks rg \<noteq> [] \<and> lift_block E mem (fetch_flat ent) m = Some (Inr (hd (blocks rg))) \<and>
       guest_start (hd (blocks rg)) = ent \<and> (\<forall>sp\<in>set (X86_Ir.spans rg). span_ok mem sp))"
  proof (cases "?l ent")
    case None
    then show ?thesis using L(1) by simp
  next
    case (Some r)
    show ?thesis
    proof (cases r)
      case (Inl e)
      then show ?thesis using Some by (simp add: lift_region_def)
    next
      case (Inr b)
      let ?r = "\<lparr>ra_blocks = [(ent, b)], ra_post = [], ra_icount = icount b\<rparr>"
      obtain r' where r': "region_dfs ?l caps (block_edges ent b) ?r = Some r'" "region_acc_ok ?l r'"
        "ra_post r' \<noteq> []" "last (ra_post r') = ent"
        using region_dfs_ok [of ?l ?r "block_edges ent b" caps] L(1) Some Inr
        by (fastforce simp: region_acc_ok_def block_edges_def)
      have mo: "\<exists>b. map_of (ra_blocks r') a = Some b \<and> ?l a = Some (Inr b)" if a: "a \<in> set (ra_post r')" for a
      proof -
        obtain b where b: "map_of (ra_blocks r') a = Some b"
          using a r'(2) map_of_eq_None_iff [of "ra_blocks r'" a] by (fastforce simp: region_acc_ok_def)
        then have "(a, b) \<in> set (ra_blocks r')" by (rule map_of_SomeD)
        then show ?thesis using b r'(2) by (auto simp: region_acc_ok_def)
      qed
      define as where "as = rev (ra_post r')"
      have as: "as \<noteq> []" "hd as = ent" "set as = set (ra_post r')" using r'(3,4) by (simp_all add: as_def hd_rev)
      have "\<exists>bs. those (map (map_of (ra_blocks r')) xs) = Some bs \<and> list_all2 (\<lambda>a b. ?l a = Some (Inr b)) xs bs"
        if "set xs \<subseteq> set (ra_post r')" for xs
        using that
      proof (induction xs)
        case (Cons x xs)
        then show ?case using mo [of x] by auto
      qed simp
      then obtain bs where bs: "those (map (map_of (ra_blocks r')) as) = Some bs"
        "list_all2 (\<lambda>a b. ?l a = Some (Inr b)) as bs" using as(3) by blast
      have "bs \<noteq> []" "?l ent = Some (Inr (hd bs))" using bs(2) as(1,2) by (cases as; auto simp: list_all2_Cons1)+
      moreover have "span_ok mem (guest_start b, guest_len b)" if "b \<in> set bs" for b
        using that bs(2) L(2) by (fastforce simp: list_all2_iff in_set_zip fetch_flat_def in_set_conv_nth)
      ultimately show ?thesis using Some Inr r' bs(1) L(2) [of ent "hd bs"]
        by (auto simp: lift_region_def as_def X86_Ir.spans_def fetch_flat_def)
    qed
  qed
  then show "lift_region E mem ent caps m \<noteq> None"
    "lift_region E mem ent caps m = Some (Inr rg) \<Longrightarrow>
       entry rg = ent \<and> blocks rg \<noteq> [] \<and> lift_block E mem (fetch_flat ent) m = Some (Inr (hd (blocks rg))) \<and>
       guest_start (hd (blocks rg)) = ent \<and> (\<forall>sp\<in>set (X86_Ir.spans rg). span_ok mem sp)"
    by blast+
qed

section \<open>Interpreted units\<close>

text \<open>In the flat modes an interpreted unit covers exactly the bytes of its block.\<close>

definition units_flat :: "TranslationCache \<Rightarrow> bool" where
  "units_flat c \<longleftrightarrow> (\<forall>k ir. map_of (tc_map c) k = Some (Interpreted ir) \<longrightarrow>
     map_of (tc_spans c) k = Some [(guest_start ir, guest_len ir)])"

definition shrinks :: "TranslationCache \<Rightarrow> TranslationCache \<Rightarrow> bool" where
  "shrinks c c' \<longleftrightarrow> (\<forall>k. map_of (tc_map c') k = None \<or>
     map_of (tc_map c') k = map_of (tc_map c) k \<and> map_of (tc_spans c') k = map_of (tc_spans c) k)"

lemma shrinks_refl [simp]: "shrinks c c"
  by (simp add: shrinks_def)

lemma shrinks_trans: "shrinks a b \<Longrightarrow> shrinks b c \<Longrightarrow> shrinks a c"
  unfolding shrinks_def by metis

lemma units_flat_shrinks: "units_flat c \<Longrightarrow> shrinks c c' \<Longrightarrow> units_flat c'"
  unfolding units_flat_def shrinks_def by (metis option.distinct(1))

lemma vm_invalidate_shrinks: "vm_invalidate lo hi f vm = (vs, vm') \<Longrightarrow> shrinks (vm_cache vm) (vm_cache vm')"
  using invalidate_fields(1,2) [of lo hi f "vm_cache vm" "vm_mem vm"]
  by (auto simp: vm_invalidate_def shrinks_def split: prod.splits if_splits)

lemma vm_invalidate_keeps: "vm_invalidate lo hi f vm = (vs, vm') \<Longrightarrow> tier_up_background vm' = tier_up_background vm"
  by (auto simp: vm_invalidate_def split: prod.splits)

lemma smc_pages_shrinks:
  "fold smc_page ps (iv, vm) = (iv', vm') \<Longrightarrow>
    shrinks (vm_cache vm) (vm_cache vm') \<and> tier_up_background vm' = tier_up_background vm"
proof (induction ps arbitrary: iv vm)
  case (Cons p ps)
  obtain vs v where v: "vm_invalidate (push_bit CODE_PAGE_BITS p) (push_bit CODE_PAGE_BITS p + push_bit CODE_PAGE_BITS 1)
      (clear_code_page p) vm = (vs, v)" by fastforce
  then have "fold smc_page ps (iv \<or> vs \<noteq> [], v) = (iv', vm')" using Cons.prems by (simp add: smc_page_def [of p])
  from Cons.IH [OF this] show ?case
    using vm_invalidate_shrinks [OF v] vm_invalidate_keeps [OF v] shrinks_trans by auto
qed simp

lemma handle_smc_shrinks:
  "shrinks (vm_cache vm) (vm_cache (handle_smc B vm))" "tier_up_background (handle_smc B vm) = tier_up_background vm"
proof -
  obtain ps m where t: "take_dirty_code (vm_mem vm) = (ps, m)" by fastforce
  obtain iv' vm' where f: "fold smc_page ps (False, vm\<lparr>vm_mem := m\<rparr>) = (iv', vm')" by fastforce
  from smc_pages_shrinks [OF f]
  show "shrinks (vm_cache vm) (vm_cache (handle_smc B vm))" "tier_up_background (handle_smc B vm) = tier_up_background vm"
    using t f by (simp_all add: handle_smc_def invalidate_links_def)
qed

lemma vm_map_shrinks:
  assumes "vm_map B a n pr k vm = Some (Inr vm')"
  shows "shrinks (vm_cache vm) (vm_cache vm')" "tier_up_background vm' = tier_up_background vm"
proof -
  obtain m where m: "mem_map a n pr k (vm_mem vm) = Some (Inr m)"
    using assms by (cases "mem_map a n pr k (vm_mem vm)") (auto simp: vm_map_def split: sum.splits)
  obtain vs v where v: "vm_invalidate 0 (- 1) clear_all_code_pages (vm\<lparr>vm_mem := m\<rparr>) = (vs, v)" by fastforce
  show "shrinks (vm_cache vm) (vm_cache vm')" "tier_up_background vm' = tier_up_background vm"
    using assms m v vm_invalidate_shrinks [OF v] vm_invalidate_keeps [OF v]
    by (auto simp: vm_map_def Let_def invalidate_links_def split: if_splits)
qed

lemma vm_unmap_shrinks:
  assumes "vm_unmap B a n vm = Inr vm'"
  shows "shrinks (vm_cache vm) (vm_cache vm')" "tier_up_background vm' = tier_up_background vm"
proof -
  obtain m where m: "unmap a n (vm_mem vm) = Inr m" using assms by (auto simp: vm_unmap_def split: sum.splits)
  let ?hi = "saturating_add a n"
  obtain vs v where v: "vm_invalidate a ?hi (fold clear_code_page (pages_between (page_of a) (page_of (saturating_sub ?hi 1))))
      (vm\<lparr>vm_mem := m\<rparr>) = (vs, v)" by fastforce
  show "shrinks (vm_cache vm) (vm_cache vm')" "tier_up_background vm' = tier_up_background vm"
    using assms m v vm_invalidate_shrinks [OF v] vm_invalidate_keeps [OF v]
    by (auto simp: vm_unmap_def Let_def invalidate_links_def split: if_splits)
qed

section \<open>Backends\<close>

text \<open>
  What the machine relies on of a backend: the block it hands out for a translation is native code or the
  interpreted form of that very translation, and a region becomes native code.
\<close>

locale backend_contract =
  fixes B :: "'b Backend"
  assumes materialize: "\<And>ir c w gb b. fst (be_materialize B ir c w gb b) = Interpreted ir \<or>
      (\<exists>p. fst (be_materialize B ir c w gb b) = Compiled p)"
    and materialize_region: "\<And>rg c w gb b x. be_materialize_region B rg c w gb b = Some x \<Longrightarrow> \<exists>p. fst x = Compiled p"
    and region_total: "\<And>rg c w gb b. be_region_caps B b \<noteq> None \<Longrightarrow> be_materialize_region B rg c w gb b \<noteq> None"
begin

lemma vm_materialize_block:
  assumes "vm_materialize B ir vm = (b, vm')"
  shows "b = Interpreted ir \<or> (\<exists>p. b = Compiled p)" "vm_cache vm' = vm_cache vm" "vm_mem vm' = vm_mem vm"
    "tier_up_background vm' = tier_up_background vm"
  using assms materialize [of ir "consistency vm" "trap_window (vm_mem vm)" "guest_base (vm_mem vm)" "vm_backend vm"]
  by (auto simp: vm_materialize_def split: prod.splits)

end

interpretation interp_backend: backend_contract interpreter_backend
  by unfold_locales (simp_all add: interpreter_backend_def)

section \<open>Resolving keeps coherence\<close>

definition vm_sound :: "(BlockKey \<Rightarrow> u64 \<Rightarrow> u8) \<Rightarrow> 'b Vm \<Rightarrow> bool" where
  "vm_sound g vm \<longleftrightarrow> vm_coherent g vm \<and> units_flat (vm_cache vm) \<and> \<not> tier_up_background vm"

lemma vm_sound_same:
  assumes "vm_sound g vm" "tc_map (vm_cache vm') = tc_map (vm_cache vm)" "tc_spans (vm_cache vm') = tc_spans (vm_cache vm)"
    "vm_mem vm' = vm_mem vm" "tier_up_background vm' = tier_up_background vm"
  shows "vm_sound g vm'"
  using assms coherent_cache [of "set (dirty_code (vm_mem vm))" g "vm_cache vm" "vm_mem vm" "vm_cache vm'"]
  by (simp add: vm_sound_def units_flat_def)

lemma cache_get_same:
  "cache_get k c = (r, c') \<Longrightarrow> r = map_of (tc_map c) k \<and> tc_map c' = tc_map c \<and> tc_spans c' = tc_spans c \<and> tc_epoch c' = tc_epoch c"
  by (auto simp: cache_get_def split: option.splits)

lemma bump_hotness_same:
  "bump_hotness k c = (n, c') \<Longrightarrow> tc_map c' = tc_map c \<and> tc_spans c' = tc_spans c \<and> tc_epoch c' = tc_epoch c"
  by (auto simp: bump_hotness_def Let_def)

text \<open>Replacing the form of a unit without changing its spans.\<close>

lemma vm_sound_upgrade:
  assumes "vm_sound g vm" "map_of (tc_map (vm_cache vm)) k = Some (Interpreted ir)" "b = Interpreted ir \<or> (\<exists>p. b = Compiled p)"
    "upgrade k b (guest_start ir, guest_len ir) ep (vm_cache vm) = (ok, c)"
  shows "vm_sound g (vm\<lparr>vm_cache := c\<rparr>)" "ok \<longleftrightarrow> tc_epoch (vm_cache vm) = ep"
proof -
  let ?c = "vm_cache vm"
  have sp: "map_of (tc_spans ?c) k = Some [(guest_start ir, guest_len ir)]"
    using assms(1,2) by (simp add: vm_sound_def units_flat_def)
  show ok: "ok \<longleftrightarrow> tc_epoch ?c = ep" using assms(4) by (auto simp: upgrade_def split: if_splits)
  show "vm_sound g (vm\<lparr>vm_cache := c\<rparr>)"
  proof (cases ok)
    case False
    then have "c = ?c" using assms(4) by (auto simp: upgrade_def split: if_splits)
    then show ?thesis using assms(1) by simp
  next
    case True
    then have c: "map_of (tc_map c) = (map_of (tc_map ?c))(k \<mapsto> b)" "map_of (tc_spans c) = map_of (tc_spans ?c)"
      using assms(4) sp by (auto simp: upgrade_def fun_upd_idem split: if_splits)
    have "cache_wf (?c\<lparr>tc_map := AList.update k b (tc_map ?c), tc_spans := AList.update k [(guest_start ir, guest_len ir)] (tc_spans ?c)\<rparr>)"
      using assms(1) by (intro upsert_wf) (simp add: vm_sound_def coherent_def)
    then have "cache_wf c" using True assms(4) by (auto simp: upgrade_def cache_wf_def split: if_splits)
    then show ?thesis using assms(1,3) c sp by (auto simp: vm_sound_def coherent_def units_flat_def)
  qed
qed

lemma vm_sound_insert:
  assumes "vm_sound g vm" "\<forall>sp\<in>set sps. span_ok (vm_mem vm) sp"
    "\<forall>ir. b = Interpreted ir \<longrightarrow> sps = [(guest_start ir, guest_len ir)]"
    "cache_insert k b sps on_mark (vm_cache vm, vm_mem vm) = (c, mem)" "on_mark sps = mark_spans sps"
    "tc_map c' = tc_map c" "tc_spans c' = tc_spans c"
  shows "vm_sound (g(k := mem_byte (vm_mem vm))) (vm\<lparr>vm_cache := c', vm_mem := mem\<rparr>)" "map_of (tc_map c') k = Some b"
proof -
  have c: "c = (vm_cache vm)\<lparr>tc_map := AList.update k b (tc_map (vm_cache vm)), tc_spans := AList.update k sps (tc_spans (vm_cache vm))\<rparr>"
    "mem = mark_spans sps (vm_mem vm)"
    using assms(4,5) by (auto simp: cache_insert_def)
  have inv: "mem_inv (vm_mem vm)" using assms(1) by (simp add: vm_sound_def coherent_def)
  have d: "dirty_code mem = dirty_code (vm_mem vm)" using mark_spans_keeps [OF inv] c(2) by blast
  have "coherent (set (dirty_code (vm_mem vm))) (g(k := mem_byte (vm_mem vm))) c mem"
    unfolding c using assms(1,2) by (intro coherent_insert) (simp_all add: vm_sound_def)
  then have "coherent (set (dirty_code (vm_mem vm))) (g(k := mem_byte (vm_mem vm))) c' mem"
    by (rule coherent_cache [OF _ assms(6,7)])
  moreover have "units_flat c'"
    using assms(1,3,6,7) by (auto simp: c(1) units_flat_def vm_sound_def)
  ultimately show "vm_sound (g(k := mem_byte (vm_mem vm))) (vm\<lparr>vm_cache := c', vm_mem := mem\<rparr>)"
    using assms(1) d by (simp add: vm_sound_def)
  show "map_of (tc_map c') k = Some b" by (simp add: assms(6) c(1))
qed

context backend_contract
begin

lemma resolve_step_sound:
  assumes "vm_sound g vm" "resolve_step E B id pc m vm = Some (r, vm')"
  shows "vm_sound g vm'" "vm_mem vm' = vm_mem vm" "r \<noteq> Retry"
    "r = Break \<longleftrightarrow> map_of (tc_map (vm_cache vm)) (block_key pc m) = None"
    "dom (map_of (tc_map (vm_cache vm'))) = dom (map_of (tc_map (vm_cache vm)))"
    "r = Return b \<Longrightarrow> map_of (tc_map (vm_cache vm')) (block_key pc m) = Some b"
proof -
  let ?k = "block_key pc m"
  have bg: "\<not> tier_up_background vm" using assms(1) by (simp add: vm_sound_def)
  obtain f c where g: "cache_get ?k (vm_cache vm) = (f, c)" by fastforce
  note gs = cache_get_same [OF g]
  let ?v = "vm\<lparr>vm_cache := c\<rparr>"
  have v: "vm_sound g ?v" using gs by (intro vm_sound_same [OF assms(1)]) simp_all
  have "vm_sound g vm' \<and> vm_mem vm' = vm_mem vm \<and> r \<noteq> Retry \<and> (r = Break \<longleftrightarrow> f = None) \<and>
    dom (map_of (tc_map (vm_cache vm'))) = dom (map_of (tc_map (vm_cache vm))) \<and>
    (\<forall>b. r = Return b \<longrightarrow> map_of (tc_map (vm_cache vm')) ?k = Some b)"
  proof (cases "\<exists>thr ir. tier_up_after vm = Some thr \<and> f = Some (Interpreted ir)")
    case False
    then have "vm' = ?v" "r = (case f of None \<Rightarrow> Break | Some b \<Rightarrow> Return b)"
      using assms(2) bg g by (auto simp: resolve_step_def Let_def split: option.splits CachedBlock.splits)
    with v gs show ?thesis by (auto split: option.splits)
  next
    case True
    then obtain thr ir where t: "tier_up_after vm = Some thr" "f = Some (Interpreted ir)" by blast
    obtain n c2 where h: "bump_hotness ?k c = (n, c2)" by fastforce
    note hs = bump_hotness_same [OF h]
    let ?w = "vm\<lparr>vm_cache := c2\<rparr>"
    have w: "vm_sound g ?w" using hs gs by (intro vm_sound_same [OF assms(1)]) simp_all
    obtain b v3 where m: "vm_materialize B ir ?w = (b, v3)" by fastforce
    note ms = vm_materialize_block [OF m]
    obtain ok c4 where u: "upgrade ?k b (guest_start ir, guest_len ir) (tc_epoch (vm_cache vm)) (vm_cache v3) = (ok, c4)"
      by fastforce
    have v3: "vm_sound g v3" using ms by (intro vm_sound_same [OF w]) simp_all
    have k3: "map_of (tc_map (vm_cache v3)) ?k = Some (Interpreted ir)" using ms gs hs t(2) by simp
    note us = vm_sound_upgrade [OF v3 k3 ms(1) u]
    have ok: ok using us(2) ms(2) gs hs by simp
    have d4: "dom (map_of (tc_map c4)) = dom (map_of (tc_map (vm_cache vm)))" "map_of (tc_map c4) ?k = Some b"
      using u ok k3 ms(2) gs hs by (auto simp: upgrade_def split: if_splits)
    have "(r, vm') = (if n < thr then (Return (Interpreted ir), ?w) else (Return b, v3\<lparr>vm_cache := c4\<rparr>))"
      using assms(2) bg g t h m u gs ok by (auto simp: resolve_step_def Let_def split: if_splits)
    then show ?thesis using w us(1) ms hs gs t d4 by (auto split: if_splits)
  qed
  then show "vm_sound g vm'" "vm_mem vm' = vm_mem vm" "r \<noteq> Retry" "r = Break \<longleftrightarrow> map_of (tc_map (vm_cache vm)) ?k = None"
    "dom (map_of (tc_map (vm_cache vm'))) = dom (map_of (tc_map (vm_cache vm)))"
    "r = Return b \<Longrightarrow> map_of (tc_map (vm_cache vm')) ?k = Some b"
    using gs by simp_all
qed

end

lemma insert_region_eq:
  "insert_region B k rg vm =
    map_option (\<lambda>(b, be).
      (b, vm\<lparr>vm_backend := be,
             vm_cache := record_region (fst (cache_insert k b (X86_Ir.spans rg) mark_spans (vm_cache vm, vm_mem vm))),
             vm_mem := snd (cache_insert k b (X86_Ir.spans rg) mark_spans (vm_cache vm, vm_mem vm))\<rparr>))
      (be_materialize_region B rg (consistency vm) (trap_window (vm_mem vm)) (guest_base (vm_mem vm)) (vm_backend vm))"
  by (cases "be_materialize_region B rg (consistency vm) (trap_window (vm_mem vm)) (guest_base (vm_mem vm)) (vm_backend vm)")
    (auto simp: insert_region_def split_beta)

context backend_contract
begin

lemma finish_single_sound:
  assumes "vm_sound g vm" "span_ok (vm_mem vm) (guest_start ir, guest_len ir)" "finish_single B k (guest_start ir) ir vm = (b, vm')"
  shows "vm_sound (g(k := mem_byte (vm_mem vm))) vm'" "map_of (tc_map (vm_cache vm')) k = Some b"
proof -
  obtain b' v where m: "(if tier_up_after vm \<noteq> None then (Interpreted ir, vm) else vm_materialize B ir vm) = (b', v)" by fastforce
  have v: "b' = Interpreted ir \<or> (\<exists>p. b' = Compiled p)" "vm_cache v = vm_cache vm" "vm_mem v = vm_mem vm"
    "tier_up_background v = tier_up_background vm"
    using m vm_materialize_block [of ir vm b' v] by (auto split: if_splits)
  obtain c mem where i: "cache_insert k b' [(guest_start ir, guest_len ir)] (\<lambda>_. mark_code (guest_start ir) (guest_len ir))
      (vm_cache v, vm_mem v) = (c, mem)" by fastforce
  have vs: "vm_sound g v" using v by (intro vm_sound_same [OF assms(1)]) simp_all
  have e: "vm' = v\<lparr>vm_cache := c, vm_mem := mem\<rparr>" "b = b'" using assms(3) m i by (auto simp: finish_single_def Let_def)
  note I = vm_sound_insert [OF vs _ _ i, of c]
  have "vm_sound (g(k := mem_byte (vm_mem v))) (v\<lparr>vm_cache := c, vm_mem := mem\<rparr>)" "map_of (tc_map c) k = Some b'"
    using assms(2) v(1,3) by (intro I; auto simp: mark_spans_def)+
  then show "vm_sound (g(k := mem_byte (vm_mem vm))) vm'" "map_of (tc_map (vm_cache vm')) k = Some b"
    unfolding e v(3) by simp_all
qed

lemma insert_region_sound:
  assumes "vm_sound g vm" "\<forall>sp\<in>set (X86_Ir.spans rg). span_ok (vm_mem vm) sp" "insert_region B k rg vm = Some (b, vm')"
  shows "vm_sound (g(k := mem_byte (vm_mem vm))) vm'" "map_of (tc_map (vm_cache vm')) k = Some b"
proof -
  obtain be where m: "be_materialize_region B rg (consistency vm) (trap_window (vm_mem vm)) (guest_base (vm_mem vm)) (vm_backend vm) = Some (b, be)"
    using assms(3) by (auto simp: insert_region_eq)
  obtain p where p: "b = Compiled p" using materialize_region [OF m] by auto
  let ?v = "vm\<lparr>vm_backend := be\<rparr>"
  obtain c mem where i: "cache_insert k b (X86_Ir.spans rg) mark_spans (vm_cache ?v, vm_mem ?v) = (c, mem)" by fastforce
  have v: "vm_sound g ?v" by (rule vm_sound_same [OF assms(1)]) simp_all
  have e: "vm' = ?v\<lparr>vm_cache := record_region c, vm_mem := mem\<rparr>"
    using assms(3) m i by (simp add: insert_region_eq)
  note I = vm_sound_insert [OF v _ _ i, of "record_region c"]
  have "vm_sound (g(k := mem_byte (vm_mem ?v))) (?v\<lparr>vm_cache := record_region c, vm_mem := mem\<rparr>)"
    "map_of (tc_map (record_region c)) k = Some b"
    using assms(2) p by (intro I; simp add: record_region_def)+
  then show "vm_sound (g(k := mem_byte (vm_mem vm))) vm'" "map_of (tc_map (vm_cache vm')) k = Some b"
    unfolding e by simp_all
qed

lemma resolve_miss_sound:
  assumes "vm_sound g vm" "decoder_ok E"
  shows "\<exists>r vm'. resolve_miss E B id (fetch_flat pc) m vm = Some (r, vm') \<and>
    (case r of Inl e \<Rightarrow> vm' = vm
     | Inr b \<Rightarrow> vm_sound (g(block_key pc m := mem_byte (vm_mem vm))) vm' \<and> map_of (tc_map (vm_cache vm')) (block_key pc m) = Some b)"
proof -
  let ?k = "block_key pc m" and ?m = "vm_mem vm"
  have inv: "mem_inv ?m" and bg: "\<not> tier_up_background vm" using assms(1) by (simp_all add: vm_sound_def coherent_def)
  have single: "\<exists>b vm'. finish_single B ?k pc ir vm = (b, vm') \<and> vm_sound (g(?k := mem_byte ?m)) vm' \<and>
      map_of (tc_map (vm_cache vm')) ?k = Some b"
    if "guest_start ir = pc" "span_ok ?m (guest_start ir, guest_len ir)" for ir
    using finish_single_sound [OF assms(1) that(2)] that(1) by (cases "finish_single B ?k pc ir vm") auto
  show ?thesis
  proof (cases "be_region_caps B (vm_backend vm)")
    case None
    show ?thesis
    proof (cases "lift_block E ?m (fetch_flat pc) m")
      case (Some r)
      show ?thesis
      proof (cases r)
        case (Inl e)
        then show ?thesis using Some None bg by (simp add: resolve_miss_def Let_def)
      next
        case (Inr ir)
        have "guest_start ir = pc" "span_ok ?m (guest_start ir, guest_len ir)"
          using lift_block_spec(2) [OF assms(2) inv Some [unfolded Inr]] by (simp_all add: fetch_flat_def)
        from single [OF this] show ?thesis
          using None bg Some Inr by (auto simp: resolve_miss_def Let_def fetch_flat_def split: prod.splits)
      qed
    qed (use lift_block_spec(1) [OF assms(2) inv] in blast)
  next
    case (Some caps)
    obtain r where r: "lift_region E ?m pc caps m = Some r" using lift_region_spec(1) [OF assms(2) inv] by blast
    show ?thesis
    proof (cases r)
      case (Inl e)
      then show ?thesis using Some r bg by (simp add: resolve_miss_def Let_def fetch_flat_def)
    next
      case (Inr rg)
      note s = lift_region_spec(2) [OF assms(2) inv r [unfolded Inr]]
      have "insert_region B ?k rg vm \<noteq> None" using region_total [of "vm_backend vm" rg] Some by (simp add: insert_region_eq)
      then obtain b0 v0 where x: "insert_region B ?k rg vm = Some (b0, v0)" by auto
      obtain ir irs where b: "blocks rg = ir # irs" using s by (cases "blocks rg") auto
      have "guest_start ir = pc" "span_ok ?m (guest_start ir, guest_len ir)" using s b by (auto simp: X86_Ir.spans_def)
      from single [OF this] insert_region_sound [OF assms(1) _ x] s show ?thesis
        using Some r Inr bg x b by (auto simp: resolve_miss_def Let_def fetch_flat_def split: prod.splits)
    qed
  qed
qed

end

section \<open>Reachable machines\<close>

text \<open>
  The bytes a translation was made from: \<open>resolve\<close> on a key that was not cached translates the memory it found.
\<close>

definition translated :: "BlockKey \<Rightarrow> 'b Vm \<Rightarrow> 'b Vm \<Rightarrow> (BlockKey \<Rightarrow> u64 \<Rightarrow> u8) \<Rightarrow> BlockKey \<Rightarrow> u64 \<Rightarrow> u8" where
  "translated k vm vm' g =
     (if map_of (tc_map (vm_cache vm)) k = None \<and> map_of (tc_map (vm_cache vm')) k \<noteq> None
      then g(k := mem_byte (vm_mem vm)) else g)"

context backend_contract
begin

lemma resolve_step_total: "\<not> tier_up_background vm \<Longrightarrow> resolve_step E B f pc m vm \<noteq> None"
  by (auto simp: resolve_step_def Let_def split: option.splits CachedBlock.splits prod.splits)

lemma resolve_sound:
  assumes "vm_sound g vm" "decoder_ok E"
  shows "\<exists>r vm'. resolve E B [] id (fetch_flat pc) m vm = Some (r, vm') \<and> vm_sound (translated (block_key pc m) vm vm' g) vm' \<and>
    map_of (tc_map (vm_cache vm')) (block_key pc m) = (case r of Inr b \<Rightarrow> Some b | Inl _ \<Rightarrow> None)"
proof -
  let ?k = "block_key pc m"
  have "\<not> tier_up_background vm" using assms(1) by (simp add: vm_sound_def)
  then obtain r v where s: "resolve_step E B id pc m vm = Some (r, v)" using resolve_step_total by fastforce
  note ss = resolve_step_sound [OF assms(1) s]
  have pc: "pa (fetch_flat pc) = pc" by (simp add: fetch_flat_def)
  show ?thesis
  proof (cases r)
    case Break
    obtain r' v' where m: "resolve_miss E B id (fetch_flat pc) m v = Some (r', v')"
      "case r' of Inl e \<Rightarrow> v' = v | Inr b \<Rightarrow> vm_sound (g(?k := mem_byte (vm_mem v))) v' \<and> map_of (tc_map (vm_cache v')) ?k = Some b"
      using resolve_miss_sound [OF ss(1) assms(2)] by blast
    have n: "map_of (tc_map (vm_cache vm)) ?k = None" using ss(4) Break by simp
    then have "map_of (tc_map (vm_cache v)) ?k = None" using ss(5) by (auto simp: domIff)
    then have "vm_sound (translated ?k vm v' g) v' \<and>
        map_of (tc_map (vm_cache v')) ?k = (case r' of Inr b \<Rightarrow> Some b | Inl _ \<Rightarrow> None)"
      using m(2) n ss(1,2) by (cases r') (simp_all add: translated_def)
    with m(1) s Break pc show ?thesis by (auto simp: resolve_def)
  next
    case (Return b)
    then have "map_of (tc_map (vm_cache vm)) ?k \<noteq> None" using ss(4) by auto
    then have "translated ?k vm v g = g" by (auto simp: translated_def)
    with s Return pc ss(1,6) show ?thesis by (auto simp: resolve_def)
  next
    case Retry
    then show ?thesis using ss(3) by simp
  qed
qed

end

inductive vm_step ::
    "lift_env \<Rightarrow> 'b Backend \<Rightarrow> (BlockKey \<Rightarrow> u64 \<Rightarrow> u8) \<times> 'b Vm \<Rightarrow> (BlockKey \<Rightarrow> u64 \<Rightarrow> u8) \<times> 'b Vm \<Rightarrow> bool"
  for E B where
  st_store: "guest_store (vm_mem vm) mem \<Longrightarrow> vm_step E B (g, vm) (g, vm\<lparr>vm_mem := mem\<rparr>)"
| st_resolve: "resolve E B [] id (fetch_flat pc) m vm = Some (r, vm') \<Longrightarrow>
    vm_step E B (g, vm) (translated (block_key pc m) vm vm' g, vm')"
| st_smc: "vm_step E B (g, vm) (g, handle_smc B vm)"
| st_map: "vm_map B a n pr k vm = Some (Inr vm') \<Longrightarrow> vm_step E B (g, vm) (g, vm')"
| st_unmap: "vm_unmap B a n vm = Inr vm' \<Longrightarrow> unat a mod 4096 = 0 \<Longrightarrow> unat n mod 4096 = 0 \<Longrightarrow> 0 < n \<Longrightarrow>
    vm_step E B (g, vm) (g, vm')"

lemma vm_sound_shrinks:
  assumes "vm_sound g vm" "vm_coherent g vm'" "shrinks (vm_cache vm) (vm_cache vm')" "tier_up_background vm' = tier_up_background vm"
  shows "vm_sound g vm'"
  using assms units_flat_shrinks [OF _ assms(3)] by (simp add: vm_sound_def)

lemma handle_smc_sound:
  assumes "vm_sound g vm"
  shows "vm_sound g (handle_smc B vm)" "dirty_code (vm_mem (handle_smc B vm)) = []"
    "coherent {} g (vm_cache (handle_smc B vm)) (vm_mem (handle_smc B vm))"
proof -
  have c: "coherent {} g (vm_cache (handle_smc B vm)) (vm_mem (handle_smc B vm)) \<and> dirty_code (vm_mem (handle_smc B vm)) = []"
    using assms by (intro handle_smc_coherent) (simp add: vm_sound_def)
  then show "dirty_code (vm_mem (handle_smc B vm)) = []" "coherent {} g (vm_cache (handle_smc B vm)) (vm_mem (handle_smc B vm))"
    by simp_all
  show "vm_sound g (handle_smc B vm)"
    using c by (intro vm_sound_shrinks [OF assms _ handle_smc_shrinks]) simp
qed

lemma vm_step_sound:
  assumes "backend_contract B" "decoder_ok E" "vm_step E B s s'" "vm_sound (fst s) (snd s)"
  shows "vm_sound (fst s') (snd s')"
  using assms(3,4)
proof cases
  case (st_store vm mem g)
  then have t: "tracked (vm_mem vm) mem" "mem_inv mem" "coherent (set (dirty_code (vm_mem vm))) g (vm_cache vm) (vm_mem vm)"
    using assms(4) guest_store_tracked [of "vm_mem vm" mem] by (simp_all add: vm_sound_def coherent_def)
  have "set (dirty_code (vm_mem vm)) \<subseteq> set (dirty_code mem)" using t(1) by (simp add: tracked_def)
  then have "coherent (set (dirty_code mem)) g (vm_cache vm) mem" by (intro coherent_tracked [OF t(3,1,2)]) simp_all
  then show ?thesis using st_store assms(4) by (simp add: vm_sound_def)
next
  case (st_resolve pc m vm r vm' g)
  then show ?thesis using backend_contract.resolve_sound [OF assms(1) _ assms(2), of g vm pc m] assms(4) by auto
next
  case (st_smc g vm)
  then show ?thesis using handle_smc_sound(1) assms(4) by simp
next
  case (st_map a n pr k vm vm' g)
  then have g: "vm_sound g vm" using assms(4) by simp
  then have "vm_coherent g vm'" by (intro vm_map_coherent [OF _ st_map(3)]) (simp add: vm_sound_def)
  from vm_sound_shrinks [OF g this vm_map_shrinks [OF st_map(3)]] show ?thesis using st_map(2) by simp
next
  case (st_unmap a n vm vm' g)
  then have g: "vm_sound g vm" using assms(4) by simp
  then have "vm_coherent g vm'" by (intro vm_unmap_coherent [OF _ st_unmap(3-6)]) (simp add: vm_sound_def)
  from vm_sound_shrinks [OF g this vm_unmap_shrinks [OF st_unmap(3)]] show ?thesis using st_unmap(2) by simp
qed

lemma vm_reach_sound:
  assumes "backend_contract B" "decoder_ok E" "(vm_step E B)\<^sup>*\<^sup>* s s'" "vm_sound (fst s) (snd s)"
  shows "vm_sound (fst s') (snd s')"
  using assms(3,4) by (induction rule: rtranclp_induct) (blast intro: vm_step_sound [OF assms(1,2)])+

lemma from_mem_sound: "mem_inv mem \<Longrightarrow> vm_sound g (set_tier_up_after B t (from_mem mem b c))"
  by (simp add: vm_sound_def coherent_def units_flat_def from_mem_def cache_wf_def cache_new_def set_tier_up_after_def)

end
