(* ===== verification/X86_Vcpu.thy ===== *)
theory X86_Vcpu
  imports X86_Vm
begin

text \<open>
  A virtual CPU and its dispatcher (\<^verbatim>\<open>vm.rs\<close>, \<^verbatim>\<open>Vcpu\<close>), with the ABI of compiled blocks (\<^verbatim>\<open>jit_abi.rs\<close>).  The two
  nested loops of \<^verbatim>\<open>run_inner\<close> are one step function on a location: a round of the outer loop, or a round of the
  inner loop that follows compiled blocks.  Compiled code, the slots it reads and the addresses the allocator
  hands out belong to the record \<open>JitArena\<close>, an argument of the model.  \<open>None\<close> is a panic.
\<close>

unbundle bit_operations_syntax

section \<open>The compiled-block ABI\<close>

abbreviation (input) RET_CONTINUE :: u64 where "RET_CONTINUE \<equiv> 0"
abbreviation (input) RET_SYSCALL :: u64 where "RET_SYSCALL \<equiv> 1"
abbreviation (input) RET_HLT :: u64 where "RET_HLT \<equiv> 2"
abbreviation (input) RET_UNMAPPED :: u64 where "RET_UNMAPPED \<equiv> 3"
abbreviation (input) RET_CHAIN :: u64 where "RET_CHAIN \<equiv> 4"
abbreviation (input) RET_LINK :: u64 where "RET_LINK \<equiv> 5"
abbreviation (input) RET_EXCEPTION :: u64 where "RET_EXCEPTION \<equiv> 6"
abbreviation (input) RET_IBTC_MISS :: u64 where "RET_IBTC_MISS \<equiv> 7"
abbreviation (input) RET_MMIO_DEFER :: u64 where "RET_MMIO_DEFER \<equiv> 8"
abbreviation (input) RET_PORTIO_DEFER :: u64 where "RET_PORTIO_DEFER \<equiv> 9"

text \<open>
  The data fields of \<^verbatim>\<open>MemCtx\<close>.  Its pointers into the memory, the return stack and the instruction counter are
  those structures themselves, handed to the compiled block beside it.
\<close>

record MemCtx =
  ctx_base :: u64
  ctx_size :: u64
  fault_addr :: u64
  fault_size :: u64
  fault_access :: u64
  next_entry :: u64
  link_slot :: u64
  fuel :: u64
  ctx_guest_base :: u64
  exception_vector :: u64

definition RET_STACK_LEN :: nat where "RET_STACK_LEN = 64"

record RetStack =
  ret_sp :: u64
  ret_entries :: "(u64 \<times> u64) list"

definition ret_stack_new :: RetStack where
  "ret_stack_new = \<lparr>ret_sp = 0, ret_entries = replicate RET_STACK_LEN (0, 0)\<rparr>"

definition for_memory :: "Memory \<Rightarrow> MemCtx" where
  "for_memory mem =
     \<lparr>ctx_base = of_nat (backing_ptr mem), ctx_size = mem_size mem, fault_addr = 0, fault_size = 0, fault_access = 0,
      next_entry = 0, link_slot = 0, fuel = - 1, ctx_guest_base = guest_base mem, exception_vector = 0\<rparr>"

definition unmapped_exit :: "MemCtx \<Rightarrow> Exit" where
  "unmapped_exit ctx = ExUnmappedMemory (fault_addr ctx) (if fault_access ctx = 0 then AccRead else AccWrite)"

record call_state =
  call_cpu :: CpuState
  call_ctx :: MemCtx
  call_mem :: Memory
  call_ret_stack :: RetStack
  call_executed :: u64

record 'b JitArena =
  call_block :: "CompiledPtr \<Rightarrow> call_state \<Rightarrow> u64 \<times> call_state"
  store_slot :: "u64 \<Rightarrow> u64 \<Rightarrow> 'b \<Rightarrow> 'b"
  heap_addr :: "TranslationCache \<Rightarrow> u64"

text \<open>\<^verbatim>\<open>run_compiled\<close>, one block outside a dispatcher.\<close>

definition run_compiled ::
    "lift_env \<Rightarrow> 'b JitArena \<Rightarrow> CpuMode \<Rightarrow> CompiledPtr \<Rightarrow> CpuState \<Rightarrow> Memory \<Rightarrow> (CpuState \<times> Memory \<times> StepResult) option" where
  "run_compiled E J m ent c mem =
     (let (code, s) = call_block J ent
            \<lparr>call_cpu = c, call_ctx = for_memory mem, call_mem = mem, call_ret_stack = ret_stack_new, call_executed = 0\<rparr>;
          out = (\<lambda>r. Some (call_cpu s, call_mem s, r))
      in if code = RET_CONTINUE \<or> code = RET_CHAIN \<or> code = RET_LINK \<or> code = RET_IBTC_MISS then out Continue
         else if code = RET_SYSCALL then out (StepExit ExSyscall)
         else if code = RET_HLT then out (StepExit ExHlt)
         else if code = RET_UNMAPPED then out (StepExit (unmapped_exit (call_ctx s)))
         else if code = RET_MMIO_DEFER then do {
           (c, mem, _, r) \<leftarrow> step_one E m (call_cpu s) (call_mem s);
           Some (c, mem, r)
         }
         else if code = RET_EXCEPTION
         then out (StepExit (ExException (rip (call_cpu s)) (ucast (exception_vector (call_ctx s)))))
         else None)"

section \<open>State\<close>

definition FAST_BITS :: nat where "FAST_BITS = 10"
definition FAST_N :: nat where "FAST_N = 2 ^ FAST_BITS"
definition IBTC_MEGAMORPHIC_CAP :: u32 where "IBTC_MEGAMORPHIC_CAP = 8"

record FastEntry =
  fast_rip :: u64
  fast_ptr :: CompiledPtr

record Vcpu =
  cpu :: CpuState
  vcpu_mode :: CpuMode
  fast :: "nat \<Rightarrow> FastEntry"
  fast_epoch :: u64
  ibtc_refills :: "(u64 \<times> u32) list"
  ret_stack :: RetStack
  fast_hits :: u64
  executed :: u64
  vcpu_chained :: u64
  pending_irq :: "u8 option"
  vcpu_retired :: u64
  vcpu_sti_shadow :: bool

definition new_vcpu :: "'b Vm \<Rightarrow> Vcpu" where
  "new_vcpu vm =
     \<lparr>cpu = cpu_default\<lparr>cpu_features := vm_features vm, x87_precision := vm_x87_precision vm\<rparr>,
      vcpu_mode = vm_mode vm, fast = (\<lambda>_. \<lparr>fast_rip = 0, fast_ptr = 0\<rparr>), fast_epoch = tc_epoch (vm_cache vm),
      ibtc_refills = [], ret_stack = ret_stack_new, fast_hits = 0, executed = 0, vcpu_chained = 0,
      pending_irq = None, vcpu_retired = 0, vcpu_sti_shadow = False\<rparr>"

definition inject_irq :: "u8 \<Rightarrow> Vcpu \<Rightarrow> Vcpu" where
  "inject_irq vector v = v\<lparr>pending_irq := Some vector\<rparr>"

definition has_pending_irq :: "Vcpu \<Rightarrow> bool" where
  "has_pending_irq v \<longleftrightarrow> pending_irq v \<noteq> None"

definition fast_index :: "u64 \<Rightarrow> nat" where
  "fast_index r = unat (drop_bit (64 - FAST_BITS) (r * 0x9E3779B97F4A7C15))"

definition fast_get :: "Vcpu \<Rightarrow> u64 \<Rightarrow> CompiledPtr option" where
  "fast_get v r =
     (let e = fast v (fast_index r) in if fast_ptr e \<noteq> 0 \<and> fast_rip e = r then Some (fast_ptr e) else None)"

definition fast_put :: "u64 \<Rightarrow> CompiledPtr \<Rightarrow> Vcpu \<Rightarrow> Vcpu" where
  "fast_put r p v = v\<lparr>fast := (fast v)(fast_index r := \<lparr>fast_rip = r, fast_ptr = p\<rparr>)\<rparr>"

definition fast_clear :: "Vcpu \<Rightarrow> Vcpu" where
  "fast_clear v =
     v\<lparr>fast := (\<lambda>i. (fast v i)\<lparr>fast_ptr := 0\<rparr>), ibtc_refills := [], ret_stack := (ret_stack v)\<lparr>ret_sp := 0\<rparr>\<rparr>"

section \<open>Embedder access\<close>

definition vcpu_set_reg :: "Reg \<Rightarrow> u64 \<Rightarrow> Vcpu \<Rightarrow> Vcpu" where
  "vcpu_set_reg reg val v =
     (let c = cpu v
      in v\<lparr>cpu :=
           (case gpr_index reg of
              Some i \<Rightarrow> c\<lparr>gpr := (gpr c)(i := val)\<rparr>
            | None \<Rightarrow>
                (case reg of
                   Rip \<Rightarrow> c\<lparr>rip := val\<rparr> | FsBase \<Rightarrow> c\<lparr>fs_base := val\<rparr> | GsBase \<Rightarrow> c\<lparr>gs_base := val\<rparr>
                 | Cs \<Rightarrow> c\<lparr>cs_sel := ucast val\<rparr> | Ds \<Rightarrow> c\<lparr>ds_sel := ucast val\<rparr>
                 | Es \<Rightarrow> c\<lparr>es_sel := ucast val\<rparr> | Ss \<Rightarrow> c\<lparr>ss_sel := ucast val\<rparr> | _ \<Rightarrow> c))\<rparr>)"

definition vcpu_reg :: "Reg \<Rightarrow> Vcpu \<Rightarrow> u64" where
  "vcpu_reg reg v =
     (let c = cpu v
      in case gpr_index reg of
           Some i \<Rightarrow> gpr c i
         | None \<Rightarrow>
             (case reg of
                Rip \<Rightarrow> rip c | FsBase \<Rightarrow> fs_base c | GsBase \<Rightarrow> gs_base c
              | Cs \<Rightarrow> ucast (cs_sel c) | Ds \<Rightarrow> ucast (ds_sel c) | Es \<Rightarrow> ucast (es_sel c) | Ss \<Rightarrow> ucast (ss_sel c)
              | _ \<Rightarrow> 0))"

definition complete_mmio_read :: "u64 \<Rightarrow> Vcpu \<Rightarrow> Vcpu" where
  "complete_mmio_read val v = v\<lparr>cpu := (cpu v)\<lparr>pending_mmio := Some val\<rparr>\<rparr>"

definition complete_mmio_write :: "Vcpu \<Rightarrow> Vcpu" where
  "complete_mmio_write v = v\<lparr>cpu := (cpu v)\<lparr>pending_mmio_write := True\<rparr>\<rparr>"

definition complete_port_in :: "u64 \<Rightarrow> Vcpu \<Rightarrow> Vcpu option" where
  "complete_port_in val v =
     (case pending_port_in (cpu v) of
        None \<Rightarrow> Some v
      | Some sz \<Rightarrow> do {
          i \<leftarrow> gpr_index Rax;
          c \<leftarrow> write_gpr i val sz ((cpu v)\<lparr>pending_port_in := None\<rparr>);
          Some (v\<lparr>cpu := c\<rparr>)
        })"

section \<open>Stepping\<close>

record 'b run_state =
  rs_vcpu :: Vcpu
  rs_vm :: "'b Vm"
  rs_ctx :: MemCtx
  blocks_run :: u64

text \<open>An interpreter step of the virtual CPU: registers, memory and the retirement counter.\<close>

definition take_step ::
    "(CpuState \<times> Memory \<times> RetireInfo \<times> StepResult) \<Rightarrow> 'b run_state \<Rightarrow> 'b run_state \<times> RetireInfo \<times> StepResult" where
  "take_step out rs =
     (let (c, mem, info, r) = out; v = rs_vcpu rs
      in (rs\<lparr>rs_vcpu := v\<lparr>cpu := c, vcpu_retired := vcpu_retired v + info_retired info\<rparr>,
             rs_vm := (rs_vm rs)\<lparr>vm_mem := mem\<rparr>\<rparr>, info, r))"

definition deliver_vector :: "u64 \<Rightarrow> u8 \<Rightarrow> 'b run_state \<Rightarrow> 'b run_state \<times> StepResult" where
  "deliver_vector addr vector rs =
     (let ((c, mem), r) = deliver_interrupt addr vector addr (cpu (rs_vcpu rs), vm_mem (rs_vm rs))
      in (rs\<lparr>rs_vcpu := (rs_vcpu rs)\<lparr>cpu := c\<rparr>, rs_vm := (rs_vm rs)\<lparr>vm_mem := mem\<rparr>\<rparr>, r))"

definition set_shadow :: "bool \<Rightarrow> 'b run_state \<Rightarrow> 'b run_state" where
  "set_shadow b rs = rs\<lparr>rs_vcpu := (rs_vcpu rs)\<lparr>vcpu_sti_shadow := b\<rparr>\<rparr>"

definition step_instruction :: "lift_env \<Rightarrow> 'b run_state \<Rightarrow> ('b run_state \<times> StepResult) option" where
  "step_instruction E rs = do {
     res \<leftarrow> step_one E (vcpu_mode (rs_vcpu rs)) (cpu (rs_vcpu rs)) (vm_mem (rs_vm rs));
     let (rs, info, r) = take_step res rs;
     let rs = set_shadow (info_sti_shadow info) rs;
     case r of
       StepExit (ExException addr vector) \<Rightarrow>
         Some (if vcpu_mode (rs_vcpu rs) = Real16 then deliver_vector addr vector rs else (rs, r))
     | _ \<Rightarrow> Some (rs, r)
   }"

datatype loc = Outer | Inner CompiledPtr

datatype run_next = ExitWith Exit | Goto loc

definition charge :: "u64 \<Rightarrow> 'b run_state \<Rightarrow> 'b run_state" where
  "charge n rs = rs\<lparr>blocks_run := blocks_run rs + n\<rparr>"

definition over_budget :: "u64 option \<Rightarrow> 'b run_state \<Rightarrow> bool" where
  "over_budget budget rs \<longleftrightarrow> (case budget of Some b \<Rightarrow> blocks_run rs \<ge> b | None \<Rightarrow> False)"

text \<open>\<^verbatim>\<open>handle_smc\<close> and the flush of the private predictors when the epoch has moved.\<close>

definition sync_caches :: "'b Backend \<Rightarrow> 'b run_state \<Rightarrow> 'b run_state" where
  "sync_caches B rs =
     (let vm = handle_smc B (rs_vm rs); ep = tc_epoch (vm_cache vm); v = rs_vcpu rs
      in rs\<lparr>rs_vm := vm, rs_vcpu := (if ep \<noteq> fast_epoch v then (fast_clear v)\<lparr>fast_epoch := ep\<rparr> else v)\<rparr>)"

definition irq_deliverable :: "Vcpu \<Rightarrow> bool" where
  "irq_deliverable v \<longleftrightarrow>
     flag_if (flags (cpu v)) \<and> pending_mmio (cpu v) = None \<and> \<not> pending_mmio_write (cpu v)
     \<and> pending_port_in (cpu v) = None \<and> \<not> vcpu_sti_shadow v"

definition resolve_block ::
    "lift_env \<Rightarrow> 'b Backend \<Rightarrow> FetchAddr \<Rightarrow> 'b run_state \<Rightarrow> ((Exit + CachedBlock) \<times> 'b run_state) option" where
  "resolve_block E B at rs = do {
     (r, vm) \<leftarrow> resolve E B [] id at (vcpu_mode (rs_vcpu rs)) (rs_vm rs);
     Some (r, rs\<lparr>rs_vm := vm\<rparr>)
   }"

definition resume_mmio :: "lift_env \<Rightarrow> 'b run_state \<Rightarrow> (run_next \<times> 'b run_state) option" where
  "resume_mmio E rs = do {
     res \<leftarrow> step_one E (vcpu_mode (rs_vcpu rs)) (cpu (rs_vcpu rs)) (vm_mem (rs_vm rs));
     let (rs, info, r) = take_step res rs;
     let rs = set_shadow (info_sti_shadow info) rs;
     case r of
       Continue \<Rightarrow>
         Some (Goto Outer, charge 1 (rs\<lparr>rs_vcpu := (rs_vcpu rs)\<lparr>cpu := clear_mmio_parts (cpu (rs_vcpu rs))\<rparr>\<rparr>))
     | StepExit e \<Rightarrow> Some (ExitWith e, rs)
   }"

definition deliver_irq :: "u8 \<Rightarrow> 'b run_state \<Rightarrow> run_next \<times> 'b run_state" where
  "deliver_irq vector rs =
     (let rs = rs\<lparr>rs_vcpu := (rs_vcpu rs)\<lparr>pending_irq := None\<rparr>\<rparr>;
          (rs, r) = deliver_vector (rip (cpu (rs_vcpu rs))) vector rs
      in case r of
           Continue \<Rightarrow> (Goto Outer, charge 1 (set_shadow False rs))
         | StepExit e \<Rightarrow> (ExitWith e, rs))"

definition run_interpreted :: "IrBlock \<Rightarrow> 'b run_state \<Rightarrow> (run_next \<times> 'b run_state) option" where
  "run_interpreted ir rs = do {
     res \<leftarrow> interpret_block ir (cpu (rs_vcpu rs)) (vm_mem (rs_vm rs));
     let (rs, info, r) = take_step res rs;
     let rs = rs\<lparr>rs_vcpu := (rs_vcpu rs)\<lparr>executed := executed (rs_vcpu rs) + info_retired info\<rparr>\<rparr>;
     let rs = set_shadow (info_sti_shadow info) rs;
     case r of
       Continue \<Rightarrow> Some (Goto Outer, charge 1 rs)
     | StepExit e \<Rightarrow>
         (case e of
            ExException addr vector \<Rightarrow>
              if vcpu_mode (rs_vcpu rs) = Real16 then
                let (rs, r) = deliver_vector addr vector rs
                in Some (case r of Continue \<Rightarrow> (Goto Outer, charge 1 rs) | StepExit x \<Rightarrow> (ExitWith x, rs))
              else Some (ExitWith e, rs)
          | _ \<Rightarrow> Some (ExitWith e, rs))
   }"

definition dispatch :: "lift_env \<Rightarrow> 'b Backend \<Rightarrow> 'b run_state \<Rightarrow> (run_next \<times> 'b run_state) option" where
  "dispatch E B rs =
     (let v = rs_vcpu rs; r = rip (cpu v)
      in case fast_get v r of
           Some p \<Rightarrow> Some (Goto (Inner p), rs\<lparr>rs_vcpu := v\<lparr>fast_hits := fast_hits v + 1\<rparr>\<rparr>)
         | None \<Rightarrow> do {
             (res, rs) \<leftarrow> resolve_block E B (fetch_for_mode (vcpu_mode v) r (cs_sel (cpu v))) rs;
             case res of
               Inl e \<Rightarrow> Some (ExitWith e, rs)
             | Inr (Compiled p) \<Rightarrow> Some (Goto (Inner p), rs\<lparr>rs_vcpu := fast_put r p (rs_vcpu rs)\<rparr>)
             | Inr (Interpreted ir) \<Rightarrow> run_interpreted ir rs
           })"

definition outer_step ::
    "lift_env \<Rightarrow> 'b Backend \<Rightarrow> u64 option \<Rightarrow> 'b run_state \<Rightarrow> (run_next \<times> 'b run_state) option" where
  "outer_step E B budget rs =
     (if over_budget budget rs then Some (ExitWith ExBudgetExhausted, rs)
      else
        let rs = sync_caches B rs; v = rs_vcpu rs
        in if pending_mmio (cpu v) \<noteq> None \<or> pending_mmio_write (cpu v) then resume_mmio E rs
           else case pending_irq v of
                  Some vector \<Rightarrow> if irq_deliverable v then Some (deliver_irq vector rs) else dispatch E B rs
                | None \<Rightarrow> dispatch E B rs)"

section \<open>Following compiled blocks\<close>

definition enter_block ::
    "'b JitArena \<Rightarrow> u64 option \<Rightarrow> CompiledPtr \<Rightarrow> 'b run_state \<Rightarrow> u64 \<times> 'b run_state" where
  "enter_block J budget cur rs =
     (let v = rs_vcpu rs;
          quantum = (case budget of None \<Rightarrow> - 1 | Some b \<Rightarrow> b - blocks_run rs);
          (code, s) = call_block J cur
            \<lparr>call_cpu = cpu v, call_ctx = (rs_ctx rs)\<lparr>fuel := quantum\<rparr>, call_mem = vm_mem (rs_vm rs),
             call_ret_stack = ret_stack v, call_executed = executed v\<rparr>
      in (code, charge (max (quantum - fuel (call_ctx s)) 1)
            (rs\<lparr>rs_vcpu := v\<lparr>cpu := call_cpu s, ret_stack := call_ret_stack s, executed := call_executed s\<rparr>,
                rs_ctx := call_ctx s, rs_vm := (rs_vm rs)\<lparr>vm_mem := call_mem s\<rparr>\<rparr>)))"

definition publish_slot :: "'b JitArena \<Rightarrow> u64 \<Rightarrow> u64 \<Rightarrow> u64 \<Rightarrow> 'b Vm \<Rightarrow> bool \<times> 'b Vm" where
  "publish_slot J since slot val vm =
     (let (ok, b) = publish_if_current since (store_slot J slot val) (vm_cache vm, vm_backend vm)
      in (ok, vm\<lparr>vm_backend := b\<rparr>))"

definition on_link :: "lift_env \<Rightarrow> 'b Backend \<Rightarrow> 'b JitArena \<Rightarrow> 'b run_state \<Rightarrow> (run_next \<times> 'b run_state) option" where
  "on_link E B J rs =
     (let since = tc_epoch (vm_cache (rs_vm rs)); r = rip (cpu (rs_vcpu rs))
      in do {
        (res, rs) \<leftarrow> resolve_block E B (fetch_flat r) rs;
        case res of
          Inl e \<Rightarrow> Some (ExitWith e, rs)
        | Inr (Interpreted _) \<Rightarrow> Some (Goto Outer, rs)
        | Inr (Compiled p) \<Rightarrow>
            let (published, vm) = publish_slot J since (link_slot (rs_ctx rs)) p (rs_vm rs);
                rs = rs\<lparr>rs_vm := vm\<rparr>
            in if \<not> published then Some (Goto Outer, rs)
               else Some (Goto (Inner p), rs\<lparr>rs_vcpu := fast_put r p (rs_vcpu rs)\<rparr>)
      })"

text \<open>The refill of an IBTC slot; \<open>False\<close> when the epoch moved since the snapshot.\<close>

definition refill_ibtc :: "'b JitArena \<Rightarrow> u64 \<Rightarrow> CompiledPtr \<Rightarrow> 'b run_state \<Rightarrow> bool \<times> 'b run_state" where
  "refill_ibtc J since p rs =
     (let slot = link_slot (rs_ctx rs); v = rs_vcpu rs;
          count = (case map_of (ibtc_refills v) slot of Some n \<Rightarrow> n | None \<Rightarrow> 0);
          more = count < IBTC_MEGAMORPHIC_CAP;
          rs = rs\<lparr>rs_vcpu := v\<lparr>ibtc_refills := AList.update slot (if more then count + 1 else count) (ibtc_refills v)\<rparr>\<rparr>
      in if more then
           let vm = rs_vm rs;
               (desc, c) = alloc_ibtc_descriptor (heap_addr J (vm_cache vm)) (rip (cpu v)) p (vm_cache vm);
               (published, vm) = publish_slot J since slot desc (vm\<lparr>vm_cache := c\<rparr>)
           in (published, rs\<lparr>rs_vm := vm\<rparr>)
         else (True, rs))"

definition on_ibtc_miss ::
    "lift_env \<Rightarrow> 'b Backend \<Rightarrow> 'b JitArena \<Rightarrow> 'b run_state \<Rightarrow> (run_next \<times> 'b run_state) option" where
  "on_ibtc_miss E B J rs =
     (let since = tc_epoch (vm_cache (rs_vm rs)); v = rs_vcpu rs; r = rip (cpu v);
          fill = (\<lambda>p rs. let (ok, rs) = refill_ibtc J since p rs
                         in Some (if ok then Goto (Inner p) else Goto Outer, rs))
      in case fast_get v r of
           Some p \<Rightarrow> fill p (rs\<lparr>rs_vcpu := v\<lparr>fast_hits := fast_hits v + 1\<rparr>\<rparr>)
         | None \<Rightarrow> do {
             (res, rs) \<leftarrow> resolve_block E B (fetch_flat r) rs;
             case res of
               Inl e \<Rightarrow> Some (ExitWith e, rs)
             | Inr (Interpreted _) \<Rightarrow> Some (Goto Outer, rs)
             | Inr (Compiled p) \<Rightarrow> fill p (rs\<lparr>rs_vcpu := fast_put r p (rs_vcpu rs)\<rparr>)
           })"

definition on_defer :: "lift_env \<Rightarrow> 'b run_state \<Rightarrow> (run_next \<times> 'b run_state) option" where
  "on_defer E rs = do {
     res \<leftarrow> step_one E (vcpu_mode (rs_vcpu rs)) (cpu (rs_vcpu rs)) (vm_mem (rs_vm rs));
     let (rs, _, r) = take_step res rs;
     Some (case r of Continue \<Rightarrow> (Goto Outer, rs) | StepExit e \<Rightarrow> (ExitWith e, rs))
   }"

definition on_code ::
    "lift_env \<Rightarrow> 'b Backend \<Rightarrow> 'b JitArena \<Rightarrow> u64 \<Rightarrow> 'b run_state \<Rightarrow> (run_next \<times> 'b run_state) option" where
  "on_code E B J code rs =
     (if code = RET_CONTINUE then Some (Goto Outer, rs)
      else if code = RET_CHAIN then
        Some (Goto (Inner (next_entry (rs_ctx rs))),
              rs\<lparr>rs_vcpu := (rs_vcpu rs)\<lparr>vcpu_chained := vcpu_chained (rs_vcpu rs) + 1\<rparr>\<rparr>)
      else if code = RET_LINK then on_link E B J rs
      else if code = RET_IBTC_MISS then on_ibtc_miss E B J rs
      else if code = RET_SYSCALL then Some (ExitWith ExSyscall, rs)
      else if code = RET_HLT then Some (ExitWith ExHlt, rs)
      else if code = RET_UNMAPPED then Some (ExitWith (unmapped_exit (rs_ctx rs)), rs)
      else if code = RET_MMIO_DEFER \<or> code = RET_PORTIO_DEFER then on_defer E rs
      else if code = RET_EXCEPTION
      then Some (ExitWith (ExException (rip (cpu (rs_vcpu rs))) (ucast (exception_vector (rs_ctx rs)))), rs)
      else None)"

definition inner_step ::
    "lift_env \<Rightarrow> 'b Backend \<Rightarrow> 'b JitArena \<Rightarrow> u64 option \<Rightarrow> CompiledPtr \<Rightarrow> 'b run_state \<Rightarrow> (run_next \<times> 'b run_state) option" where
  "inner_step E B J budget cur rs =
     (if has_dirty_code (vm_mem (rs_vm rs)) then Some (Goto Outer, rs)
      else
        let (code, rs) = enter_block J budget cur rs
        in do {
          (nx, rs) \<leftarrow> on_code E B J code rs;
          Some (case nx of
                  Goto (Inner p) \<Rightarrow> if over_budget budget rs then (ExitWith ExBudgetExhausted, rs) else (nx, rs)
                | _ \<Rightarrow> (nx, rs))
        })"

section \<open>The run loop\<close>

definition run_step ::
    "lift_env \<Rightarrow> 'b Backend \<Rightarrow> 'b JitArena \<Rightarrow> u64 option \<Rightarrow> loc \<Rightarrow> 'b run_state \<Rightarrow> (run_next \<times> 'b run_state) option" where
  "run_step E B J budget l rs =
     (case l of Outer \<Rightarrow> outer_step E B budget rs | Inner p \<Rightarrow> inner_step E B J budget p rs)"

text \<open>\<open>None\<close>: out of fuel; \<open>Some None\<close>: a panic; otherwise the exit.\<close>

primrec run_loop ::
    "lift_env \<Rightarrow> 'b Backend \<Rightarrow> 'b JitArena \<Rightarrow> u64 option \<Rightarrow> nat \<Rightarrow> loc \<Rightarrow> 'b run_state \<Rightarrow> (Exit \<times> 'b run_state) option option" where
  "run_loop E B J budget 0 l rs = None"
| "run_loop E B J budget (Suc n) l rs =
     (case run_step E B J budget l rs of
        None \<Rightarrow> Some None
      | Some (ExitWith e, rs) \<Rightarrow> Some (Some (e, rs))
      | Some (Goto l, rs) \<Rightarrow> run_loop E B J budget n l rs)"

definition run_start :: "Vcpu \<Rightarrow> 'b Vm \<Rightarrow> 'b run_state" where
  "run_start v vm = \<lparr>rs_vcpu = v, rs_vm = vm, rs_ctx = for_memory (vm_mem vm), blocks_run = 0\<rparr>"

definition vcpu_run ::
    "lift_env \<Rightarrow> 'b Backend \<Rightarrow> 'b JitArena \<Rightarrow> u64 option \<Rightarrow> nat \<Rightarrow> Vcpu \<Rightarrow> 'b Vm \<Rightarrow> (Exit \<times> Vcpu \<times> 'b Vm) option option" where
  "vcpu_run E B J budget n v vm =
     map_option (map_option (\<lambda>(e, rs).
       let v = rs_vcpu rs
       in (e, v\<lparr>vcpu_chained := 0\<rparr>, on_cache (add_chained (vcpu_chained v)) (rs_vm rs))))
       (run_loop E B J budget n Outer (run_start v vm))"

end
