(* ===== verification/X86_Vm_Correct.thy ===== *)
theory X86_Vm_Correct
  imports X86_Resolve X86_Vcpu
begin

text \<open>
  Correctness of the machine: cached code is the code in memory, the dispatcher makes progress, an
  old epoch publishes only live units, lifting returns and reports failures faithfully; and two executions
  in which a translation outlives the code it was made from.
\<close>

unbundle bit_operations_syntax

section \<open>Cached code is the code in memory\<close>

lemma reach_from_new:
  assumes "backend_contract B" "decoder_ok E" "mem_inv mem"
    and "(vm_step E B)\<^sup>*\<^sup>* (g0, set_tier_up_after B t (from_mem mem b c)) (g, vm)"
  shows "vm_sound g vm"
proof -
  have "vm_sound g0 (set_tier_up_after B t (from_mem mem b c))" by (rule from_mem_sound [OF assms(3)])
  then show ?thesis using vm_reach_sound [OF assms(1,2,4)] by simp
qed

text \<open>
  Property C2: after self-modifying code has been handled, every translation in the cache covers
  exactly bytes that still are the bytes it was translated from. This holds in every state reached
  from a new machine, with tier-up inline (never in the background), by any sequence of these operations, each carried out as a
  whole: guest loads, stores and atomics through the accessors of \<^verbatim>\<open>Memory\<close>, host writes of guest bytes, resolutions
  at flat fetch addresses, handling of self-modifying code, mappings, and unmappings of whole pages; for every backend that honours its
  contract and every decoder whose instructions take between one and fifteen of the bytes it was given. Not covered:
  fetches through a real-mode segment and unmappings that split a page, for which the lemmas \<open>real16_upgrade_moves_span\<close> and
  \<open>unmap_drops_neighbour_tag\<close> below show that it fails; stores through the barrier inlined in compiled code
  (property C11); operations of two virtual CPUs that overlap.
\<close>
theorem translations_fresh:
  assumes "backend_contract B" "decoder_ok E" "mem_inv mem"
    and "(vm_step E B)\<^sup>*\<^sup>* (g0, set_tier_up_after B t (from_mem mem b c)) (g, vm)"
    and "map_of (tc_map (vm_cache (handle_smc B vm))) k = Some blk"
  shows "\<exists>sps. map_of (tc_spans (vm_cache (handle_smc B vm))) k = Some sps \<and>
    (\<forall>sp\<in>set sps. \<forall>x\<in>span_bytes sp. mem_byte (vm_mem (handle_smc B vm)) x = g k x)"
proof -
  have "vm_sound g vm" by (rule reach_from_new [OF assms(1-4)])
  from handle_smc_sound(3) [OF this] have C: "coherent {} g (vm_cache (handle_smc B vm)) (vm_mem (handle_smc B vm))" .
  then obtain sps where "map_of (tc_spans (vm_cache (handle_smc B vm))) k = Some sps"
    using assms(5) by (fastforce simp: coherent_def cache_wf_def dom_def set_eq_iff)
  with C show ?thesis by (auto simp: coherent_def span_fresh_def)
qed

text \<open>A decoder that reads a halt instruction everywhere.\<close>

definition no_register :: Register where
  "no_register = \<lparr>reg_name = NoReg, reg_size = 0, gpr_number = None, is_xmm = False\<rparr>"

definition halt_insn :: "u64 \<Rightarrow> Instruction" where
  "halt_insn a =
     \<lparr>mnemonic = ''Hlt'', insn_code = CodeOther, code_size = Code64, insn_ip = a, insn_len = 1, is_invalid = False, op_count = 0,
      op_kind = (\<lambda>_. OpKindOther), op_register = (\<lambda>_. no_register), immediate = (\<lambda>_. 0), immediate8 = 0, immediate8_2nd = 0,
      immediate16 = 0, memory_base = no_register, memory_index = no_register, memory_index_scale = 1,
      memory_displacement64 = 0, memory_size = 0, memory_segment = no_register, segment_prefix = no_register,
      near_branch_target = 0, far_branch_selector = 0, far_branch16 = 0, has_lock_prefix = False, has_rep_prefix = False,
      has_repe_prefix = False, has_repne_prefix = False\<rparr>"

definition halt_env :: lift_env where
  "halt_env = \<lparr>decode = (\<lambda>_ _ _ a. (halt_insn a, DecoderNone)), insn_lift = lift_insn (\<lambda>_ _. None), elision_disabled = False\<rparr>"

lemma halt_env_ok: "decoder_ok halt_env"
  by (auto simp: decoder_ok_def halt_env_def halt_insn_def Suc_le_eq)

definition halt_block :: "u64 \<Rightarrow> IrBlock" where
  "halt_block a = \<lparr>guest_start = a, ops = elide_dead_flags False [InsnStart a, Hlt], temp_count = 0, guest_len = 1, icount = 1\<rparr>"

lemma halt_lifts: "insn_lift halt_env m (halt_insn a) s = Some (True, push Hlt s)"
  by (simp add: halt_env_def halt_insn_def lift_insn_def nop_mnemonics_def binop_arms_def string_arms_def generic_arms_def
      real16_arms_def stop_def Let_def)

lemma halt_block_lifts:
  assumes "code_slice (pa at) (of_nat BLOCK_FETCH_WINDOW) mem = Some (Inr code)" "code \<noteq> []"
  shows "lift_block halt_env mem at m = Some (Inr (halt_block (ip at)))"
proof -
  have "lift_loop halt_env m code (ip at) (Suc n) 0 acc_new =
    Some (Inr \<lparr>acc_st = \<lparr>lops = [InsnStart (ip at), Hlt], temps = 0\<rparr>, acc_icount = 1, acc_len = 1\<rparr>)" for n
    using assms(2) halt_lifts [of m "ip at"]
    by (simp add: halt_env_def halt_insn_def MAX_INSN_LEN_286_def count_insn_def acc_new_def push_def lift_new_def Let_def)
  then show ?thesis
    using assms(1) by (simp add: lift_block_def finish_block_def halt_block_def) (simp add: halt_env_def)
qed

definition demo_vm :: "unit Vm" where
  "demo_vm = set_tier_up_after interpreter_backend None (from_mem demo_memory () Fast)"

definition demo_resolved :: "(Exit + CachedBlock) \<times> unit Vm" where
  "demo_resolved = the (resolve halt_env interpreter_backend [] id (fetch_flat 0x1000) Long64 demo_vm)"

lemma resolve_first:
  assumes "code_slice (pa at) (of_nat BLOCK_FETCH_WINDOW) (vm_mem vm) = Some (Inr code)" "code \<noteq> []"
    and "map_of (tc_map (vm_cache vm)) (block_key (pa at) m) = None" "\<not> tier_up_background vm"
  shows "resolve halt_env interpreter_backend [] id at m vm =
    Some (Inr (Interpreted (halt_block (ip at))),
      vm\<lparr>vm_cache := (vm_cache vm)\<lparr>tc_misses := tc_misses (vm_cache vm) + 1,
             tc_map := AList.update (block_key (pa at) m) (Interpreted (halt_block (ip at))) (tc_map (vm_cache vm)),
             tc_spans := AList.update (block_key (pa at) m) [(pa at, 1)] (tc_spans (vm_cache vm))\<rparr>,
         vm_mem := mark_code (pa at) 1 (vm_mem vm)\<rparr>)"
  using assms halt_block_lifts [OF assms(1,2), of m]
  by (simp add: resolve_def resolve_step_def cache_get_def resolve_miss_def interpreter_backend_def Let_def finish_single_def
      vm_materialize_def cache_insert_def halt_block_def)

lemma demo_resolved_block:
  "resolve halt_env interpreter_backend [] id (fetch_flat 0x1000) Long64 demo_vm = Some demo_resolved"
  "vm_mem (snd demo_resolved) = mark_code 0x1000 1 demo_memory"
  "map_of (tc_map (vm_cache (snd demo_resolved))) (block_key 0x1000 Long64) = Some (Interpreted (halt_block 0x1000))"
proof -
  have "code_slice (pa (fetch_flat 0x1000)) (of_nat BLOCK_FETCH_WINDOW) (vm_mem demo_vm) = Some (Inr (replicate 4096 0))"
    by (simp add: code_slice_def region_end_def BLOCK_FETCH_WINDOW_def saturating_add_def host_off_def slice_def map_replicate_const
        demo_vm_def from_mem_def set_tier_up_after_def fetch_flat_def)
  note r = resolve_first [OF this, of Long64]
  have "map_of (tc_map (vm_cache demo_vm)) k = None" "\<not> tier_up_background demo_vm" "vm_mem demo_vm = demo_memory" for k
    by (simp_all add: demo_vm_def from_mem_def set_tier_up_after_def cache_new_def)
  with r show "resolve halt_env interpreter_backend [] id (fetch_flat 0x1000) Long64 demo_vm = Some demo_resolved"
    "vm_mem (snd demo_resolved) = mark_code 0x1000 1 demo_memory"
    "map_of (tc_map (vm_cache (snd demo_resolved))) (block_key 0x1000 Long64) = Some (Interpreted (halt_block 0x1000))"
    by (simp_all add: demo_resolved_def fetch_flat_def)
qed

definition demo_ghost :: "BlockKey \<Rightarrow> u64 \<Rightarrow> u8" where
  "demo_ghost = translated (block_key 0x1000 Long64) demo_vm (snd demo_resolved) (\<lambda>_ _. 0)"

lemma demo_reach:
  "(vm_step halt_env interpreter_backend)\<^sup>*\<^sup>*
     (\<lambda>_ _. 0, set_tier_up_after interpreter_backend None (from_mem demo_memory () Fast)) (demo_ghost, snd demo_resolved)"
proof -
  obtain r v where r: "demo_resolved = (r, v)" by fastforce
  then have "resolve halt_env interpreter_backend [] id (fetch_flat 0x1000) Long64 demo_vm = Some (r, v)"
    using demo_resolved_block by auto
  from st_resolve [OF this] show ?thesis unfolding demo_ghost_def r demo_vm_def by (auto intro: r_into_rtranclp)
qed

lemma demo_mem_inv: "mem_inv demo_memory"
  by (rule reachable_inv [OF demo_memory_reachable])

theorem translations_fresh_witness:
  "\<exists>blk sps. map_of (tc_map (vm_cache (handle_smc interpreter_backend (snd demo_resolved)))) (block_key 0x1000 Long64) = Some blk \<and>
     map_of (tc_spans (vm_cache (handle_smc interpreter_backend (snd demo_resolved)))) (block_key 0x1000 Long64) = Some sps \<and>
     (\<forall>sp\<in>set sps. \<forall>x\<in>span_bytes sp.
        mem_byte (vm_mem (handle_smc interpreter_backend (snd demo_resolved))) x = demo_ghost (block_key 0x1000 Long64) x)"
proof -
  let ?v = "snd demo_resolved" and ?k = "block_key 0x1000 Long64"
  note ir = demo_resolved_block(3,2)
  have "dirty_code demo_memory = []"
    by (simp add: demo_memory_def memory_new_def from_backing_def fresh_code_pages_def MAX_TRACKED_SPAN_def CODE_PAGE_BITS_def
        mem_map_def mem_size_def reprotect_def checked_add_def saturating_add_def region_end_def)
  then have "dirty_code (vm_mem ?v) = []" using ir(2) mark_code_keeps(4) by simp
  then have "fst (take_dirty_code (vm_mem ?v)) = []" by (simp add: take_dirty_code_def)
  then have "vm_cache (handle_smc interpreter_backend ?v) = vm_cache ?v" by (simp add: handle_smc_def split_beta)
  then have "map_of (tc_map (vm_cache (handle_smc interpreter_backend ?v))) ?k = Some (Interpreted (halt_block 0x1000))" using ir(1) by simp
  from translations_fresh [OF interp_backend.backend_contract_axioms halt_env_ok demo_mem_inv demo_reach this] this
  show ?thesis by blast
qed

section \<open>Budgeted runs end\<close>

lemma bind_SomeE: "Option.bind m f = Some y \<Longrightarrow> (\<And>x. m = Some x \<Longrightarrow> f x = Some y \<Longrightarrow> P) \<Longrightarrow> P"
  by (cases m) simp_all

lemma fold_keeps: "(\<And>x s. x \<in> set xs \<Longrightarrow> P (f x s) = P s) \<Longrightarrow> P (fold f xs s) = P s"
  by (induction xs arbitrary: s) simp_all

lemma widen_flag [simp]: "dirty_flag (widen_code_range p mem) = dirty_flag mem"
  by (simp add: widen_code_range_def Let_def split: prod.splits)

lemma mark_code_flag [simp]: "dirty_flag (mark_code a l mem) = dirty_flag mem"
  unfolding mark_code_def by (rule fold_keeps) (simp add: mark_code_page_def split: prod.splits)

lemma mark_spans_flag [simp]: "dirty_flag (mark_spans sps mem) = dirty_flag mem"
  unfolding mark_spans_def by (rule fold_keeps) (auto split: prod.splits)

lemma clear_code_page_flag [simp]: "dirty_flag (clear_code_page p mem) = dirty_flag mem"
  by (simp add: clear_code_page_def word_bit_eq)

lemma smc_pages_flag:
  "fold smc_page ps (iv, vm) = (iv', vm') \<Longrightarrow> dirty_flag (vm_mem vm') = dirty_flag (vm_mem vm)"
proof (induction ps arbitrary: iv vm)
  case (Cons p ps)
  then show ?case by (auto simp: smc_page_def [of p] vm_invalidate_def invalidate_overlapping_def Let_def)
qed simp

lemma handle_smc_flag: "\<not> has_dirty_code (vm_mem (handle_smc B vm))"
proof -
  obtain ps m where t: "take_dirty_code (vm_mem vm) = (ps, m)" by fastforce
  obtain iv' vm' where f: "fold smc_page ps (False, vm\<lparr>vm_mem := m\<rparr>) = (iv', vm')" by fastforce
  have "\<not> dirty_flag m" using t by (auto simp: take_dirty_code_def split: if_splits)
  then have "\<not> dirty_flag (vm_mem vm')" using smc_pages_flag [OF f] by simp
  then show ?thesis using t f by (simp add: handle_smc_def has_dirty_code_def)
qed

lemma drain_flag [simp]: "dirty_flag (vm_mem (drain_tier_up B vm)) = dirty_flag (vm_mem vm)"
proof -
  have "dirty_flag (vm_mem (publish_finished fin v)) = dirty_flag (vm_mem v)" for fin and v :: "'a Vm"
    by (auto simp: publish_finished_def upgrade_region_def Let_def)
  then have "dirty_flag (vm_mem (fold publish_finished fins v)) = dirty_flag (vm_mem v)" for fins and v :: "'a Vm"
    by (induction fins arbitrary: v) simp_all
  then show ?thesis by (simp add: drain_tier_up_def split: prod.splits)
qed

lemma submit_unit_mem: "submit_unit B pc m ep un sps vm = (r, vm') \<Longrightarrow> vm_mem vm' = vm_mem vm"
  by (auto simp: submit_unit_def Let_def on_cache_def split: prod.splits TierUpSubmit.splits)

lemma region_candidate_mem: "region_candidate E B pc m vm = Some (c, vm') \<Longrightarrow> vm_mem vm' = vm_mem vm"
  by (auto simp: region_candidate_def Let_def on_cache_def bind_eq_Some_conv split: option.splits)

lemma tier_up_submit_mem: "tier_up_submit E B pc m ep ir thr n vm = Some (r, vm') \<Longrightarrow> vm_mem vm' = vm_mem vm"
  by (auto simp: tier_up_submit_def Let_def elim!: bind_SomeE dest!: region_candidate_mem submit_unit_mem
      split: prod.split_asm if_split_asm sum.split_asm)

lemma vm_materialize_mem: "vm_materialize B ir vm = (b, vm') \<Longrightarrow> vm_mem vm' = vm_mem vm"
  by (auto simp: vm_materialize_def split: prod.splits)

lemma resolve_step_flag:
  assumes "resolve_step E B id pc m vm = Some (r, vm')"
  shows "dirty_flag (vm_mem vm') = dirty_flag (vm_mem vm)"
proof -
  define v where "v = (if tier_up_background vm then drain_tier_up B vm else vm)"
  have v: "dirty_flag (vm_mem v) = dirty_flag (vm_mem vm)" by (simp add: v_def)
  have "vm_mem vm' = vm_mem v"
    using assms unfolding resolve_step_def Let_def v_def [symmetric]
    by (auto elim!: bind_SomeE dest!: tier_up_submit_mem vm_materialize_mem
        split: prod.split_asm option.split_asm CachedBlock.split_asm if_split_asm)
  then show ?thesis using v by simp
qed

lemma finish_single_flag: "finish_single B k s ir vm = (b, vm') \<Longrightarrow> dirty_flag (vm_mem vm') = dirty_flag (vm_mem vm)"
  by (auto simp: finish_single_def Let_def cache_insert_def dest!: vm_materialize_mem split: prod.split_asm if_split_asm)

lemma insert_region_flag: "insert_region B k rg vm = Some (b, vm') \<Longrightarrow> dirty_flag (vm_mem vm') = dirty_flag (vm_mem vm)"
  by (auto simp: insert_region_eq cache_insert_def)

lemma resolve_miss_flag:
  "resolve_miss E B id at m vm = Some (r, vm') \<Longrightarrow> dirty_flag (vm_mem vm') = dirty_flag (vm_mem vm)"
  by (auto simp: resolve_miss_def Let_def elim!: bind_SomeE dest!: finish_single_flag insert_region_flag
      split: option.split_asm sum.split_asm if_split_asm list.split_asm prod.split_asm)

lemma resolve_flag: "resolve E B [] id at m vm = Some (r, vm') \<Longrightarrow> dirty_flag (vm_mem vm') = dirty_flag (vm_mem vm)"
  by (auto simp: resolve_def elim!: bind_SomeE dest!: resolve_step_flag resolve_miss_flag split: resolve_outcome.split_asm)

text \<open>What a block budget relies on of compiled code: it spends fuel and never adds any.\<close>

definition spends_fuel :: "'b JitArena \<Rightarrow> bool" where
  "spends_fuel J \<longleftrightarrow> (\<forall>p s. fuel (call_ctx (snd (call_block J p s))) \<le> fuel (call_ctx s))"

definition within :: "u64 \<Rightarrow> loc \<Rightarrow> 'b run_state \<Rightarrow> bool" where
  "within b l rs \<longleftrightarrow> blocks_run rs \<le> b \<and> (l \<noteq> Outer \<longrightarrow> blocks_run rs < b)"

text \<open>Rounds left: three per block of the budget, fewer once a compiled block is about to be entered.\<close>

definition rounds_left :: "u64 \<Rightarrow> loc \<Rightarrow> 'b run_state \<Rightarrow> nat" where
  "rounds_left b l rs = 3 * unat (b - blocks_run rs) +
     (if l = Outer then 1 else if has_dirty_code (vm_mem (rs_vm rs)) then 2 else 0)"

lemma charge_within:
  assumes "blocks_run rs < b" "1 \<le> n" "n \<le> b - blocks_run rs"
  shows "blocks_run (charge n rs) \<le> b" "unat (b - blocks_run (charge n rs)) < unat (b - blocks_run rs)"
proof -
  have d: "unat (b - blocks_run rs) = unat b - unat (blocks_run rs)" using assms(1) by (simp add: unat_sub order_less_imp_le)
  have l: "unat (blocks_run rs) + unat n \<le> unat b" "1 \<le> unat n" "unat (blocks_run rs) < unat b"
    using assms d by (auto simp: word_le_nat_alt word_less_nat_alt)
  then have u: "unat (blocks_run rs + n) = unat (blocks_run rs) + unat n"
    using unat_u64_less [of b] by (simp add: unat_word_ariths)
  then show le: "blocks_run (charge n rs) \<le> b" using l(1) by (simp add: charge_def word_le_nat_alt)
  have "unat (b - blocks_run (charge n rs)) = unat b - (unat (blocks_run rs) + unat n)"
    using le u by (simp add: unat_sub charge_def)
  then show "unat (b - blocks_run (charge n rs)) < unat (b - blocks_run rs)" using d l by simp
qed

text \<open>Progress of a round: the run ends, or fewer rounds are left.\<close>

definition progress :: "u64 \<Rightarrow> loc \<Rightarrow> 'b run_state \<Rightarrow> (run_next \<times> 'b run_state) option \<Rightarrow> bool" where
  "progress b l rs out \<longleftrightarrow>
     (case out of Some (Goto l', rs') \<Rightarrow> within b l' rs' \<and> rounds_left b l' rs' < rounds_left b l rs | _ \<Rightarrow> True)"

lemma progress_charged:
  assumes "blocks_run rs0 = blocks_run rs" "blocks_run rs < b"
  shows "progress b Outer rs (Some (Goto Outer, charge 1 rs0))"
proof -
  have "1 \<le> b - blocks_run rs0" using assms by (simp add: word_le_nat_alt unat_sub word_less_nat_alt order_less_imp_le)
  from charge_within [OF _ order_refl this] assms show ?thesis by (simp add: progress_def within_def rounds_left_def)
qed

lemma resolve_block_keeps:
  assumes "resolve_block E B at rs = Some (r, rs')"
  shows "blocks_run rs' = blocks_run rs" "dirty_flag (vm_mem (rs_vm rs')) = dirty_flag (vm_mem (rs_vm rs))"
  using assms by (auto simp: resolve_block_def resolve_flag elim!: bind_SomeE split: prod.split_asm)

lemma take_step_keeps:
  "take_step out rs = (rs', info, r) \<Longrightarrow> blocks_run rs' = blocks_run rs"
  by (auto simp: take_step_def Let_def split: prod.split_asm)

lemma deliver_vector_keeps: "deliver_vector a v rs = (rs', r) \<Longrightarrow> blocks_run rs' = blocks_run rs"
  by (auto simp: deliver_vector_def Let_def split: prod.split_asm)

lemma set_shadow_keeps [simp]: "blocks_run (set_shadow s rs) = blocks_run rs"
  by (simp add: set_shadow_def)

lemma run_interpreted_progress:
  assumes "blocks_run rs0 = blocks_run rs" "blocks_run rs < b"
  shows "progress b Outer rs (run_interpreted ir rs0)"
proof (cases "run_interpreted ir rs0")
  case (Some p)
  obtain l' rs' where p: "p = (l', rs')" by fastforce
  show ?thesis
  proof (cases l')
    case (Goto l)
    then obtain rs1 where "l = Outer" "rs' = charge 1 rs1" "blocks_run rs1 = blocks_run rs"
      using Some p assms(1)
      by (auto simp: run_interpreted_def Let_def elim!: bind_SomeE dest!: take_step_keeps deliver_vector_keeps
          split: prod.split_asm StepResult.split_asm Exit.split_asm if_split_asm)
    then show ?thesis using progress_charged [of rs1 rs b] assms(2) Some p Goto by simp
  qed (simp add: Some p progress_def)
qed (simp add: progress_def)

lemma dispatch_progress:
  assumes "blocks_run rs0 = blocks_run rs" "blocks_run rs < b" "\<not> has_dirty_code (vm_mem (rs_vm rs0))"
  shows "progress b Outer rs (dispatch E B rs0)"
proof (cases "fast_get (rs_vcpu rs0) (rip (cpu (rs_vcpu rs0)))")
  case (Some p)
  then show ?thesis
    using assms by (simp add: dispatch_def Let_def progress_def within_def rounds_left_def order_less_imp_le)
next
  case None
  let ?at = "fetch_for_mode (vcpu_mode (rs_vcpu rs0)) (rip (cpu (rs_vcpu rs0))) (cs_sel (cpu (rs_vcpu rs0)))"
  show ?thesis
  proof (cases "resolve_block E B ?at rs0")
    case (Some q)
    obtain r rs1 where q: "q = (r, rs1)" by fastforce
    note k = resolve_block_keeps [OF Some [unfolded q]]
    have nd: "\<not> has_dirty_code (vm_mem (rs_vm rs1))" using k(2) assms(3) by (simp add: has_dirty_code_def)
    show ?thesis
    proof (cases r)
      case (Inr blk)
      show ?thesis
      proof (cases blk)
        case (Interpreted ir)
        then show ?thesis using None Some q Inr k(1) assms run_interpreted_progress [of rs1 rs b ir]
          by (simp add: dispatch_def Let_def)
      next
        case (Compiled p)
        then show ?thesis using None Some q Inr k(1) assms nd
          by (simp add: dispatch_def Let_def progress_def within_def rounds_left_def order_less_imp_le)
      qed
    qed (use None Some q in \<open>simp add: dispatch_def Let_def progress_def\<close>)
  qed (use None in \<open>simp add: dispatch_def Let_def progress_def\<close>)
qed

lemma sync_caches_keeps:
  "blocks_run (sync_caches B rs) = blocks_run rs" "\<not> has_dirty_code (vm_mem (rs_vm (sync_caches B rs)))"
  by (simp_all add: sync_caches_def Let_def handle_smc_flag)

lemma resume_mmio_progress:
  assumes "blocks_run rs0 = blocks_run rs" "blocks_run rs < b"
  shows "progress b Outer rs (resume_mmio E rs0)"
proof (cases "resume_mmio E rs0")
  case (Some p)
  obtain l' rs' where p: "p = (l', rs')" by fastforce
  show ?thesis
  proof (cases l')
    case (Goto l)
    then obtain rs1 where "l = Outer" "rs' = charge 1 rs1" "blocks_run rs1 = blocks_run rs"
      using Some p assms(1)
      by (auto simp: resume_mmio_def Let_def elim!: bind_SomeE dest!: take_step_keeps split: prod.split_asm StepResult.split_asm)
    then show ?thesis using progress_charged [of rs1 rs b] assms(2) Some p Goto by simp
  qed (simp add: Some p progress_def)
qed (simp add: progress_def)

lemma deliver_irq_progress:
  assumes "blocks_run rs0 = blocks_run rs" "blocks_run rs < b"
  shows "progress b Outer rs (Some (deliver_irq v rs0))"
proof -
  let ?rs = "rs0\<lparr>rs_vcpu := (rs_vcpu rs0)\<lparr>pending_irq := None\<rparr>\<rparr>"
  obtain rs1 r where d: "deliver_vector (rip (cpu (rs_vcpu ?rs))) v ?rs = (rs1, r)" by fastforce
  have "blocks_run rs1 = blocks_run rs" using deliver_vector_keeps [OF d] assms(1) by simp
  then show ?thesis
    using d progress_charged [of "set_shadow False rs1" rs b] assms(2)
    by (cases r) (simp_all add: deliver_irq_def Let_def progress_def)
qed

lemma outer_progress:
  assumes "within b Outer rs"
  shows "progress b Outer rs (outer_step E B (Some b) rs)"
proof (cases "blocks_run rs < b")
  case True
  note s = sync_caches_keeps [of B rs]
  have "\<not> over_budget (Some b) rs" using True by (simp add: over_budget_def)
  then show ?thesis
    using True s resume_mmio_progress [of "sync_caches B rs" rs b E] deliver_irq_progress [of "sync_caches B rs" rs b]
      dispatch_progress [of "sync_caches B rs" rs b E B]
    by (auto simp: outer_step_def Let_def split: option.splits)
next
  case False
  then show ?thesis by (simp add: outer_step_def over_budget_def progress_def not_less)
qed

lemma on_code_keeps:
  assumes "on_code E B J code rs = Some (nx, rs')"
  shows "blocks_run rs' = blocks_run rs"
proof -
  have fill: "blocks_run rs2 = blocks_run rs1" if "refill_ibtc J s p rs1 = (ok, rs2)" for ok s p and rs1 rs2 :: "'a run_state"
    using that by (auto simp: refill_ibtc_def Let_def split: if_split_asm prod.split_asm)
  have link: "blocks_run rs' = blocks_run rs" if "on_link E B J rs = Some (nx, rs')"
    using that by (auto simp: on_link_def Let_def elim!: bind_SomeE dest!: resolve_block_keeps(1)
        split: prod.split_asm sum.split_asm CachedBlock.split_asm if_split_asm)
  have ibtc: "blocks_run rs' = blocks_run rs" if "on_ibtc_miss E B J rs = Some (nx, rs')"
    using that by (auto simp: on_ibtc_miss_def Let_def elim!: bind_SomeE dest!: resolve_block_keeps(1) fill
        split: prod.split_asm sum.split_asm CachedBlock.split_asm option.split_asm)
  have dfr: "blocks_run rs' = blocks_run rs" if "on_defer E rs = Some (nx, rs')"
    using that by (auto simp: on_defer_def Let_def elim!: bind_SomeE dest!: take_step_keeps split: prod.split_asm StepResult.split_asm)
  show ?thesis using assms link ibtc dfr by (auto simp: on_code_def split: if_split_asm)
qed

lemma inner_progress:
  assumes "within b (Inner p) rs" "spends_fuel J"
  shows "progress b (Inner p) rs (inner_step E B J (Some b) p rs)"
proof (cases "has_dirty_code (vm_mem (rs_vm rs))")
  case True
  then show ?thesis using assms(1) by (simp add: inner_step_def progress_def within_def rounds_left_def)
next
  case False
  have lt: "blocks_run rs < b" using assms(1) by (simp add: within_def)
  let ?q = "b - blocks_run rs"
  let ?s = "\<lparr>call_cpu = cpu (rs_vcpu rs), call_ctx = (rs_ctx rs)\<lparr>fuel := ?q\<rparr>, call_mem = vm_mem (rs_vm rs),
      call_ret_stack = ret_stack (rs_vcpu rs), call_executed = executed (rs_vcpu rs)\<rparr>"
  obtain code s where c: "call_block J p ?s = (code, s)" by fastforce
  have "fuel (call_ctx (snd (call_block J p ?s))) \<le> fuel (call_ctx ?s)" using assms(2) unfolding spends_fuel_def by blast
  then have f: "fuel (call_ctx s) \<le> ?q" using c by simp
  define n where "n = max (?q - fuel (call_ctx s)) 1"
  obtain rs1 where e: "enter_block J (Some b) p rs = (code, charge n rs1)" "blocks_run rs1 = blocks_run rs"
    using c by (simp add: enter_block_def Let_def n_def)
  have q1: "1 \<le> ?q" using lt by (simp add: word_le_nat_alt unat_sub word_less_nat_alt order_less_imp_le)
  have "unat (?q - fuel (call_ctx s)) \<le> unat ?q" using f by (simp add: unat_sub)
  then have "1 \<le> n" "n \<le> b - blocks_run rs1" using q1 e(2) by (auto simp: n_def max_def word_le_nat_alt)
  note w = charge_within [OF lt [folded e(2)] this]
  have drop: "3 * unat (b - blocks_run (charge n rs1)) + 3 \<le> 3 * unat ?q" using w(2) e(2) by simp
  have P: "progress b (Inner p) rs (Some (nx, rs2))"
    if "blocks_run rs2 = blocks_run (charge n rs1)" "\<forall>l. nx = Goto l \<longrightarrow> l \<noteq> Outer \<longrightarrow> blocks_run rs2 < b" for nx rs2
    using that w(1) drop False by (auto simp: progress_def within_def rounds_left_def split: run_next.splits)
  show ?thesis
  proof (cases "on_code E B J code (charge n rs1)")
    case None
    then show ?thesis using False e(1) by (simp add: inner_step_def progress_def)
  next
    case (Some q)
    obtain nx rs2 where q: "q = (nx, rs2)" by fastforce
    let ?o = "case nx of Goto (Inner p) \<Rightarrow> if over_budget (Some b) rs2 then (ExitWith ExBudgetExhausted, rs2) else (nx, rs2)
      | _ \<Rightarrow> (nx, rs2)"
    have "inner_step E B J (Some b) p rs = Some ?o" using False e(1) Some q by (simp add: inner_step_def)
    moreover have "progress b (Inner p) rs (Some ?o)"
      using P [OF on_code_keeps [OF Some [unfolded q]]] on_code_keeps [OF Some [unfolded q]]
      by (auto simp: over_budget_def not_le split: run_next.splits loc.splits)
    ultimately show ?thesis by simp
  qed
qed

lemma run_loop_ends:
  assumes "spends_fuel J"
  shows "within b l rs \<Longrightarrow> rounds_left b l rs < n \<Longrightarrow> run_loop E B J (Some b) n l rs \<noteq> None"
proof (induction n arbitrary: l rs)
  case (Suc n)
  have p: "progress b l rs (run_step E B J (Some b) l rs)"
    using Suc.prems(1) outer_progress inner_progress [OF _ assms] by (cases l) (simp_all add: run_step_def)
  show ?case
  proof (cases "run_step E B J (Some b) l rs")
    case (Some q)
    then show ?thesis using p Suc by (cases q; cases "fst q") (auto simp: progress_def)
  qed simp
qed simp

text \<open>Compiled code that hands every call straight back.\<close>

definition idle_arena :: "unit JitArena" where
  "idle_arena = \<lparr>call_block = (\<lambda>_ s. (RET_CONTINUE, s)), store_slot = (\<lambda>_ _ b. b), heap_addr = (\<lambda>_. 0)\<rparr>"

section \<open>Epochs\<close>

text \<open>What the virtual CPUs may do to the shared cache, with the number of invalidations among it.\<close>

inductive cache_run :: "nat \<Rightarrow> TranslationCache \<Rightarrow> TranslationCache \<Rightarrow> bool" where
  cr_start: "cache_run 0 c c"
| cr_insert: "cache_run n c d \<Longrightarrow> cache_insert k b sps mk (d, m :: Memory) = (d', m') \<Longrightarrow> cache_run n c d'"
| cr_upgrade: "cache_run n c d \<Longrightarrow> upgrade k b sp ep d = (ok, d') \<Longrightarrow> cache_run n c d'"
| cr_region: "cache_run n c d \<Longrightarrow> upgrade_region k b sps ep mk (d, m :: Memory) = (ok, d', m') \<Longrightarrow> cache_run n c d'"
| cr_get: "cache_run n c d \<Longrightarrow> cache_get k d = (r, d') \<Longrightarrow> cache_run n c d'"
| cr_hot: "cache_run n c d \<Longrightarrow> bump_hotness k d = (h, d') \<Longrightarrow> cache_run n c d'"
| cr_decide: "cache_run n c d \<Longrightarrow> cache_run n c (set_region_decision k r d)"
| cr_begin: "cache_run n c d \<Longrightarrow> try_begin_tier_up k d = (ok, d') \<Longrightarrow> cache_run n c d'"
| cr_end: "cache_run n c d \<Longrightarrow> cache_run n c (end_tier_up k d)"
| cr_ibtc: "cache_run n c d \<Longrightarrow> alloc_ibtc_descriptor a t p d = (desc, d') \<Longrightarrow> cache_run n c d'"
| cr_invalidate: "cache_run n c d \<Longrightarrow> invalidate_overlapping lo hi f (d, m :: Memory) = (vs, d', m') \<Longrightarrow> cache_run (Suc n) c d'"

definition epoch_counts :: "nat \<Rightarrow> TranslationCache \<Rightarrow> TranslationCache \<Rightarrow> bool" where
  "epoch_counts n c d \<longleftrightarrow> (\<exists>e\<le>n. tc_epoch d = tc_epoch c + of_nat e \<and>
     (e = 0 \<longrightarrow> dom (map_of (tc_map c)) \<subseteq> dom (map_of (tc_map d))))"

lemma epoch_counts_grow:
  assumes "epoch_counts n c d" "tc_epoch d' = tc_epoch d" "dom (map_of (tc_map d)) \<subseteq> dom (map_of (tc_map d'))"
  shows "epoch_counts n c d'"
  using assms unfolding epoch_counts_def by (metis order_trans)

lemma epoch_counts_bump: "epoch_counts n c d \<Longrightarrow> tc_epoch d' = tc_epoch d + 1 \<Longrightarrow> epoch_counts (Suc n) c d'"
  unfolding epoch_counts_def by (elim exE conjE) (rule_tac x = "Suc e" in exI, simp)

lemma epoch_counts_Suc: "epoch_counts n c d \<Longrightarrow> epoch_counts (Suc n) c d"
  unfolding epoch_counts_def using le_SucI by blast

lemma cache_run_epoch: "cache_run n c d \<Longrightarrow> epoch_counts n c d"
proof (induction rule: cache_run.induct)
  case (cr_start c)
  show ?case by (simp add: epoch_counts_def)
next
  case (cr_invalidate n c d lo hi f m vs d' m')
  note i = invalidate_fields [OF cr_invalidate.hyps(2)]
  show ?case
  proof (cases "vs = []")
    case True
    then have "tc_epoch d' = tc_epoch d" "map_of (tc_map d') = map_of (tc_map d)" using i(1,5) by (auto simp: fun_eq_iff)
    then show ?thesis by (intro epoch_counts_grow [OF epoch_counts_Suc [OF cr_invalidate.IH]]) simp_all
  next
    case False
    then show ?thesis using epoch_counts_bump [OF cr_invalidate.IH] i(5) by simp
  qed
qed (erule epoch_counts_grow; auto simp: cache_insert_def upgrade_def upgrade_region_def cache_get_def bump_hotness_def
    set_region_decision_def try_begin_tier_up_def end_tier_up_def alloc_ibtc_descriptor_def Let_def split: if_splits option.splits)+

text \<open>
  Property C34: a publication that carries an old epoch is accepted only while the unit it concerns is
  still cached. Whatever other virtual CPUs did to the cache in between, with fewer than 2^64
  invalidations, if an upgrade, a region upgrade or a slot publication succeeds with the epoch
  snapshot then no unit cached at the snapshot has been dropped.
\<close>
theorem publish_only_live_units:
  assumes "cache_run n c d" "n < 2 ^ 64" "map_of (tc_map c) k \<noteq> None"
    and "fst (upgrade k b sp (tc_epoch c) d) \<or> fst (upgrade_region k b sps (tc_epoch c) mk (d, m)) \<or>
      fst (publish_if_current (tc_epoch c) pub (d, s))"
  shows "map_of (tc_map d) k \<noteq> None"
proof -
  obtain e where e: "e \<le> n" "tc_epoch d = tc_epoch c + of_nat e" "e = 0 \<longrightarrow> dom (map_of (tc_map c)) \<subseteq> dom (map_of (tc_map d))"
    using cache_run_epoch [OF assms(1)] by (auto simp: epoch_counts_def)
  have "tc_epoch d = tc_epoch c"
    using assms(4) by (auto simp: upgrade_def upgrade_region_def publish_if_current_def split: if_splits)
  then have "(of_nat e :: u64) = 0" using e(2) by simp
  then have "2 ^ 64 dvd e" by (simp add: word_of_nat_eq_0_iff)
  moreover have "e < 2 ^ 64" using e(1) assms(2) by simp
  ultimately have "e = 0" using nat_dvd_not_less by auto
  then show ?thesis using e(3) assms(3) by auto
qed

definition demo_cache :: TranslationCache where
  "demo_cache = fst (cache_insert (block_key 0x1000 Long64) (Compiled 0x7000) [(0x1000, 1)] mark_spans (cache_new, demo_memory))"

theorem publish_only_live_units_witness:
  "map_of (tc_map (fst (snd (invalidate_overlapping 0 0x1000 id (demo_cache, demo_memory))))) (block_key 0x1000 Long64) \<noteq> None"
proof -
  let ?d = "fst (snd (invalidate_overlapping 0 0x1000 id (demo_cache, demo_memory)))"
  have r: "cache_run 1 demo_cache ?d" using cr_invalidate [OF cr_start, of 0 "0x1000" id demo_cache demo_memory]
    by (metis One_nat_def prod.collapse)
  have m: "map_of (tc_map demo_cache) (block_key 0x1000 Long64) \<noteq> None" by (simp add: demo_cache_def cache_insert_def)
  have u: "fst (upgrade (block_key 0x1000 Long64) (Compiled 0x7000) (0x1000, 1) (tc_epoch demo_cache) ?d)"
    by (simp add: demo_cache_def cache_insert_def cache_new_def invalidate_overlapping_def span_overlaps_def upgrade_def Let_def)
  show ?thesis
    by (rule publish_only_live_units [OF r _ m, where b = "Compiled 0x7000" and sp = "(0x1000, 1)" and sps = "[]" and mk = mark_spans
          and m = demo_memory and pub = id and s = "()"]) (use u in simp_all)
qed

section \<open>A tier-up in real mode\<close>

definition real_vm :: "unit Vm" where
  "real_vm = set_cpu_mode Real16 (set_tier_up_after interpreter_backend (Some 1) (from_mem demo_memory () Fast))"

lemma demo_code: "code_slice 0x1000 (of_nat BLOCK_FETCH_WINDOW) demo_memory = Some (Inr (replicate 4096 0))"
  by (simp add: code_slice_def region_end_def BLOCK_FETCH_WINDOW_def saturating_add_def host_off_def slice_def map_replicate_const)

text \<open>
  In real mode the upgrade of a hot block records the decode address instead of the
  physical one. A block at selector 0x100, offset 0 is cached with the span at 0x1000; the resolution
  that upgrades it replaces the span by address 0, and an invalidation of the page that holds its code
  no longer finds it.
\<close>
lemma real16_upgrade_moves_span:
  "\<exists>ir vm1 vm2.
     resolve halt_env interpreter_backend [] id (fetch_real16 0x100 0) Real16 real_vm = Some (Inr (Interpreted ir), vm1) \<and>
     map_of (tc_spans (vm_cache vm1)) (block_key 0x1000 Real16) = Some [(0x1000, 1)] \<and>
     resolve halt_env interpreter_backend [] id (fetch_real16 0x100 0) Real16 vm1 = Some (Inr (Interpreted ir), vm2) \<and>
     map_of (tc_spans (vm_cache vm2)) (block_key 0x1000 Real16) = Some [(0, 1)] \<and>
     fst (vm_invalidate 0x1000 0x2000 (clear_code_page 1) vm2) = [] \<and>
     map_of (tc_map (vm_cache (snd (vm_invalidate 0x1000 0x2000 (clear_code_page 1) vm2)))) (block_key 0x1000 Real16)
       = Some (Interpreted ir)"
proof -
  let ?k = "block_key 0x1000 Real16" and ?b = "Interpreted (halt_block 0)"
  have at: "pa (fetch_real16 0x100 0) = 0x1000" "ip (fetch_real16 0x100 0) = 0" by (simp_all add: fetch_real16_def Let_def)
  define vm1 where "vm1 = real_vm\<lparr>vm_cache := cache_new\<lparr>tc_misses := 1, tc_map := [(?k, ?b)], tc_spans := [(?k, [(0x1000, 1)])]\<rparr>,
    vm_mem := mark_code 0x1000 1 demo_memory\<rparr>"
  have v: "vm_mem real_vm = demo_memory" "vm_cache real_vm = cache_new" "tier_up_after real_vm = Some 1" "\<not> tier_up_background real_vm"
    by (simp_all add: real_vm_def from_mem_def set_tier_up_after_def set_cpu_mode_def)
  have r1: "resolve halt_env interpreter_backend [] id (fetch_real16 0x100 0) Real16 real_vm = Some (Inr ?b, vm1)"
    using resolve_first [of "fetch_real16 0x100 0" real_vm _ Real16] demo_code at v
    by (simp add: vm1_def) (simp add: cache_new_def)
  define vm2 where "vm2 = real_vm\<lparr>vm_cache := cache_new\<lparr>tc_misses := 1, tc_hits := 1, tc_map := [(?k, ?b)], tc_spans := [(?k, [(0, 1)])]\<rparr>,
    vm_mem := mark_code 0x1000 1 demo_memory\<rparr>"
  have r2: "resolve halt_env interpreter_backend [] id (fetch_real16 0x100 0) Real16 vm1 = Some (Inr ?b, vm2)"
    using at v by (simp add: resolve_def resolve_step_def vm1_def vm2_def cache_get_def bump_hotness_def upgrade_def vm_materialize_def
        interpreter_backend_def halt_block_def Let_def) (simp add: cache_new_def)
  have "fst (vm_invalidate 0x1000 0x2000 (clear_code_page 1) vm2) = [] \<and>
     map_of (tc_map (vm_cache (snd (vm_invalidate 0x1000 0x2000 (clear_code_page 1) vm2)))) ?k = Some ?b"
    by (simp add: vm_invalidate_def invalidate_overlapping_def vm2_def span_overlaps_def Let_def)
  moreover have "map_of (tc_spans (vm_cache vm1)) ?k = Some [(0x1000, 1)]" "map_of (tc_spans (vm_cache vm2)) ?k = Some [(0, 1)]"
    by (simp_all add: vm1_def vm2_def)
  ultimately show ?thesis using r1 r2 by blast
qed

section \<open>Unmapping next to code\<close>

text \<open>Two regions of RAM that share the first page.\<close>

definition split_memory :: Memory where
  "split_memory =
     projr (the (mem_map 0x800 0x800 ProtRW Ram
       (projr (the (mem_map 0 0x800 ProtRW Ram (the (memory_new (Flat 0x2000) 0)))))))"

lemma split_memory_fields [simp]:
  "regions split_memory =
     [\<lparr>region_start = 0, region_size = 0x800, region_prot = ProtRW, region_kind = Ram\<rparr>,
      \<lparr>region_start = 0x800, region_size = 0x800, region_prot = ProtRW, region_kind = Ram\<rparr>]"
  "model split_memory = Flat 0x2000" "guest_base split_memory = 0" "backing_len split_memory = 0x2000"
  "backing split_memory = (\<lambda>_. 0)" "last_region split_memory = 0" "backing_owner split_memory = Boxed" "backing_ptr split_memory = 0"
  "code_page split_memory = [0]" "code_range split_memory = 0" "dirty_code split_memory = []" "\<not> dirty_flag split_memory"
  "watch_count (watch split_memory) = 0"
  by (simp_all add: split_memory_def memory_new_def from_backing_def fresh_code_pages_def MAX_TRACKED_SPAN_def CODE_PAGE_BITS_def
      mem_map_def mem_size_def reprotect_def checked_add_def saturating_add_def region_end_def zeroed_words_def div_ceil_def
      CODE_PAGE_SIZE_def watch_pages_new_def)

definition split_vm :: "unit Vm" where
  "split_vm = from_mem split_memory () Fast"

text \<open>
  Unmapping a region that shares a page with translated code clears the tag of the shared
  page without dropping the translation. The store that follows changes the translated byte, is not
  reported, and the stale translation survives the handling of self-modifying code.
\<close>
lemma unmap_drops_neighbour_tag:
  "\<exists>ir vm1 vm2.
     resolve halt_env interpreter_backend [] id (fetch_flat 0) Long64 split_vm = Some (Inr (Interpreted ir), vm1) \<and>
     is_code_page 0 (vm_mem vm1) \<and>
     vm_unmap interpreter_backend 0x800 0x800 vm1 = Inr vm2 \<and>
     map_of (tc_map (vm_cache vm2)) (block_key 0 Long64) = Some (Interpreted ir) \<and>
     \<not> is_code_page 0 (vm_mem vm2) \<and>
     (let mem3 = fst (mem_write 0 0xF4 1 (vm_mem vm2))
      in mem_byte mem3 0 = 0xF4 \<and> mem_byte (vm_mem vm1) 0 = 0 \<and>
         map_of (tc_map (vm_cache (handle_smc interpreter_backend (vm2\<lparr>vm_mem := mem3\<rparr>)))) (block_key 0 Long64)
           = Some (Interpreted ir))"
proof -
  let ?k = "block_key 0 Long64" and ?b = "Interpreted (halt_block 0)"
  have at: "pa (fetch_flat 0) = 0" "ip (fetch_flat 0) = 0" by (simp_all add: fetch_flat_def)
  have code: "code_slice 0 (of_nat BLOCK_FETCH_WINDOW) split_memory = Some (Inr (replicate 2048 0))"
    by (simp add: code_slice_def region_end_def BLOCK_FETCH_WINDOW_def saturating_add_def host_off_def slice_def map_replicate_const)
  define mem1 where "mem1 = split_memory\<lparr>code_page := [1], code_range := 2\<rparr>"
  have m1: "mark_code 0 1 split_memory = mem1"
    by (simp add: mark_code_def code_page_range_def pages_between_def mark_code_page_def word_bit_def widen_code_range_def
        CODE_PAGE_BITS_def saturating_add_def saturating_sub_def Let_def mem1_def)
  define vm1 where "vm1 = split_vm\<lparr>vm_cache := cache_new\<lparr>tc_misses := 1, tc_map := [(?k, ?b)], tc_spans := [(?k, [(0, 1)])]\<rparr>,
    vm_mem := mem1\<rparr>"
  have r1: "resolve halt_env interpreter_backend [] id (fetch_flat 0) Long64 split_vm = Some (Inr ?b, vm1)"
    using resolve_first [of "fetch_flat 0" split_vm _ Long64] code at m1
    by (simp add: vm1_def split_vm_def from_mem_def) (simp add: cache_new_def)
  define mem2 where "mem2 = mem1\<lparr>regions := [hd (regions split_memory)], code_page := [0]\<rparr>"
  define vm2 where "vm2 = vm1\<lparr>vm_mem := mem2\<rparr>"
  have r2: "vm_unmap interpreter_backend 0x800 0x800 vm1 = Inr vm2"
    by (simp add: vm_unmap_def unmap_def remove_nth_def reprotect_def vm_invalidate_def invalidate_overlapping_def
        span_overlaps_def vm1_def vm2_def mem1_def mem2_def saturating_add_def saturating_sub_def CODE_PAGE_BITS_def
        pages_between_def clear_code_page_def word_bit_def Let_def)
  define mem3 where "mem3 = fst (mem_write 0 0xF4 1 mem2)"
  have m3: "mem_byte mem3 0 = 0xF4" "\<not> dirty_flag mem3"
    by (simp_all add: mem3_def mem2_def mem1_def mem_write_def region_at_def checked_add_def region_contains_def region_end_def
        note_write_def code_page_range_def pages_between_def note_page_def is_code_page_def word_bit_def CODE_PAGE_BITS_def
        saturating_add_def atomic_store_le_def typed_store_def copy_in_def to_le_bytes_def mem_byte_def host_off_def Let_def)
  have "vm_cache (handle_smc interpreter_backend (vm2\<lparr>vm_mem := mem3\<rparr>)) = vm_cache vm2"
    using m3(2) by (simp add: handle_smc_def take_dirty_code_def)
  moreover have "is_code_page 0 (vm_mem vm1)" "\<not> is_code_page 0 (vm_mem vm2)" "mem_byte (vm_mem vm1) 0 = 0"
    "map_of (tc_map (vm_cache vm2)) ?k = Some ?b" "vm_mem vm2 = mem2"
    by (simp_all add: vm1_def vm2_def mem1_def mem2_def is_code_page_def word_bit_def mem_byte_def host_off_def)
  ultimately show ?thesis using r1 r2 m3(1) by (auto simp: mem3_def Let_def)
qed

section \<open>Lifting returns and reports faithfully\<close>

text \<open>
  Property C32: lifting a block always returns, on any bytes: the decode loop ends, no slice is out of
  range, and the block starts at the fetch address and ends inside guest memory.
\<close>
theorem lift_block_returns:
  assumes "decoder_ok E" "mem_inv mem"
  shows "\<exists>r. lift_block E mem at m = Some r \<and>
    (\<forall>ir. r = Inr ir \<longrightarrow> guest_start ir = ip at \<and> unat (pa at) + unat (guest_len ir) \<le> unat (mem_size mem))"
proof -
  obtain r where "lift_block E mem at m = Some r" using lift_block_spec(1) [OF assms] by blast
  then show ?thesis using lift_block_spec(2) [OF assms] by (auto simp: span_ok_def)
qed

theorem lift_block_returns_witness:
  "\<exists>r. lift_block halt_env demo_memory (fetch_flat 0x1000) Long64 = Some r \<and>
    (\<forall>ir. r = Inr ir \<longrightarrow> guest_start ir = ip (fetch_flat 0x1000) \<and>
       unat (pa (fetch_flat 0x1000)) + unat (guest_len ir) \<le> unat (mem_size demo_memory))"
  by (rule lift_block_returns [OF halt_env_ok demo_mem_inv])

text \<open>The decoder numbers an instruction with the address it was given.\<close>

definition decoder_ips :: "lift_env \<Rightarrow> bool" where
  "decoder_ips E \<longleftrightarrow> (\<forall>bits opts bs a. insn_ip (fst (decode E bits opts bs a)) = a)"

lemma code_slice_bytes:
  assumes "code_slice a w mem = Some (Inr code)" "mem_inv mem" "j < length code"
  shows "code ! j = mem_byte mem (a + of_nat j)"
proof -
  obtain e where c: "code = slice mem (host_off a mem) (e - host_off a mem)" "e \<le> backing_len mem"
    using assms(1) by (auto simp: code_slice_def Let_def split: option.splits if_splits)
  then have b: "code ! j = backing mem (host_off a mem + j)" "host_off a mem + j < backing_len mem"
    using assms(3) by (auto simp: slice_def)
  have "backing_len mem \<le> unat MAX_TRACKED_SPAN" using assms(2) by (simp add: mem_inv_def)
  then have s: "host_off a mem + j < 2 ^ 64" using b(2) unat_u64_less [of MAX_TRACKED_SPAN] by simp
  have "unat (x + of_nat j) = unat x + j" if "unat x + j < 2 ^ 64" for x :: u64
    using that by (simp add: unat_word_ariths unat_of_nat)
  from this [of "a - guest_base mem"] s have "host_off (a + of_nat j) mem = host_off a mem + j"
    by (simp add: host_off_def algebra_simps)
  with b(1) show ?thesis by (simp add: mem_byte_def)
qed

lemma lift_loop_unsupported:
  assumes "decoder_ok E" "decoder_ips E" "length code < 2 ^ 64"
  shows "lift_loop E m code start n pos a = Some (Inl (Unsupported ad bs len)) \<Longrightarrow>
    \<exists>p. ad = start + of_nat p \<and> p + len \<le> length code \<and> 1 \<le> len \<and> len \<le> 15 \<and> bs = take len (drop p code) @ replicate (15 - len) 0"
proof (induction n arbitrary: pos a)
  case (Suc n)
  obtain insn err where d: "decode E (mode_bits m) (decoder_options m) (drop pos code) (start + of_nat pos) = (insn, err)"
    by fastforce
  show ?case
  proof (cases "pos < length code")
    case True
    note s = decoder_step [OF assms(1) True d]
    have i: "insn_ip insn = start + of_nat pos"
      using assms(2) d unfolding decoder_ips_def by (metis fst_conv)
    have u: "unat (insn_ip insn - start) = pos" using True assms(3) by (simp add: i unat_of_nat)
    have r: "refill_unsupported_bytes (unsupported_insn insn) code start =
      Some (Unsupported (insn_ip insn) (take (insn_len insn) (drop pos code) @ replicate (15 - insn_len insn) 0) (insn_len insn))"
      using s by (simp add: refill_unsupported_bytes_def unsupported_insn_def u Let_def)
    have "refill_unsupported_bytes (unsupported_insn insn) code start = Some (Unsupported ad bs len) \<or>
      (\<exists>b. lift_loop E m code start n (pos + insn_len insn) b = Some (Inl (Unsupported ad bs len)))"
      using Suc.prems True d by (auto simp: Let_def split: option.split_asm prod.split_asm if_split_asm)
    then show ?thesis
    proof
      assume "refill_unsupported_bytes (unsupported_insn insn) code start = Some (Unsupported ad bs len)"
      then show ?thesis using r i s by (intro exI [of _ pos]) auto
    qed (use Suc.IH in blast)
  next
    case False
    then show ?thesis using Suc.prems by simp
  qed
qed simp

text \<open>
  Property C35: an unsupported instruction is reported with its own bytes. When lifting fails that way,
  the fifteen reported bytes are the bytes of guest memory at the reported instruction, padded with
  zeros after its length.
\<close>
theorem unsupported_reports_code:
  assumes "decoder_ok E" "decoder_ips E" "mem_inv mem" "lift_block E mem at m = Some (Inl (Unsupported a bs n))"
  shows "length bs = 15 \<and> 1 \<le> n \<and> n \<le> 15 \<and> (\<forall>i<15. bs ! i = (if i < n then mem_byte mem (pa at + (a - ip at) + of_nat i) else 0))"
proof -
  obtain code where c: "code_slice (pa at) (of_nat BLOCK_FETCH_WINDOW) mem = Some (Inr code)"
    "lift_loop E m code (ip at) (length code + 1) 0 acc_new = Some (Inl (Unsupported a bs n))"
    using assms(4) by (auto simp: lift_block_def elim!: bind_SomeE split: sum.split_asm)
  have "length code \<le> 4096"
    using code_slice_spec [OF assms(3), of "of_nat BLOCK_FETCH_WINDOW" "pa at"] c(1) by (auto simp: BLOCK_FETCH_WINDOW_def)
  then obtain p where p: "a = ip at + of_nat p" "p + n \<le> length code" "1 \<le> n" "n \<le> 15"
    "bs = take n (drop p code) @ replicate (15 - n) 0"
    using lift_loop_unsupported [OF assms(1,2) _ c(2)] by auto
  have "bs ! i = (if i < n then mem_byte mem (pa at + (a - ip at) + of_nat i) else 0)" if "i < 15" for i
    using that p code_slice_bytes [OF c(1) assms(3), of "p + i"] by (auto simp: nth_append algebra_simps)
  with p show ?thesis by simp
qed

text \<open>A decoder that reads an instruction no arm lifts.\<close>

definition odd_env :: lift_env where
  "odd_env = halt_env\<lparr>decode := (\<lambda>_ _ _ a. ((halt_insn a)\<lparr>mnemonic := ''Xbegin''\<rparr>, DecoderNone))\<rparr>"

lemma odd_lifts: "insn_lift odd_env Long64 ((halt_insn a)\<lparr>mnemonic := ''Xbegin''\<rparr>) s = None"
  by (simp add: odd_env_def halt_env_def halt_insn_def lift_insn_def nop_mnemonics_def binop_arms_def string_arms_def
      generic_arms_def cond_arms_def jcc_cond_def setcc_cond_def cmovcc_cond_def cond_table_def wraps_16_def Let_def)

theorem unsupported_reports_code_witness:
  "\<exists>a bs n. lift_block odd_env demo_memory (fetch_flat 0x1000) Long64 = Some (Inl (Unsupported a bs n)) \<and>
     length bs = 15 \<and> 1 \<le> n \<and> n \<le> 15 \<and>
     (\<forall>i<15. bs ! i = (if i < n then mem_byte demo_memory (pa (fetch_flat 0x1000) + (a - ip (fetch_flat 0x1000)) + of_nat i) else 0))"
proof -
  have ok: "decoder_ok odd_env" "decoder_ips odd_env"
    by (auto simp: decoder_ok_def decoder_ips_def odd_env_def halt_insn_def Suc_le_eq)
  have c: "code_slice 0x1000 (of_nat BLOCK_FETCH_WINDOW) demo_memory = Some (Inr (replicate 4096 0))"
    by (simp add: code_slice_def region_end_def BLOCK_FETCH_WINDOW_def saturating_add_def host_off_def slice_def map_replicate_const)
  have L: "lift_loop odd_env Long64 code a (Suc n) 0 acc_new = map_option Inl
      (refill_unsupported_bytes (unsupported_insn ((halt_insn a)\<lparr>mnemonic := ''Xbegin''\<rparr>)) code a)" if "code \<noteq> []" for code a n
    using that odd_lifts [of a] by (simp add: odd_env_def wraps_16_def Let_def) (simp add: halt_insn_def)
  obtain a bs n where l: "lift_block odd_env demo_memory (fetch_flat 0x1000) Long64 = Some (Inl (Unsupported a bs n))"
    using c L [of "replicate 4096 0" "0x1000" 4096]
    by (simp add: lift_block_def fetch_flat_def refill_unsupported_bytes_def unsupported_insn_def halt_insn_def Let_def
        del: lift_loop.simps)
  from unsupported_reports_code [OF ok demo_mem_inv l] l show ?thesis by blast
qed

end
