(* ===== verification/X86_Lift_Typed.thy ===== *)
theory X86_Lift_Typed
  imports X86_Typing X86_Vm_Correct
begin

text \<open>
  The lifter only makes well-typed blocks (\<^verbatim>\<open>lift/mod.rs\<close>, \<^verbatim>\<open>lift/integer.rs\<close>, \<^verbatim>\<open>lift/control.rs\<close>), so lifted code
  never panics in the interpreter.  The lemmas follow the lifting functions: each one keeps the block under construction
  well typed.
\<close>

unbundle bit_operations_syntax

section \<open>The block under construction\<close>

text \<open>The block so far is well typed for the temporaries handed out so far.\<close>

definition wt_lift :: "LiftSt \<Rightarrow> bool" where
  "wt_lift s \<longleftrightarrow> list_all (wt_op (temps s)) (lops s)"

definition grow :: "LiftSt \<Rightarrow> LiftSt" where
  "grow s = s\<lparr>temps := Suc (temps s)\<rparr>"

text \<open>
  What a lifting function returns, where it returns: a well-typed block with at least \<open>n\<close> temporaries, with an operand
  of that block (\<open>yields\<close>, \<open>gives\<close>).
\<close>

definition lifts :: "nat \<Rightarrow> LiftSt option \<Rightarrow> bool" where
  "lifts n r \<longleftrightarrow> (\<forall>s. r = Some s \<longrightarrow> wt_lift s \<and> n \<le> temps s)"

definition yields :: "nat \<Rightarrow> Val \<times> LiftSt \<Rightarrow> bool" where
  "yields n p \<longleftrightarrow> wt_lift (snd p) \<and> n \<le> temps (snd p) \<and> val_bound (fst p) \<le> temps (snd p)"

definition gives :: "nat \<Rightarrow> (Val \<times> LiftSt) option \<Rightarrow> bool" where
  "gives n r \<longleftrightarrow> (\<forall>p. r = Some p \<longrightarrow> yields n p)"

lemma wt_op_mono: "wt_op n op \<Longrightarrow> n \<le> k \<Longrightarrow> wt_op k op"
  by (cases op) auto

lemma fresh_grow [simp]: "fresh s = (temps s, grow s)"
  by (simp add: fresh_def grow_def)

lemma wt_lift_simps [simp]:
  "temps (grow s) = Suc (temps s)" "temps (push op s) = temps s"
  "wt_lift s \<Longrightarrow> wt_lift (grow s)"
  "wt_lift (push op s) \<longleftrightarrow> wt_lift s \<and> wt_op (temps s) op"
  "wt_lift lift_new"
  by (auto simp: wt_lift_def grow_def push_def lift_new_def list_all_iff intro: wt_op_mono [of "temps s" _ "Suc (temps s)"])

lemma lifts_simps [simp]:
  "lifts n (Some s) \<longleftrightarrow> wt_lift s \<and> n \<le> temps s" "lifts n None"
  by (simp_all add: lifts_def)

lemma gives_simps [simp]: "gives n (Some p) \<longleftrightarrow> yields n p" "gives n None"
  by (simp_all add: gives_def)

lemma yields_pair [simp]: "yields n (v, s) \<longleftrightarrow> wt_lift s \<and> n \<le> temps s \<and> val_bound v \<le> temps s"
  by (simp add: yields_def)

lemmas emit_defs = alu_none_def lift_read_reg_def add_addr_def lift_load_def

lemma lifts_bind:
  assumes "gives k r" and "\<And>v s. wt_lift s \<Longrightarrow> k \<le> temps s \<Longrightarrow> val_bound v \<le> temps s \<Longrightarrow> lifts n (f (v, s))"
  shows "lifts n (r \<bind> f)"
  using assms by (cases r) (auto simp: yields_def)

lemma lifts_let:
  assumes "yields k p" and "\<And>v s. wt_lift s \<Longrightarrow> k \<le> temps s \<Longrightarrow> val_bound v \<le> temps s \<Longrightarrow> lifts n (f v s)"
  shows "lifts n (case p of (v, s) \<Rightarrow> f v s)"
  using assms by (cases p) (auto simp: yields_def)

lemma gives_bind:
  assumes "gives k r" and "\<And>v s. wt_lift s \<Longrightarrow> k \<le> temps s \<Longrightarrow> val_bound v \<le> temps s \<Longrightarrow> gives n (f (v, s))"
  shows "gives n (r \<bind> f)"
  using assms by (cases r) (auto simp: yields_def)

lemma option_bind_all: "(\<And>x. r = Some x \<Longrightarrow> P (f x)) \<Longrightarrow> P None \<Longrightarrow> P (r \<bind> f)"
  by (cases r) auto

lemmas gives_pick = option_bind_all [where P = "gives n" and r = "iced_to_reg x" for n x, OF _ gives_simps(2)]
  option_bind_all [where P = "gives n" and r = "scalar_mem_size x i" for n x i, OF _ gives_simps(2)]
lemmas lifts_pick = option_bind_all [where P = "lifts n" and r = "iced_to_reg x" for n x, OF _ lifts_simps(2)]
  option_bind_all [where P = "lifts n" and r = "scalar_mem_size x i" for n x i, OF _ lifts_simps(2)]

section \<open>Addresses\<close>

lemma yields_scaled_index [simp]: "wt_lift s \<Longrightarrow> n \<le> temps s \<Longrightarrow> val_bound i \<le> temps s \<Longrightarrow> yields n (scaled_index sc i s)"
  by (auto simp: scaled_index_def Let_def)

lemma yields_add_addr [simp]:
  "wt_lift s \<Longrightarrow> n \<le> temps s \<Longrightarrow> val_bound a \<le> temps s \<Longrightarrow> val_bound b \<le> temps s \<Longrightarrow> yields n (add_addr a b s)"
  by (auto simp: emit_defs)

lemma yields_seg_base [simp]: "wt_lift s \<Longrightarrow> n \<le> temps s \<Longrightarrow> yields n (seg_base_shl4 seg s)"
  by (auto simp: seg_base_shl4_def emit_defs)

lemma yields_stack_addr [simp]:
  "wt_lift s \<Longrightarrow> n \<le> temps s \<Longrightarrow> val_bound a \<le> temps s \<Longrightarrow> yields n (stack_addr a m s)"
  by (auto simp: stack_addr_def seg_base_shl4_def emit_defs)

lemma wt_emit_sp_wrap [simp]:
  "wt_lift (emit_sp_wrap sp m s) \<longleftrightarrow> wt_lift s \<and> (sp < temps s \<or> m = Long64)" "temps (emit_sp_wrap sp m s) = temps s"
  by (auto simp: emit_sp_wrap_def split: CpuMode.split)

lemma yields_with_segment:
  "wt_lift s \<Longrightarrow> n \<le> temps s \<Longrightarrow> val_bound a \<le> temps s \<Longrightarrow> yields n (with_segment insn a s)"
  by (auto simp: with_segment_def seg_base_shl4_def emit_defs Let_def split: option.split RegName.split)

lemma gives_no_segment: "wt_lift s \<Longrightarrow> n \<le> temps s \<Longrightarrow> gives n (effective_address_no_segment insn s)"
  unfolding effective_address_no_segment_def
  by (cases "iced_to_reg (memory_base insn)"; cases "iced_to_reg (memory_index insn)";
      cases "memory_index_scale insn \<le> 1"; cases "ea_mask (memory_base insn) (memory_index insn)")
    (simp_all add: Let_def emit_defs scaled_index_def)

lemma gives_address: "wt_lift s \<Longrightarrow> n \<le> temps s \<Longrightarrow> gives n (effective_address insn s)"
  unfolding effective_address_def
  by (rule gives_bind [OF gives_no_segment]) (auto intro: yields_with_segment)

section \<open>Operands\<close>

text \<open>
  What the lifter relies on of a decoded instruction: a general-purpose register operand is 1, 2, 4 or 8 bytes wide, and
  so is the first operand of the instructions that write the accumulator at that operand's width.
\<close>

definition insn_typed :: "Instruction \<Rightarrow> bool" where
  "insn_typed insn \<longleftrightarrow>
     (\<forall>i<5. op_kind insn i = OpRegister \<and> gpr_number (op_register insn i) \<noteq> None \<longrightarrow>
        valid_size (reg_size (op_register insn i))) \<and>
     (mnemonic insn \<in> {''Mul'', ''Imul'', ''Div'', ''Idiv'', ''Cmpxchg''} \<longrightarrow> valid_size (operand_size insn 0))"

fun wt_target :: "nat \<Rightarrow> WriteTarget \<Rightarrow> bool" where
  "wt_target n (TargetReg reg sz) \<longleftrightarrow> reg_width_ok reg sz"
| "wt_target n (TargetMem a sz) \<longleftrightarrow> val_bound a \<le> n"
| "wt_target n (HighByte parent) \<longleftrightarrow> True"

lemma gives_read:
  assumes "wt_lift s" and "n \<le> temps s"
  shows "gives n (lower_read insn i s)"
proof -
  have mem: "gives n (effective_address insn s \<bind> (\<lambda>(addr, s). scalar_mem_size insn i \<bind> (\<lambda>sz. Some (lift_load addr sz s))))"
    by (rule gives_bind [OF gives_address [OF assms]]) (cases "scalar_mem_size insn i"; simp add: emit_defs)
  have reg: "gives n (iced_to_reg r \<bind> (\<lambda>reg. Some (lift_read_reg reg s)))" for r
    using assms by (cases "iced_to_reg r") (simp_all add: emit_defs)
  note reg' = reg [unfolded lift_read_reg_def fresh_grow, simplified]
  show ?thesis
    using assms
    by (cases "op_kind insn i"; cases "high_byte_parent (op_register insn i)")
      (simp_all add: lower_read_def mem reg' is_immediate_def alu_none_def lift_read_reg_def)
qed

lemma register_typed:
  assumes "insn_typed insn" "i < 5" "op_kind insn i = OpRegister" "iced_to_reg (op_register insn i) = Some reg"
  shows "valid_size (operand_size insn i)"
proof -
  have "gpr_number (op_register insn i) \<noteq> None"
    using assms(4) by (cases "gpr_number (op_register insn i)") (simp_all add: iced_to_reg_def iced_gpr_index_def split: if_splits)
  then show ?thesis using assms(1-3) unfolding insn_typed_def operand_size_def by simp
qed

definition targets :: "nat \<Rightarrow> (WriteTarget \<times> LiftSt) option \<Rightarrow> bool" where
  "targets n r \<longleftrightarrow> (\<forall>t s. r = Some (t, s) \<longrightarrow> wt_lift s \<and> n \<le> temps s \<and> wt_target (temps s) t)"

lemma targets_simps [simp]:
  "targets n (Some (t, s)) \<longleftrightarrow> wt_lift s \<and> n \<le> temps s \<and> wt_target (temps s) t" "targets n None"
  by (simp_all add: targets_def)

lemmas targets_pick = option_bind_all [where P = "targets n" and r = "iced_to_reg x" for n x, OF _ targets_simps(2)]
  option_bind_all [where P = "targets n" and r = "scalar_mem_size x i" for n x i, OF _ targets_simps(2)]

lemma targets_bind:
  assumes "gives k r" and "\<And>v s. wt_lift s \<Longrightarrow> k \<le> temps s \<Longrightarrow> val_bound v \<le> temps s \<Longrightarrow> targets n (f (v, s))"
  shows "targets n (r \<bind> f)"
  using assms by (cases r) (auto simp: yields_def)

lemma targets_write_target:
  assumes "insn_typed insn" and "i < 5" and "wt_lift s" and "n \<le> temps s"
  shows "targets n (lower_write_target insn i s)"
proof -
  have mem: "targets n (effective_address insn s \<bind> (\<lambda>(addr, s). scalar_mem_size insn i \<bind> (\<lambda>sz. Some (TargetMem addr sz, s))))"
    by (rule targets_bind [OF gives_address [OF assms(3,4)]]) (cases "scalar_mem_size insn i"; simp)
  have reg: "targets n (iced_to_reg (op_register insn i) \<bind> (\<lambda>reg. Some (TargetReg reg (operand_size insn i), s)))"
    if "op_kind insn i = OpRegister"
    using assms register_typed [OF assms(1,2) that]
    by (cases "iced_to_reg (op_register insn i)") (simp_all add: reg_width_ok_def)
  show ?thesis
    using assms reg
    by (cases "op_kind insn i"; cases "high_byte_parent (op_register insn i)")
      (simp_all add: lower_write_target_def mem)
qed

lemma wt_target_mono: "wt_target n t \<Longrightarrow> n \<le> k \<Longrightarrow> wt_target k t"
  by (cases t) auto

lemma lifts_bind_target:
  assumes "targets k r" and "\<And>t s. wt_lift s \<Longrightarrow> k \<le> temps s \<Longrightarrow> \<forall>j\<ge>temps s. wt_target j t \<Longrightarrow> lifts n (f (t, s))"
  shows "lifts n (r \<bind> f)"
proof (cases r)
  case (Some p)
  obtain t s where p: "p = (t, s)" by (cases p)
  have "\<forall>j\<ge>temps s. wt_target j t" using assms(1) by (auto simp: Some p intro: wt_target_mono [of "temps s"])
  then show ?thesis using assms by (simp add: Some p)
qed simp

lemma wt_emit_write [simp]:
  "temps s \<le> temps (emit_write t v s)"
  "wt_lift s \<Longrightarrow> wt_target (temps s) t \<Longrightarrow> val_bound v \<le> temps s \<Longrightarrow> wt_lift (emit_write t v s)"
  by (cases t; simp add: emit_write_def emit_defs reg_width_ok_def valid_size_def)+

lemma lifts_write_operand:
  "insn_typed insn \<Longrightarrow> i < 5 \<Longrightarrow> wt_lift s \<Longrightarrow> n \<le> temps s \<Longrightarrow> val_bound v \<le> temps s \<Longrightarrow> lifts n (write_operand insn i v s)"
  unfolding write_operand_def
  by (rule lifts_bind_target [OF targets_write_target [of insn i s "temps s"]])
    (auto intro: order_trans [OF _ wt_emit_write(1)])

lemma gives_branch_target: "wt_lift s \<Longrightarrow> n \<le> temps s \<Longrightarrow> gives n (branch_target insn m s)"
  unfolding branch_target_def
  by (auto simp: Let_def intro!: gives_bind [OF gives_read [of s n]] gives_read)

section \<open>Integer instructions\<close>

lemma lifts_seq:
  assumes "lifts k r" and "\<And>s. wt_lift s \<Longrightarrow> k \<le> temps s \<Longrightarrow> lifts n (f s)"
  shows "lifts n (r \<bind> f)"
  using assms by (cases r) auto

lemmas lifts_rules = lifts_bind [OF gives_read [OF _ order_refl]] lifts_bind [OF gives_address [OF _ order_refl]]
  lifts_bind [OF gives_no_segment [OF _ order_refl]] lifts_bind [OF gives_branch_target [OF _ order_refl]]
  lifts_let [OF yields_stack_addr [OF _ order_refl]]
  lifts_let [OF yields_seg_base [OF _ order_refl]]
  lifts_bind_target [OF targets_write_target [OF _ _ _ order_refl]]
  lifts_seq [OF lifts_write_operand [OF _ _ _ order_refl]] lifts_write_operand

lemma wt_mk_binop [simp]: "wt_op n (mk_binop op d a b sz fm) \<longleftrightarrow> wt2 n d a b"
  by (cases op) simp_all

lemma emit_write_le [simp]: "n \<le> temps s \<Longrightarrow> n \<le> temps (emit_write t v s)"
  using wt_emit_write(1) [of s t v] by linarith

lemma valid_sizes [simp]: "valid_size (Suc 0)" "valid_size 1" "valid_size 2" "valid_size 4" "valid_size 8"
  "valid_size (stack_slot m)" "valid_size (sp_write_size m)"
  by (simp_all add: valid_size_def sp_write_size_def stack_slot_def split: CpuMode.split)

lemma reg_width_valid [simp]: "valid_size sz \<Longrightarrow> reg_width_ok r sz"
  by (simp add: reg_width_ok_def)

lemma lifts_binop: "lifts n (lift_binop op fm wb insn s)" if "insn_typed insn" "wt_lift s" "n \<le> temps s"
  using that unfolding lift_binop_def
  by (auto simp: Let_def emit_defs intro!: lifts_rules option_bind_all [where P = "lifts n" and r = "rmw_of_binop op"])

lemma lifts_unary: "lifts n (lift_unary_op0 ro src rf emit insn s)"
  if "insn_typed insn" "wt_lift s" "n \<le> temps s" "val_bound src = 0"
    "\<And>k d a sz. wt_op k (emit d a sz) \<longleftrightarrow> d < k \<and> val_bound a \<le> k"
  using that unfolding lift_unary_op0_def
  by (auto simp: Let_def emit_defs intro!: lifts_rules)

lemma lifts_unaries:
  assumes "insn_typed insn" "wt_lift s" "n \<le> temps s"
  shows "lifts n (lift_incdec op insn s)" "lifts n (lift_neg insn s)" "lifts n (lift_not insn s)"
  using assms unfolding lift_incdec_def lift_neg_def lift_not_def
  by (auto intro!: lifts_unary)

lemma lifts_double_shift: "lifts n (lift_double_shift left insn s)" if "insn_typed insn" "wt_lift s" "n \<le> temps s"
  using that unfolding lift_double_shift_def
  by (auto simp: Let_def emit_defs intro!: lifts_rules)

lemma lifts_mul_div:
  assumes "insn_typed insn" "wt_lift s" "n \<le> temps s" "valid_size (operand_size insn 0)"
  shows "lifts n (lift_widening_mul sg insn s)" "lifts n (lift_imul insn s)" "lifts n (lift_div sg insn s)"
    "lifts n (lift_cmpxchg insn s)"
  using assms unfolding lift_imul_def lift_widening_mul_def lift_div_def lift_cmpxchg_def
  by (auto simp: Let_def emit_defs intro!: lifts_rules)

lemma lifts_exchange:
  assumes "insn_typed insn" "wt_lift s" "n \<le> temps s"
  shows "lifts n (lift_xadd insn s)" "lifts n (lift_xchg insn s)"
  using assms unfolding lift_xadd_def lift_xchg_def
  by (auto simp: Let_def emit_defs intro!: lifts_rules)

lemma wt_emit_mem_bt:
  shows "wt_lift s \<Longrightarrow> val_bound ea \<le> temps s \<Longrightarrow> val_bound bt \<le> temps s \<Longrightarrow>
      wt_lift (emit_mem_bt ea esz bt op locked s)"
    "n \<le> temps s \<Longrightarrow> n \<le> temps (emit_mem_bt ea esz bt op locked s)"
  by (cases op; simp add: emit_mem_bt_def emit_defs Let_def)+

lemma lifts_bits:
  assumes "insn_typed insn" "wt_lift s" "n \<le> temps s"
  shows "lifts n (lift_bitscan sop insn s)" "lifts n (lift_bt bop insn s)" "lifts n (lift_bswap insn s)"
    "lifts n (lift_bmi mop insn s)" "lifts n (lift_mulx insn s)"
  using assms unfolding lift_bitscan_def lift_bt_def lift_bswap_def lift_bmi_def lift_mulx_def
  by (auto simp: Let_def emit_defs intro!: lifts_rules wt_emit_mem_bt)

lemma lifts_bmi_shift: "lifts n (lift_bmi_shift mk insn s)"
  if "insn_typed insn" "wt_lift s" "n \<le> temps s" "\<And>k d a b sz fm. wt_op k (mk d a b sz fm) \<longleftrightarrow> wt2 k d a b"
  using that unfolding lift_bmi_shift_def
  by (auto simp: Let_def emit_defs intro!: lifts_rules)

lemma lifts_moves:
  assumes "insn_typed insn" "wt_lift s" "n \<le> temps s"
  shows "lifts n (lift_movbe insn s)" "lifts n (lift_movzx insn s)" "lifts n (lift_movsx insn s)"
    "lifts n (lift_setcc cond insn s)" "lifts n (lift_cmovcc cond insn s)"
  using assms unfolding lift_movbe_def lift_movzx_def lift_movsx_def lift_setcc_def lift_cmovcc_def
  by (auto simp: Let_def emit_defs intro!: lifts_rules)

lemma lifts_widen:
  assumes "wt_lift s" "n \<le> temps s" "valid_size sz"
  shows "lifts n (Some (lift_cbw_family from sz s))" "lifts n (Some (lift_sign_into_dx sz s))"
  using assms by (simp_all add: lift_cbw_family_def lift_sign_into_dx_def emit_defs Let_def)

section \<open>Stack, string and control instructions\<close>

lemma lifts_port_io: "lifts n (lift_port_io out insn s)" if "wt_lift s" "n \<le> temps s"
  using that unfolding lift_port_io_def
  by (cases out; cases "op_kind insn 0"; cases "op_kind insn 1") (simp_all add: Let_def emit_defs)

lemma lifts_push: "lifts n (lift_push m insn s)" if "wt_lift s" "n \<le> temps s"
proof (cases "sreg_operand insn 0")
  case None
  then show ?thesis
    using that by (auto simp: lift_push_def Let_def lift_read_reg_def intro!: lifts_rules)
next
  case (Some seg)
  then show ?thesis
    using that by (auto simp: lift_push_def Let_def lift_read_reg_def intro!: lifts_rules)
qed

lemma lifts_pop_tail:
  assumes "wt_lift s" "n \<le> temps s" "wt_target (temps s) t" "val_bound v \<le> temps s" "wt_op (temps s) (WriteReg r x w)"
  shows "lifts n (case t of TargetMem _ _ \<Rightarrow> Some (push (WriteReg r x w) (emit_write t v s))
    | _ \<Rightarrow> Some (emit_write t v (push (WriteReg r x w) s)))"
proof -
  have "val_bound x \<le> temps (emit_write t v s)" using assms(5) by simp
  then show ?thesis using assms by (cases t) (simp_all del: wt_target.simps)
qed

lemma lifts_pop: "lifts n (lift_pop m insn s)" if "insn_typed insn" "wt_lift s" "n \<le> temps s"
proof (cases "sreg_operand insn 0")
  case None
  then show ?thesis
    using that
    by (cases "wraps_16 m") (auto simp: lift_pop_def Let_def emit_defs intro!: lifts_rules lifts_pop_tail)
next
  case (Some seg)
  then show ?thesis
    using that by (auto simp: lift_pop_def Let_def emit_defs intro!: lifts_rules)
qed

lemma lifts_stack16:
  assumes "wt_lift s" "n \<le> temps s"
  shows "lifts n (Some (lift_leave m insn s))" "lifts n (Some (lift_leave_real16 s))"
    "lifts n (lift_call_real16 insn s)" "lifts n (lift_ret_real16 insn s)" "lifts n (Some (lift_retf_real16 insn s))"
    "lifts n (Some (lift_loop_real16 kind insn s))"
  using assms
  by (auto simp: lift_leave_def lift_leave_real16_def lift_call_real16_def lift_ret_real16_def lift_retf_real16_def
      lift_loop_real16_def stack_addr_def seg_base_shl4_def wraps_16_def emit_defs Let_def intro!: lifts_rules)

lemma lifts_far:
  assumes "wt_lift s" "n \<le> temps s"
  shows "lifts n (lift_far_jmp_real16 insn s)" "lifts n (lift_far_call_real16 insn s)"
  using assms
  by (cases "op_kind insn 0"; auto simp: lift_far_jmp_real16_def lift_far_call_real16_def far_target_def emit_defs Let_def
      intro!: lifts_rules)+

lemma lifts_string: "lifts n (Some (lift_string op elem m insn s))" if "wt_lift s" "n \<le> temps s" "valid_size elem"
  using that
  by (auto simp: lift_string_def seg_base_shl4_def emit_defs Let_def split: RegName.split)

lemma lifts_misc16:
  assumes "insn_typed insn" "wt_lift s" "n \<le> temps s"
  shows "lifts n (Some (lift_xlat_real16 insn s))" "lifts n (lift_bound_real16 insn s)"
    "lifts n (lift_load_far_ptr_real16 seg insn s)" "lifts n (Some (lift_salc s))" "lifts n (Some (lift_rdtsc s))"
  using assms
  by (auto simp: lift_xlat_real16_def lift_bound_real16_def lift_load_far_ptr_real16_def lift_salc_def lift_rdtsc_def
      seg_base_shl4_def emit_defs Let_def intro!: lifts_rules lifts_pick)

lemma lifts_simple:
  assumes "insn_typed insn" "wt_lift s" "n \<le> temps s"
  shows "lifts n (lift_mov insn s)" "lifts n (lift_lea insn s)" "lifts n (lift_popcnt insn s)" "lifts n (lift_crc32 insn s)"
    "lifts n (lift_stmxcsr insn s)" "lifts n (lift_jmp m insn s)"
  using assms
  by (auto simp: lift_mov_def lift_lea_def lift_popcnt_def lift_crc32_def lift_stmxcsr_def lift_jmp_def Let_def
      intro!: lifts_rules)

lemma lifts_call_ret:
  assumes "wt_lift s" "n \<le> temps s"
  shows "lifts n (lift_call m insn s)" "lifts n (lift_ret m insn s)"
  using assms
  by (cases "call_ret_slot insn m"; auto simp: lift_call_def lift_ret_def intro!: lifts_rules)+

section \<open>The dispatch\<close>

definition ends :: "nat \<Rightarrow> lift_result \<Rightarrow> bool" where
  "ends n r \<longleftrightarrow> (\<forall>b s. r = Some (b, s) \<longrightarrow> wt_lift s \<and> n \<le> temps s)"

lemma ends_simps [simp]:
  "ends n (fall r) \<longleftrightarrow> lifts n r" "ends n (stop r) \<longleftrightarrow> lifts n r"
  "ends n (Some (b, s)) \<longleftrightarrow> wt_lift s \<and> n \<le> temps s" "ends n None"
  by (auto simp: ends_def lifts_def fall_def stop_def)

lemma ends_bind:
  assumes "gives k r" and "\<And>v s. wt_lift s \<Longrightarrow> k \<le> temps s \<Longrightarrow> val_bound v \<le> temps s \<Longrightarrow> ends n (f (v, s))"
  shows "ends n (r \<bind> f)"
  using assms by (cases r) (auto simp: yields_def)

lemma ends_seq:
  assumes "lifts k r" and "\<And>s. wt_lift s \<Longrightarrow> k \<le> temps s \<Longrightarrow> ends n (f s)"
  shows "ends n (r \<bind> f)"
  using assms by (cases r) auto

lemma ends_mov_sreg: "ends n (lift_mov_sreg_real16 insn s)" if "insn_typed insn" "wt_lift s" "n \<le> temps s"
  using that
  by (cases "sreg_operand insn 0"; cases "sreg_operand insn 1")
    (auto simp: lift_mov_sreg_real16_def lift_read_reg_def
      intro!: ends_bind [OF gives_read [OF _ order_refl]] ends_seq [OF lifts_write_operand [OF _ _ _ order_refl]])

lemma ends_arm:
  assumes "list_all (\<lambda>(k, r). k = mn \<longrightarrow> ends n r) arms" and "map_of arms mn = Some r"
  shows "ends n r"
  using map_of_SomeD [OF assms(2)] assms(1) by (auto simp: list_all_iff)

lemma insn_typed_size: "insn_typed insn \<Longrightarrow> mnemonic insn \<in> {''Mul'', ''Imul'', ''Div'', ''Idiv'', ''Cmpxchg''} \<Longrightarrow>
    valid_size (operand_size insn 0)"
  unfolding insn_typed_def by blast

lemmas lifts_arms = lifts_binop lifts_unaries lifts_double_shift lifts_exchange lifts_bits lifts_bmi_shift lifts_moves
  lifts_port_io lifts_push lifts_pop lifts_stack16 lifts_far lifts_misc16 lifts_simple lifts_call_ret

lemma ends_real16_arms: "list_all (\<lambda>(k, r). k = mn \<longrightarrow> ends n r) (real16_arms insn s)"
  if "insn_typed insn" "wt_lift s" "n \<le> temps s"
  using that by (simp add: real16_arms_def Let_def lifts_arms del: lifts_simps) simp

lemma ends_generic_arms: "list_all (\<lambda>(k, r). k = mnemonic insn \<longrightarrow> ends n r) (generic_arms m insn s)"
  if "insn_typed insn" "wt_lift s" "n \<le> temps s"
  using that insn_typed_size [OF that(1)]
  by (simp add: generic_arms_def Let_def lifts_arms lifts_mul_div lifts_widen lift_int_def del: lifts_simps) simp

text \<open>The vector and x87 arms only append operations on temporaries they were given or made.\<close>

definition vector_typed :: "(Instruction \<Rightarrow> LiftSt \<Rightarrow> lift_result) \<Rightarrow> bool" where
  "vector_typed lv \<longleftrightarrow> (\<forall>insn s. wt_lift s \<longrightarrow> ends (temps s) (lv insn s))"

lemma string_arms_sizes: "map_of string_arms mn = Some (op, elem) \<Longrightarrow> valid_size elem"
  by (drule map_of_SomeD) (auto simp: string_arms_def valid_size_def)

lemma ends_option:
  assumes "\<And>x. q = Some x \<Longrightarrow> ends n (f x)" and "ends n r"
  shows "ends n (case q of Some x \<Rightarrow> f x | None \<Rightarrow> r)"
  using assms by (cases q) auto

lemma ends_if: "(c \<Longrightarrow> ends n x) \<Longrightarrow> ends n y \<Longrightarrow> ends n (if c then x else y)"
  by simp

lemma lift_insn_typed:
  assumes "insn_typed insn" "wt_lift s" "vector_typed lv"
  shows "ends (temps s) (lift_insn lv m insn s)"
proof -
  note o = order_refl [of "temps s"]
  have conds: "ends (temps s) r" if "cond_arms m insn s = Some r" for r
    using that assms(1,2) lifts_moves(4,5) [OF assms(1,2) o]
    by (auto simp: cond_arms_def split: option.splits)
  have real: "ends (temps s) r" if "(if wraps_16 m then map_of (real16_arms insn s) (mnemonic insn) else None) = Some r" for r
    using that ends_arm [OF ends_real16_arms [OF assms(1,2) o]] by (simp split: if_splits)
  have lv: "ends (temps s) (lv insn s)" using assms(2,3) by (simp add: vector_typed_def)
  have str: "ends (temps s) (fall (Some (lift_string op elem m insn s)))" if "valid_size elem" for op elem
    using lifts_string [OF assms(2) o that] by (simp only: ends_simps)
  have bin: "ends (temps s) (fall (lift_binop op fm wb insn s))" for op fm wb
    using lifts_binop [OF assms(1,2) o] by (simp only: ends_simps)
  have same: "ends (temps s) (fall (Some s))" using assms(2) by simp
  have far: "ends (temps s) (stop (lift_far_jmp_real16 insn s))" "ends (temps s) (stop (lift_far_call_real16 insn s))"
    using lifts_far [OF assms(2) o] by (simp_all only: ends_simps)
  show ?thesis
    unfolding lift_insn_def Let_def
    by (intro ends_if ends_option ends_mov_sreg [OF assms(1,2) o] lv same far str [OF valid_sizes(4)])
      (auto simp only: split: prod.split intro: real conds str bin
         ends_arm [OF ends_generic_arms [OF assms(1,2) o]] dest: string_arms_sizes)
qed

section \<open>Blocks\<close>

lemma wt_op_with_flags [simp]: "wt_op n (with_flags fm op) \<longleftrightarrow> wt_op n op"
  by (cases op) (simp_all add: with_flags_def)

lemma wt_elide_walk: "list_all (wt_op n) (fst (elide_walk os)) \<longleftrightarrow> list_all (wt_op n) os"
  by (induction os) (auto simp: elide_op_def Let_def split: prod.split option.split)

lemma wt_elide: "list_all (wt_op n) (elide_dead_flags d os) \<longleftrightarrow> list_all (wt_op n) os"
  by (simp add: elide_dead_flags_def wt_elide_walk)

text \<open>Every valid instruction of the decoder has operands of a proper width.\<close>

definition decoder_typed :: "lift_env \<Rightarrow> bool" where
  "decoder_typed E \<longleftrightarrow> (\<forall>bits opts bs a. bs \<noteq> [] \<longrightarrow>
     is_invalid (fst (decode E bits opts bs a)) \<or> insn_typed (fst (decode E bits opts bs a)))"

lemma wt_real16_fault [simp]: "wt_lift (push_real16_fault insn m v s) \<longleftrightarrow> wt_lift s"
  by (simp add: push_real16_fault_def)

lemma acc_st_count [simp]: "acc_st (count_insn insn a) = acc_st a"
  by (simp add: count_insn_def)

lemma decoder_typedD:
  assumes "decoder_typed E" "bs \<noteq> []" "decode E b opts bs a = (insn, err)" "\<not> is_invalid insn"
  shows "insn_typed insn"
  using assms unfolding decoder_typed_def by (metis fst_conv)

lemma lift_loop_typed:
  assumes "decoder_typed E" "insn_lift E = lift_insn lv" "vector_typed lv"
  shows "lift_loop E m code start n pos a = Some (Inr a') \<Longrightarrow> wt_lift (acc_st a) \<Longrightarrow> wt_lift (acc_st a')"
proof (induction n arbitrary: pos a)
  case (Suc n)
  obtain insn err where d: "decode E (mode_bits m) (decoder_options m) (drop pos code) (start + of_nat pos) = (insn, err)"
    by fastforce
  let ?s = "push (InsnStart (insn_ip insn)) (acc_st a)"
  show ?case
  proof (cases "pos < length code")
    case True
    then have ne: "drop pos code \<noteq> []" by simp
    have "ends (temps ?s) (lift_insn lv m insn ?s)" if "\<not> is_invalid insn"
      using lift_insn_typed [OF decoder_typedD [OF assms(1) ne d that] _ assms(3), of ?s m] Suc.prems(2) by simp
    then show ?thesis
      using Suc.prems True d Suc.IH [of "pos + insn_len insn"]
      by (auto simp: Let_def assms(2) emit_real16_ud_if_invalid_def ends_def split: option.splits prod.splits if_splits)
  next
    case False
    then show ?thesis using Suc.prems by simp
  qed
qed simp

lemma lift_block_typed:
  assumes "decoder_typed E" "insn_lift E = lift_insn lv" "vector_typed lv" "lift_block E mem at m = Some (Inr ir)"
  shows "wt_block ir"
proof -
  obtain code a where "lift_loop E m code (ip at) (length code + 1) 0 acc_new = Some (Inr a)" "ir = finish_block E (ip at) a"
    using assms(4) unfolding lift_block_def
    by (auto elim!: bind_SomeE split: sum.split_asm simp del: lift_loop.simps)
  then show ?thesis
    using lift_loop_typed [OF assms(1-3)] by (fastforce simp: wt_block_def finish_block_def wt_elide wt_lift_def acc_new_def lift_new_def)
qed

lemma lift_one_typed:
  assumes "decoder_typed E" "insn_lift E = lift_insn lv" "vector_typed lv" "lift_one E mem at m = Some (Inr ir)"
  shows "wt_block ir"
proof -
  have one: "wt_block (one_block E a insn s)" if "wt_lift s" for a insn s
    using that by (simp add: wt_block_def one_block_def wt_elide wt_lift_def)
  obtain code where c: "code_slice (pa at) (of_nat BLOCK_FETCH_WINDOW) mem = Some (Inr code)" "code \<noteq> []"
    using assms(4) unfolding lift_one_def by (auto elim!: bind_SomeE split: sum.split_asm if_split_asm)
  obtain insn err where d: "decode E (mode_bits m) (decoder_options m) code (ip at) = (insn, err)" by fastforce
  let ?s = "push (InsnStart (insn_ip insn)) lift_new"
  have "ends (temps ?s) (lift_insn lv m insn ?s)" if "\<not> is_invalid insn"
    using lift_insn_typed [OF decoder_typedD [OF assms(1) c(2) d that] _ assms(3), of ?s m] by simp
  then show ?thesis
    using assms(4) c d
    by (auto simp: lift_one_def assms(2) emit_real16_ud_if_invalid_def ends_def intro!: one split: option.splits prod.splits if_splits)
qed

lemma lift_one_total:
  assumes "decoder_ok E" "mem_inv mem"
  shows "lift_one E mem at m \<noteq> None"
proof -
  have w: "unat (of_nat BLOCK_FETCH_WINDOW :: u64) = 4096" by (simp add: BLOCK_FETCH_WINDOW_def)
  consider "code_slice (pa at) (of_nat BLOCK_FETCH_WINDOW) mem = Some (Inl Unmapped)"
    | code where "code_slice (pa at) (of_nat BLOCK_FETCH_WINDOW) mem = Some (Inr code)"
    using code_slice_spec [OF assms(2), of "of_nat BLOCK_FETCH_WINDOW" "pa at"] w by auto
  then show ?thesis
  proof cases
    case (2 code)
    obtain insn err where d: "decode E (mode_bits m) (decoder_options m) code (ip at) = (insn, err)" by fastforce
    have "\<exists>e. refill_unsupported_bytes (unsupported_insn insn) code (ip at) = Some e" if "code \<noteq> []"
      using decoder_step(2) [OF assms(1), of 0 code _ _ "ip at"] d that by (auto intro: refill_total)
    then show ?thesis using 2 d by (auto simp: lift_one_def split: option.split)
  qed (simp add: lift_one_def)
qed

lemma step_one_total:
  assumes "decoder_ok E" "decoder_typed E" "insn_lift E = lift_insn lv" "vector_typed lv" "mem_inv mem"
  shows "\<exists>c' mem' info r. step_one E m c mem = Some (c', mem', info, r)"
proof -
  obtain r where r: "lift_one E mem (fetch_for_mode m (rip c) (cs_sel c)) m = Some r"
    using lift_one_total [OF assms(1,5)] by blast
  show ?thesis
  proof (cases r)
    case (Inr ir)
    then have "wt_block ir" using lift_one_typed [OF assms(2-4)] r by blast
    from interpret_block_ok [OF this, of c mem] show ?thesis using r Inr by (auto simp: step_one_def)
  next
    case (Inl e)
    then show ?thesis using r by (cases e) (simp_all add: step_one_def)
  qed
qed

section \<open>Lifted code does not panic\<close>

text \<open>
  Property C3: every block the lifter makes is well typed, and interpreting it from any registers and any memory returns.
\<close>
theorem lifted_blocks_run:
  assumes "decoder_typed E" "insn_lift E = lift_insn lv" "vector_typed lv" "lift_block E mem at m = Some (Inr ir)"
  shows "wt_block ir \<and> (\<exists>r. interpret_block ir c mem' = Some r)"
  using lift_block_typed [OF assms] interpret_block_ok by blast

text \<open>
  Property C33: a single step of the interpreter always returns: fetching, decoding, lifting and interpreting the
  instruction at the program counter gives a result or an exit, never a panic.
\<close>
theorem step_one_returns:
  assumes "decoder_ok E" "decoder_typed E" "insn_lift E = lift_insn lv" "vector_typed lv" "mem_inv mem"
  shows "\<exists>c' mem' info r. step_one E m c mem = Some (c', mem', info, r)"
  using assms by (rule step_one_total)

text \<open>A program of two instructions at address \<open>0x1000\<close>: \<^verbatim>\<open>div ecx\<close> and \<^verbatim>\<open>hlt\<close>.\<close>

definition div_insn :: Instruction where
  "div_insn = (halt_insn 0x1000)\<lparr>mnemonic := ''Div'', insn_len := 2, op_count := 1, op_kind := (\<lambda>_. OpRegister),
     op_register := (\<lambda>_. \<lparr>reg_name = OtherReg, reg_size = 4, gpr_number = Some 1, is_xmm = False\<rparr>)\<rparr>"

definition div_env :: lift_env where
  "div_env = halt_env\<lparr>decode := (\<lambda>_ _ bs a. if a = 0x1000 \<and> 2 \<le> length bs then (div_insn, DecoderNone) else (halt_insn a, DecoderNone))\<rparr>"

lemma div_env_ok: "decoder_ok div_env" "decoder_typed div_env" "insn_lift div_env = lift_insn (\<lambda>_ _. None)"
  "vector_typed (\<lambda>_ _. None)"
  by (auto simp: decoder_ok_def decoder_typed_def vector_typed_def insn_typed_def div_env_def div_insn_def halt_env_def
      halt_insn_def operand_size_def Suc_le_eq)

lemma div_lifts: "\<exists>s'. insn_lift div_env m div_insn s = Some (False, s')"
  by (simp add: div_env_def halt_env_def div_insn_def halt_insn_def lift_insn_def nop_mnemonics_def binop_arms_def
      string_arms_def generic_arms_def real16_arms_def fall_def lift_div_def lower_read_def high_byte_parent_def operand_size_def
      iced_to_reg_def iced_gpr_index_def from_gpr_index_def GPR_BY_INDEX_def idx_def emit_defs Let_def)

lemma div_block_lifts: "\<exists>ir. lift_block div_env demo_memory (fetch_flat 0x1000) Long64 = Some (Inr ir)"
proof -
  have c: "code_slice 0x1000 (of_nat BLOCK_FETCH_WINDOW) demo_memory = Some (Inr (replicate 4096 0))"
    by (simp add: code_slice_def region_end_def BLOCK_FETCH_WINDOW_def saturating_add_def host_off_def slice_def map_replicate_const)
  obtain s' where s': "insn_lift div_env Long64 div_insn (push (InsnStart (insn_ip div_insn)) lift_new) = Some (False, s')"
    using div_lifts by blast
  have h: "insn_lift div_env Long64 (halt_insn a) s = Some (True, push Hlt s)" for a s
    using halt_lifts [of Long64 a s] by (simp add: div_env_def)
  have d: "decode div_env b opts bs a = (if a = 0x1000 \<and> 2 \<le> length bs then (div_insn, DecoderNone) else (halt_insn a, DecoderNone))"
    for b opts bs a by (simp add: div_env_def)
  have i: "\<not> is_invalid div_insn" "insn_len div_insn = 2" "\<not> is_invalid (halt_insn a)" for a
    by (simp_all add: div_insn_def halt_insn_def)
  have "\<exists>a. lift_loop div_env Long64 code 0x1000 (Suc (Suc n)) 0 acc_new = Some (Inr a)" if "2 < length code" for code n
    using that s' h i d by (simp add: wraps_16_def acc_new_def count_insn_def Let_def)
  from this [of "replicate 4096 0" 4095] c show ?thesis
    by (auto simp: lift_block_def fetch_flat_def)
qed

theorem lifted_blocks_run_witness:
  "\<exists>ir. lift_block div_env demo_memory (fetch_flat 0x1000) Long64 = Some (Inr ir) \<and> wt_block ir \<and>
     (\<exists>r. interpret_block ir cpu_default demo_memory = Some r)"
proof -
  obtain ir where ir: "lift_block div_env demo_memory (fetch_flat 0x1000) Long64 = Some (Inr ir)"
    using div_block_lifts by blast
  with lifted_blocks_run [OF div_env_ok(2-4) ir, of cpu_default demo_memory] show ?thesis by blast
qed

theorem step_one_returns_witness:
  "\<exists>c' mem' info r. step_one div_env Long64 (cpu_default\<lparr>rip := 0x1000\<rparr>) demo_memory = Some (c', mem', info, r)"
  by (rule step_one_returns [OF div_env_ok demo_mem_inv])

end
