(* ===== verification/X86_Run_Safe.thy ===== *)
theory X86_Run_Safe
  imports X86_Lift_Typed
begin

text \<open>
  Runs neither panic nor hang.  The interpreter keeps whatever the memory accessors keep (the locale \<open>access_closed\<close>, interpreted by
  the memory invariant); resolution returns on every well-formed machine, whatever other virtual CPUs do in between (the
  locale \<open>backend_safe\<close>); every round of the dispatcher returns and keeps the machine well formed, so that a run with a block budget
  ends in an exit.
\<close>

unbundle bit_operations_syntax

section \<open>What the interpreter does to memory\<close>

text \<open>
  The interpreter changes guest memory through four accessors only.  Whatever they keep, a block, a single step and
  the delivery of an interrupt keep.
\<close>

locale access_closed =
  fixes P :: "Memory \<Rightarrow> bool"
  assumes closed_read: "\<And>a n m. P m \<Longrightarrow> P (fst (mem_read a n m))"
    and closed_write: "\<And>a v n m. P m \<Longrightarrow> P (fst (mem_write a v n m))"
    and closed_rmw: "\<And>a v n op m. P m \<Longrightarrow> P (fst (atomic_rmw a v n op m))"
    and closed_cas: "\<And>a e v n m. P m \<Longrightarrow> P (fst (atomic_cas a e v n m))"

text \<open>An operation body that returns leaves a memory that satisfies \<open>P\<close>.\<close>

definition stays :: "(Memory \<Rightarrow> bool) \<Rightarrow> exec_result \<Rightarrow> bool" where
  "stays P r \<longleftrightarrow> (\<forall>st x. r = Some (st, x) \<longrightarrow> P (imem st))"

lemma stays_simps [simp]:
  "stays P None" "stays P (Some (st, x)) \<longleftrightarrow> P (imem st)" "stays P (next_op st) \<longleftrightarrow> P (imem st)"
  "stays P (stop_op y st) \<longleftrightarrow> P (imem st)" "stays P (trap_op cur t a sz k v st) \<longleftrightarrow> P (imem st)"
  "imem (upd_flags f st) = imem st"
  by (auto simp: stays_def next_op_def stop_op_def trap_op_def trap_out_def upd_flags_def)

lemma stays_bind: "(\<And>y. m = Some y \<Longrightarrow> stays P (f y)) \<Longrightarrow> stays P (m \<bind> f)"
  by (cases m) simp_all

lemma set_temp_mem: "set_temp t v st = Some st' \<Longrightarrow> imem st' = imem st"
  by (auto simp: set_temp_def)

lemma stays_finish: "P (imem st) \<Longrightarrow> stays P (alu_finish d fm r st)" "P (imem st) \<Longrightarrow> stays P (shift_finish d fm c r' f st)"
  by (auto simp: alu_finish_def shift_finish_def dest: set_temp_mem intro!: stays_bind)

context access_closed
begin

lemma accesses:
  "mem_read a n m = (m', r) \<Longrightarrow> P m \<Longrightarrow> P m'"
  "mem_write a v n m = (m', u) \<Longrightarrow> P m \<Longrightarrow> P m'"
  "atomic_rmw a v n op m = (m', r) \<Longrightarrow> P m \<Longrightarrow> P m'"
  "atomic_cas a e v n m = (m', r) \<Longrightarrow> P m \<Longrightarrow> P m'"
  by (metis closed_read closed_write closed_rmw closed_cas fst_conv)+

lemma push16_closed: "push16 cur w s = (s', r) \<Longrightarrow> P (snd s) \<Longrightarrow> P (snd s')"
  by (auto simp: push16_def trap_out_def Let_def split: prod.splits sum.splits dest: accesses)

lemma pop16_closed: "pop16 cur s = (s', r) \<Longrightarrow> P (snd s) \<Longrightarrow> P (snd s')"
  by (auto simp: pop16_def trap_out_def Let_def split: prod.splits sum.splits dest: accesses)

lemma push_words_closed: "push_words cur ws s = (s', r) \<Longrightarrow> P (snd s) \<Longrightarrow> P (snd s')"
proof (induction ws arbitrary: s)
  case (Cons w ws)
  obtain s1 x where p: "push16 cur w s = (s1, x)" by fastforce
  with Cons push16_closed [OF p] show ?case by (cases x) simp_all
qed simp

lemma pop_words_closed: "pop_words cur k s = (s', r) \<Longrightarrow> P (snd s) \<Longrightarrow> P (snd s')"
proof (induction k arbitrary: s s' r)
  case (Suc k)
  obtain s1 x where p: "pop16 cur s = (s1, x)" by fastforce
  obtain s2 y where q: "pop_words cur k s1 = (s2, y)" by fastforce
  note P1 = pop16_closed [OF p Suc.prems(2)]
  show ?case using Suc.prems(1) p q P1 Suc.IH [OF q P1] by (cases x; cases y) auto
qed simp

lemma pop_slots_closed: "pop_slots cur slots s = (s', r) \<Longrightarrow> P (snd s) \<Longrightarrow> P (snd s')"
proof (induction slots arbitrary: s)
  case (Cons slot slots)
  obtain c1 m1 x where p: "pop16 cur s = ((c1, m1), x)" by (metis prod.collapse)
  note P1 = pop16_closed [OF p Cons.prems(2)]
  show ?case
    using Cons.prems(1) p P1 Cons.IH [of "case slot of Some i \<Rightarrow> (set_gpr16 i v c1, m1) | None \<Rightarrow> (c1, m1)" for v]
    by (cases x; cases slot) auto
qed simp

lemma enter_display_closed: "enter_display cur k bp s = (s', r) \<Longrightarrow> P (snd s) \<Longrightarrow> P (snd s')"
proof (induction k arbitrary: bp s)
  case (Suc k)
  show ?case
    using Suc.prems
    by (auto simp: Let_def trap_out_def split: prod.split_asm sum.split_asm dest!: Suc.IH push16_closed dest: accesses)
qed simp

lemma enter_frame_closed: "enter_frame cur al lv s = (s', r) \<Longrightarrow> P (snd s) \<Longrightarrow> P (snd s')"
  by (auto simp: enter_frame_def enter_nested_def Let_def split: prod.split_asm sum.split_asm if_split_asm
      dest!: push16_closed enter_display_closed)

lemma deliver_closed: "deliver_interrupt cur v saved s = (s', r) \<Longrightarrow> P (snd s) \<Longrightarrow> P (snd s')"
  by (auto simp: deliver_interrupt_def trap_out_def Let_def split: prod.split_asm sum.split_asm
      dest!: push_words_closed accesses simp del: push_words.simps)

lemma far_closed:
  "exec_iret_real cur s = (s', r) \<Longrightarrow> P (snd s) \<Longrightarrow> P (snd s')"
  "exec_far_ret cur n s = (s', r) \<Longrightarrow> P (snd s) \<Longrightarrow> P (snd s')"
  "exec_far_jump ts a b s = Some (s', r) \<Longrightarrow> P (snd s) \<Longrightarrow> P (snd s')"
  "exec_far_call ts cur a b ret s = Some (s', r) \<Longrightarrow> P (snd s) \<Longrightarrow> P (snd s')"
  by (auto simp: exec_iret_real_def exec_far_ret_def exec_far_jump_def exec_far_call_def Let_def elim!: bind_SomeE
      split: prod.split_asm sum.split_asm dest!: pop_words_closed push_words_closed simp del: push_words.simps)

lemma string_step_closed:
  "string_step mem_read mem_write op elem cur ab sb db stp c m = Some (c', m', f) \<Longrightarrow> P m \<Longrightarrow> P m'"
  by (cases op) (auto simp: string_step_def str_trap_def Let_def elim!: bind_SomeE split: prod.split_asm sum.split_asm dest!: accesses)

lemma string_loop_closed:
  "string_loop n mem_read mem_write op elem rep cur ab sb db stp c m = Some (c', m', f) \<Longrightarrow> P m \<Longrightarrow> P m'"
proof (induction n arbitrary: c m rep)
  case (Suc n)
  show ?case
    using Suc.prems
    by (auto simp: Let_def elim!: bind_SomeE split: if_split_asm RepKind.split_asm prod.split_asm dest!: string_step_closed dest: Suc.IH)
qed simp

lemma stays_ends: "P (snd (fst r)) \<Longrightarrow> stays P (ends_block r st)"
  by (auto simp: ends_block_def Let_def split: prod.split)

lemma stays_machine: "(\<And>s' r. f (icpu st, imem st) = (s', r) \<Longrightarrow> P (snd s')) \<Longrightarrow> stays P (on_machine f st)"
  by (auto simp: on_machine_def split: prod.split sum.split)

lemma stays_str: "(\<And>c m f. r = Some (c, m, f) \<Longrightarrow> P m) \<Longrightarrow> stays P (str_finish r st)"
  by (auto simp: str_finish_def intro!: stays_bind split: prod.split)


lemma stays_integer:
  assumes "P (imem st)"
  shows
    "stays P (exec_read_reg d r st)" "stays P (exec_write_reg r a sz st)" "stays P (exec_add d a b sz fm st)"
    "stays P (exec_adc d a b sz fm st)" "stays P (exec_sub d a b sz fm st)" "stays P (exec_sbb d a b sz fm st)"
    "stays P (exec_and d a b sz fm st)" "stays P (exec_or d a b sz fm st)" "stays P (exec_xor d a b sz fm st)"
    "stays P (exec_shl d a b sz fm st)" "stays P (exec_shr d a b sz fm st)" "stays P (exec_sar d a b sz fm st)"
    "stays P (exec_rol d a b sz fm st)" "stays P (exec_ror d a b sz fm st)" "stays P (exec_rcl d a b sz fm st)"
    "stays P (exec_rcr d a b sz fm st)" "stays P (exec_bt d a b sz bop st)" "stays P (exec_crc32 d a b sz st)"
    "stays P (exec_bmi d a b sz mop st)" "stays P (exec_bit_scan d a b sz sop st)"
    "stays P (exec_double_shift d a b c sz left fm st)" "stays P (exec_mul d d' a b sz sg fm st)"
    "stays P (exec_div cur d d' a b c sz sg st)" "stays P (exec_get_cond d cond st)" "stays P (exec_sext d a sz st)"
    "stays P (exec_bswap d a sz st)" "stays P (exec_popcnt d a sz st)" "stays P (exec_cpuid st)" "stays P (exec_xgetbv st)"
  using assms
  by (auto simp: exec_read_reg_def exec_write_reg_def exec_add_def exec_adc_def exec_sub_def exec_sbb_def exec_and_def exec_or_def
      exec_xor_def exec_shl_def exec_shr_def exec_sar_def exec_rol_def exec_ror_def exec_rcl_def exec_rcr_def exec_bt_def
      exec_crc32_def exec_bmi_def exec_bit_scan_def exec_double_shift_def exec_mul_def exec_div_def exec_get_cond_def
      exec_sext_def exec_bswap_def exec_popcnt_def exec_cpuid_def exec_xgetbv_def Let_def
      intro!: stays_bind stays_finish dest!: set_temp_mem split: prod.split option.split)

lemma stays_memory:
  assumes "P (imem st)"
  shows
    "stays P (exec_load cur d a sz st)" "stays P (exec_store cur a b sz st)" "stays P (exec_atomic_rmw cur d a b sz rop st)"
    "stays P (exec_atomic_cas cur d a b c sz st)" "stays P (exec_call cur a ret slot wr st)" "stays P (exec_ret cur slot extra wr st)"
  using assms
  by (auto simp: exec_load_def exec_store_def exec_atomic_rmw_def exec_atomic_cas_def exec_call_def exec_ret_def Let_def
      intro!: stays_bind dest!: set_temp_mem accesses split: prod.split sum.split option.split)

lemma stays_control:
  assumes "P (imem st)"
  shows
    "stays P (exec_set_df v st)" "stays P (exec_lahf st)" "stays P (exec_sahf st)" "stays P (exec_branch cond taken ft st)"
    "stays P (exec_syscall be amd st)" "stays P (exec_hlt be st)" "stays P (exec_trap cur vec adv st)" "stays P (exec_set_cf cfv st)"
    "stays P (exec_jump a st)" "stays P (exec_port_io be a b sz out st)" "stays P (exec_bcd cur kind st)"
  using assms
  by (auto simp: exec_set_df_def exec_lahf_def exec_sahf_def exec_branch_def exec_syscall_def exec_hlt_def exec_trap_def
      exec_set_cf_def exec_jump_def exec_port_io_def exec_bcd_def Let_def
      intro!: stays_bind split: prod.split option.split BcdKind.split)

lemma stays_real:
  assumes "P (imem st)"
  shows
    "stays P (exec_pusha_real cur st)" "stays P (exec_popa_real cur st)" "stays P (exec_enter_real cur alloc level st)"
    "stays P (exec_pushf_real cur st)" "stays P (exec_popf_real cur st)"
    "stays P (exec_rep_string cur op elem rep ab a st)" "stays P (exec_rep_string_real cur op elem rep a b st)"
  using assms
  by (auto simp: exec_pusha_real_def exec_popa_real_def exec_enter_real_def exec_pushf_real_def exec_popf_real_def
      exec_rep_string_def exec_rep_string_real_def string_run_def string_run_impl_def Let_def
      intro!: stays_bind stays_machine stays_str split: prod.split sum.split
      dest!: push_words_closed pop_slots_closed enter_frame_closed push16_closed pop16_closed string_loop_closed)

lemma stays_gates:
  assumes "P (imem st)"
  shows
    "stays P (ends_block (deliver_interrupt cur v saved (icpu st, imem st)) st)" "stays P (exec_into_gate cur nip st)"
    "stays P (exec_bound_gate cur a b c fip nip st)" "stays P (exec_seg_limit_check cur a sz vec fip st)"
    "stays P (ends_block (exec_iret_real cur (icpu st, imem st)) st)" "stays P (ends_block (exec_far_ret cur n (icpu st, imem st)) st)"
    "stays P (exec_far_jump ts a b (icpu st, imem st) \<bind> (\<lambda>r. ends_block r st))"
    "stays P (exec_far_call ts cur a b ret (icpu st, imem st) \<bind> (\<lambda>r. ends_block r st))"
proof -
  have m: "P (snd (icpu st, imem st))" using assms by simp
  note D = deliver_closed [OF prod.collapse [symmetric] m]
  show "stays P (ends_block (deliver_interrupt cur v saved (icpu st, imem st)) st)" "stays P (exec_into_gate cur nip st)"
    "stays P (exec_bound_gate cur a b c fip nip st)" "stays P (exec_seg_limit_check cur a sz vec fip st)"
    using D assms by (auto simp: exec_into_gate_def exec_bound_gate_def exec_seg_limit_check_def Let_def intro!: stays_bind stays_ends)
  show "stays P (ends_block (exec_iret_real cur (icpu st, imem st)) st)" "stays P (ends_block (exec_far_ret cur n (icpu st, imem st)) st)"
    by (rule stays_ends, rule far_closed(1,2) [OF prod.collapse [symmetric] m])+
  show "stays P (exec_far_jump ts a b (icpu st, imem st) \<bind> (\<lambda>r. ends_block r st))"
    "stays P (exec_far_call ts cur a b ret (icpu st, imem st) \<bind> (\<lambda>r. ends_block r st))"
    using far_closed(3,4) [OF _ m] by (fastforce intro!: stays_bind stays_ends)+
qed

lemma exec_op_stays: "P (imem st) \<Longrightarrow> stays P (exec_op cur be op st)"
  by (cases op) (simp_all add: stays_integer stays_memory stays_control stays_real stays_gates split: prod.split)

lemma walk_ops_closed: "walk_ops be os w = Some (w', r) \<Longrightarrow> P (imem (wst w)) \<Longrightarrow> P (imem (wst w'))"
proof (induction os arbitrary: w)
  case (Cons op os)
  obtain w1 x where w1: "walk_op be op w = Some (w1, x)" using Cons.prems(1) by (auto elim!: bind_SomeE)
  have "P (imem (wst w1))"
    using w1 exec_op_stays [OF Cons.prems(2), of "cur_addr w" be op] Cons.prems(2)
    by (cases op) (auto simp: walk_op_def stays_def elim!: bind_SomeE simp del: exec_op.simps)
  then show ?case using Cons w1 by (cases x) auto
qed auto

lemma interpret_block_closed: "interpret_block ir c m = Some (c', m', info, r) \<Longrightarrow> P m \<Longrightarrow> P m'"
  by (auto simp: interpret_block_def Let_def block_start_def elim!: bind_SomeE dest!: walk_ops_closed)

lemma step_one_closed: "step_one E md c m = Some (c', m', info, r) \<Longrightarrow> P m \<Longrightarrow> P m'"
  by (auto simp: step_one_def elim!: bind_SomeE split: sum.split_asm LiftError.split_asm dest: interpret_block_closed)

end

interpretation inv_kept: access_closed mem_inv
  by unfold_locales (simp_all add: access_inv)

section \<open>Resolution returns\<close>

text \<open>
  What resolution relies on of a backend beyond the contract above: a unit its background worker finished is native code,
  and a backend that offers region limits compiles regions whatever state it is in.
\<close>

locale backend_safe = backend_contract +
  assumes finished_native: "\<And>b fin. fin \<in> set (fst (be_tier_up_finished B b)) \<Longrightarrow> \<exists>p. fin_block fin = Compiled p"
    and region_ready: "\<And>b b' rg c w gb. be_region_caps B b \<noteq> None \<Longrightarrow> be_materialize_region B rg c w gb b' \<noteq> None"

interpretation safe_interp: backend_safe interpreter_backend
  by unfold_locales (simp_all add: interpreter_backend_def)

text \<open>The memory is well formed and every interpreted unit of the cache satisfies \<open>Q\<close>.\<close>

definition vm_ok :: "(IrBlock \<Rightarrow> bool) \<Rightarrow> 'b Vm \<Rightarrow> bool" where
  "vm_ok Q vm \<longleftrightarrow> mem_inv (vm_mem vm) \<and> (\<forall>k ir. map_of (tc_map (vm_cache vm)) k = Some (Interpreted ir) \<longrightarrow> Q ir)"

lemma vm_okD: "vm_ok Q vm \<Longrightarrow> mem_inv (vm_mem vm)"
  by (simp add: vm_ok_def)

lemma vm_ok_same:
  "vm_ok Q vm \<Longrightarrow> tc_map (vm_cache vm') = tc_map (vm_cache vm) \<Longrightarrow> mem_inv (vm_mem vm') \<Longrightarrow> vm_ok Q vm'"
  by (simp add: vm_ok_def)

lemma vm_ok_insert:
  "vm_ok Q vm \<Longrightarrow> map_of (tc_map (vm_cache vm')) = (map_of (tc_map (vm_cache vm)))(k \<mapsto> b) \<Longrightarrow> mem_inv (vm_mem vm') \<Longrightarrow>
    (\<And>ir. b = Interpreted ir \<Longrightarrow> Q ir) \<Longrightarrow> vm_ok Q vm'"
  by (auto simp: vm_ok_def)

lemma mark_spans_inv: "mem_inv mem \<Longrightarrow> mem_inv (mark_spans sps mem)"
  using mark_spans_keeps by blast

definition same_units :: "'b Vm \<Rightarrow> 'b Vm \<Rightarrow> bool" where
  "same_units vm vm' \<longleftrightarrow> tc_map (vm_cache vm') = tc_map (vm_cache vm) \<and> tc_epoch (vm_cache vm') = tc_epoch (vm_cache vm) \<and>
     vm_mem vm' = vm_mem vm"

lemma submit_unit_same: "submit_unit B pc m ep un sps vm = (r, vm') \<Longrightarrow> same_units vm vm'"
  by (auto simp: submit_unit_def Let_def on_cache_def end_tier_up_def same_units_def split: prod.split_asm TierUpSubmit.split_asm)

lemma same_units_trans: "same_units u v \<Longrightarrow> same_units v w \<Longrightarrow> same_units u w"
  by (simp add: same_units_def)

lemma region_candidate_same:
  "region_candidate E B pc m vm = Some (c, vm') \<Longrightarrow>
    same_units vm vm' \<and> vm_backend vm' = vm_backend vm \<and> (c \<longrightarrow> be_region_caps B (vm_backend vm) \<noteq> None)"
  by (auto simp: region_candidate_def Let_def on_cache_def same_units_def set_region_decision_def elim!: bind_SomeE
      split: option.split_asm)

lemma tier_up_submit_same:
  assumes "tier_up_submit E B pc m ep ir thr n vm = Some (stay, vm')"
  shows "same_units vm vm'"
proof -
  obtain c v where c: "region_candidate E B pc m vm = Some (c, v)"
    using assms by (auto simp: tier_up_submit_def Let_def elim!: bind_SomeE)
  define w where "w = v\<lparr>vm_cache := snd (try_begin_tier_up (block_key pc m) (vm_cache v))\<rparr>"
  have w: "same_units vm v" "same_units vm w"
    using region_candidate_same [OF c] by (simp_all add: w_def same_units_def try_begin_tier_up_def)
  have "vm' = v \<or> vm' = w \<or> (\<exists>un sps. submit_unit B pc m ep un sps w = (stay, vm'))"
    using assms c
    by (auto simp: tier_up_submit_def Let_def w_def elim!: bind_SomeE split: if_split_asm prod.split_asm sum.split_asm)
  then show ?thesis using w submit_unit_same same_units_trans by blast
qed

lemma tier_up_submit_total:
  assumes "decoder_ok E" "mem_inv (vm_mem vm)"
  shows "tier_up_submit E B pc m ep ir thr n vm \<noteq> None"
proof -
  obtain l where l: "\<And>caps. lift_region E (vm_mem vm) pc caps m = Some (l caps)"
    using lift_region_spec(1) [OF assms] that [of "\<lambda>caps. the (lift_region E (vm_mem vm) pc caps m)"] by simp
  have "region_candidate E B pc m vm \<noteq> None"
    by (auto simp: region_candidate_def Let_def l split: option.split)
  then obtain c v where c: "region_candidate E B pc m vm = Some (c, v)" by fastforce
  have s: "vm_mem v = vm_mem vm" "vm_backend v = vm_backend vm" "c \<longrightarrow> be_region_caps B (vm_backend vm) \<noteq> None"
    using region_candidate_same [OF c] by (simp_all add: same_units_def)
  show ?thesis
  proof (cases c)
    case True
    then obtain caps where "be_region_caps B (vm_backend vm) = Some caps" using s(3) by blast
    then show ?thesis
      using c s(1,2) l [of caps] by (auto simp: tier_up_submit_def Let_def try_begin_tier_up_def split: sum.split)
  next
    case False
    then show ?thesis using c by (auto simp: tier_up_submit_def Let_def try_begin_tier_up_def)
  qed
qed

lemma stay_or_go:
  assumes "decoder_ok E" "mem_inv (vm_mem vm)"
  obtains stay vm' where "(if tier_up_background vm then tier_up_submit E B pc m ep ir thr n vm else Some (False, vm)) = Some (stay, vm')"
    "same_units vm vm'"
proof (cases "tier_up_background vm")
  case True
  obtain x where x: "tier_up_submit E B pc m ep ir thr n vm = Some x" using tier_up_submit_total [OF assms] by blast
  obtain stay vm' where p: "x = (stay, vm')" by (cases x)
  have "same_units vm vm'" by (rule tier_up_submit_same [OF x [unfolded p]])
  with x p True show ?thesis by (intro that [of stay vm']) simp_all
next
  case False
  then show ?thesis by (intro that [of False vm]) (simp_all add: same_units_def)
qed

context backend_safe
begin

lemma publish_ok:
  assumes "vm_ok Q vm" "\<exists>p. fin_block fin = Compiled p"
  shows "vm_ok Q (publish_finished fin vm)"
proof -
  obtain p where p: "fin_block fin = Compiled p" using assms(2) by blast
  show ?thesis
  proof (cases "tc_epoch (vm_cache vm) = fin_epoch fin")
    case True
    show ?thesis
      by (rule vm_ok_insert [OF assms(1), of _ "block_key (fin_pc fin) (vm_mode vm)" "Compiled p"])
        (use True p assms(1) mark_spans_inv in \<open>auto simp: publish_finished_def upgrade_region_def Let_def end_tier_up_def
          record_tier_bg_published_def record_region_def vm_ok_def\<close>)
  next
    case False
    show ?thesis
      by (rule vm_ok_same [OF assms(1)]) (use False assms(1) in \<open>simp_all add: publish_finished_def upgrade_region_def Let_def
        end_tier_up_def record_tier_bg_rejected_def vm_ok_def\<close>)
  qed
qed

lemma drain_ok:
  assumes "vm_ok Q vm"
  shows "vm_ok Q (drain_tier_up B vm)"
proof -
  obtain fins b where f: "be_tier_up_finished B (vm_backend vm) = (fins, b)" by fastforce
  have "vm_ok Q (fold publish_finished fs v)" if "\<forall>fin\<in>set fs. \<exists>p. fin_block fin = Compiled p" "vm_ok Q v" for fs and v :: "'a Vm"
    using that by (induction fs arbitrary: v) (auto intro: publish_ok)
  moreover have "\<forall>fin\<in>set fins. \<exists>p. fin_block fin = Compiled p" using finished_native [of _ "vm_backend vm"] f by simp
  moreover have "vm_ok Q (vm\<lparr>vm_backend := b\<rparr>)" using assms by (simp add: vm_ok_def)
  ultimately show ?thesis using f by (simp add: drain_tier_up_def)
qed


lemma resolve_step_ok:
  assumes "vm_ok Q vm" "decoder_ok E" "\<And>v. vm_ok Q v \<Longrightarrow> vm_ok Q (f v)"
  shows "\<exists>r vm'. resolve_step E B f pc m vm = Some (r, vm') \<and> vm_ok Q vm' \<and> (f = id \<longrightarrow> r \<noteq> Retry) \<and>
    (\<forall>b. r = Return b \<longrightarrow> map_of (tc_map (vm_cache vm')) (block_key pc m) = Some b) \<and>
    (r = Break \<longrightarrow> map_of (tc_map (vm_cache vm')) (block_key pc m) = None)"
proof -
  let ?k = "block_key pc m"
  define v where "v = (if tier_up_background vm then drain_tier_up B vm else vm)"
  have v: "vm_ok Q v" using assms(1) drain_ok by (simp add: v_def)
  obtain o1 c where g: "cache_get ?k (vm_cache v) = (o1, c)" by fastforce
  note gs = cache_get_same [OF g]
  define w where "w = v\<lparr>vm_cache := c\<rparr>"
  have w: "vm_ok Q w" "same_units v w" using gs v by (auto simp: w_def same_units_def vm_ok_def)
  show ?thesis
  proof (cases "\<exists>thr ir. tier_up_after w = Some thr \<and> o1 = Some (Interpreted ir)")
    case False
    then have "resolve_step E B f pc m vm = Some (case o1 of None \<Rightarrow> Break | Some b \<Rightarrow> Return b, w)"
      using g by (auto simp: resolve_step_def Let_def v_def [symmetric] w_def split: option.splits CachedBlock.splits)
    then show ?thesis using w gs by (auto simp: w_def split: option.splits)
  next
    case True
    then obtain thr ir where t: "tier_up_after w = Some thr" "o1 = Some (Interpreted ir)" by blast
    obtain n c2 where h: "bump_hotness ?k c = (n, c2)" by fastforce
    note hs = bump_hotness_same [OF h]
    define x where "x = w\<lparr>vm_cache := c2\<rparr>"
    have x: "vm_ok Q x" "map_of (tc_map (vm_cache x)) ?k = Some (Interpreted ir)" "tc_epoch (vm_cache x) = tc_epoch (vm_cache v)"
      using hs gs w t(2) by (auto simp: x_def w_def vm_ok_def)
    have xv: "v\<lparr>vm_cache := c2\<rparr> = x" and t': "tier_up_after v = Some thr" using t(1) by (simp_all add: x_def w_def)
    have Q: "Q ir" using x(1,2) by (simp add: vm_ok_def)
    obtain stay y where y: "(if tier_up_background x then tier_up_submit E B pc m (tc_epoch (vm_cache v)) ir thr n x else Some (False, x))
        = Some (stay, y)" "same_units x y"
      by (rule stay_or_go [OF assms(2) vm_okD [OF x(1)]])
    have yo: "vm_ok Q y" using x(1) y(2) by (auto simp: vm_ok_def same_units_def)
    obtain b z where m: "vm_materialize B ir y = (b, z)" by fastforce
    note ms = vm_materialize_block [OF m]
    have z: "vm_ok Q (f z)" using ms yo by (intro assms(3)) (simp add: vm_ok_def)
    obtain ok c4 where u: "upgrade ?k b (guest_start ir, guest_len ir) (tc_epoch (vm_cache v)) (vm_cache (f z)) = (ok, c4)" by fastforce
    define z' where "z' = (f z)\<lparr>vm_cache := c4\<rparr>"
    have z': "vm_ok Q z'" "ok \<Longrightarrow> map_of (tc_map (vm_cache z')) ?k = Some b"
      using u z ms(1) Q by (auto simp: z'_def upgrade_def vm_ok_def split: if_splits)
    have e: "ok" if "f = id" using that u ms(2) y(2) x(3) by (auto simp: upgrade_def same_units_def split: if_splits)
    have "resolve_step E B f pc m vm = Some (if n < thr then (Return (Interpreted ir), x)
        else if stay then (Return (Interpreted ir), y) else (if ok then Return b else Retry, z'))"
      using g t' t(2) h y(1) m u xv
      by (cases "tier_up_background x") (simp_all add: resolve_step_def Let_def v_def [symmetric] z'_def)
    then show ?thesis using x yo y(2) z' e by (auto simp: same_units_def)
  qed
qed


lemma resolve_loop_ok:
  assumes "vm_ok Q vm" "decoder_ok E" "\<And>f v. f \<in> set fs \<Longrightarrow> vm_ok Q v \<Longrightarrow> vm_ok Q (f v)"
  shows "\<exists>r vm'. resolve_loop E B pc m fs vm = Some (r, vm') \<and> vm_ok Q vm' \<and> r \<noteq> Retry \<and>
    (\<forall>b. r = Return b \<longrightarrow> map_of (tc_map (vm_cache vm')) (block_key pc m) = Some b) \<and>
    (r = Break \<longrightarrow> map_of (tc_map (vm_cache vm')) (block_key pc m) = None)"
  using assms(1,3)
proof (induction fs arbitrary: vm)
  case Nil
  then show ?case using resolve_step_ok [OF Nil(1) assms(2), of id pc m] by auto
next
  case (Cons f fs)
  obtain r v where s: "resolve_step E B f pc m vm = Some (r, v)" "vm_ok Q v"
    "\<forall>b. r = Return b \<longrightarrow> map_of (tc_map (vm_cache v)) (block_key pc m) = Some b"
    "r = Break \<longrightarrow> map_of (tc_map (vm_cache v)) (block_key pc m) = None"
    using resolve_step_ok [OF Cons.prems(1) assms(2), of f pc m] Cons.prems(2) by auto
  show ?case
  proof (cases "r = Retry")
    case True
    then show ?thesis using s(1) Cons.IH [OF s(2)] Cons.prems(2) by simp
  next
    case False
    then show ?thesis using s by (cases r) auto
  qed
qed

lemma finish_single_ok:
  assumes "vm_ok Q vm" "Q ir" "finish_single B k a ir vm = (b, vm')"
  shows "vm_ok Q vm'" "map_of (tc_map (vm_cache vm')) k = Some b"
proof -
  obtain b' v where m: "(if tier_up_after vm \<noteq> None then (Interpreted ir, vm) else vm_materialize B ir vm) = (b', v)" by fastforce
  have v: "b' = Interpreted ir \<or> (\<exists>p. b' = Compiled p)" "vm_cache v = vm_cache vm" "vm_mem v = vm_mem vm"
    using m vm_materialize_block [of ir vm b' v] by (auto split: if_splits)
  have e: "vm' = v\<lparr>vm_cache := (vm_cache v)\<lparr>tc_map := AList.update k b' (tc_map (vm_cache v)),
      tc_spans := AList.update k [(a, guest_len ir)] (tc_spans (vm_cache v))\<rparr>, vm_mem := mark_code a (guest_len ir) (vm_mem v)\<rparr>" "b = b'"
    using assms(3) m by (auto simp: finish_single_def cache_insert_def Let_def)
  show "map_of (tc_map (vm_cache vm')) k = Some b" by (simp add: e)
  show "vm_ok Q vm'"
    by (rule vm_ok_insert [OF assms(1), of _ k b']) (use v assms(1,2) in \<open>auto simp: e vm_ok_def intro: mark_code_mem_inv\<close>)
qed

lemma insert_region_ok:
  assumes "vm_ok Q vm" "insert_region B k rg vm = Some (b, vm')"
  shows "vm_ok Q vm'" "map_of (tc_map (vm_cache vm')) k = Some b"
proof -
  obtain be where m: "be_materialize_region B rg (consistency vm) (trap_window (vm_mem vm)) (guest_base (vm_mem vm)) (vm_backend vm) = Some (b, be)"
    using assms(2) by (auto simp: insert_region_eq)
  obtain p where p: "b = Compiled p" using materialize_region [OF m] by auto
  have e: "tc_map (vm_cache vm') = AList.update k b (tc_map (vm_cache vm))" "vm_mem vm' = mark_spans (X86_Ir.spans rg) (vm_mem vm)"
    using assms(2) m by (auto simp: insert_region_eq cache_insert_def record_region_def)
  show "map_of (tc_map (vm_cache vm')) k = Some b" by (simp add: e)
  show "vm_ok Q vm'"
    by (rule vm_ok_insert [OF assms(1), of _ k b]) (use p assms(1) in \<open>auto simp: e vm_ok_def intro: mark_spans_inv\<close>)
qed

lemma resolve_miss_ok:
  assumes "vm_ok Q vm" "decoder_ok E" "\<And>v. vm_ok Q v \<Longrightarrow> vm_ok Q (g v)"
    and lift: "\<And>at ir. lift_block E (vm_mem vm) at m = Some (Inr ir) \<Longrightarrow> Q ir"
  shows "\<exists>r vm'. resolve_miss E B g at m vm = Some (r, vm') \<and> vm_ok Q vm' \<and>
    (case r of Inl e \<Rightarrow> vm' = vm | Inr b \<Rightarrow> map_of (tc_map (vm_cache vm')) (block_key (pa at) m) = Some b)"
proof -
  let ?k = "block_key (pa at) m"
  have inv: "mem_inv (vm_mem vm)" and go: "vm_ok Q (g vm)" using assms(1,3) by (auto dest: vm_okD)
  have single: "\<exists>b vm'. finish_single B ?k (pa at) ir (g vm) = (b, vm') \<and> vm_ok Q vm' \<and> map_of (tc_map (vm_cache vm')) ?k = Some b"
    if "Q ir" for ir
    using finish_single_ok [OF go that] by (cases "finish_single B ?k (pa at) ir (g vm)") auto
  show ?thesis
  proof (cases "if tier_up_background vm then None else be_region_caps B (vm_backend vm)")
    case None
    obtain r where r: "lift_block E (vm_mem vm) at m = Some r" using lift_block_spec(1) [OF assms(2) inv] by blast
    show ?thesis
    proof (cases r)
      case (Inl e)
      then show ?thesis using None r assms(1) by (simp add: resolve_miss_def Let_def)
    next
      case (Inr ir)
      then obtain b v where "finish_single B ?k (pa at) ir (g vm) = (b, v)" "vm_ok Q v" "map_of (tc_map (vm_cache v)) ?k = Some b"
        using single [of ir] lift r by blast
      then show ?thesis using None r Inr by (simp add: resolve_miss_def Let_def)
    qed
  next
    case (Some caps)
    then have c: "be_region_caps B (vm_backend vm) \<noteq> None" by (auto split: if_splits)
    obtain r where r: "lift_region E (vm_mem vm) (pa at) caps m = Some r" using lift_region_spec(1) [OF assms(2) inv] by blast
    show ?thesis
    proof (cases r)
      case (Inl e)
      then show ?thesis using Some r assms(1) by (simp add: resolve_miss_def Let_def)
    next
      case (Inr rg)
      note s = lift_region_spec(2) [OF assms(2) inv r [unfolded Inr]]
      obtain ir irs where b: "blocks rg = ir # irs" using s by (cases "blocks rg") auto
      obtain b1 v1 where f: "finish_single B ?k (pa at) ir (g vm) = (b1, v1)" "vm_ok Q v1" "map_of (tc_map (vm_cache v1)) ?k = Some b1"
        using single [of ir] lift s b by (metis list.sel(1))
      have "insert_region B ?k rg (g vm) \<noteq> None" using region_ready [OF c] by (simp add: insert_region_eq)
      then obtain b0 v0 where x: "insert_region B ?k rg (g vm) = Some (b0, v0)" by auto
      note xs = insert_region_ok [OF go x]
      show ?thesis
        by (cases "loop_region rg") (use Some r Inr b f x xs in \<open>simp_all add: resolve_miss_def Let_def\<close>)
    qed
  qed
qed

text \<open>Resolution as a whole, with any interventions of other virtual CPUs that keep the machine well formed.\<close>

lemma resolve_ok:
  assumes "vm_ok Q vm" "decoder_ok E" "\<And>f v. f \<in> set (g # fs) \<Longrightarrow> vm_ok Q v \<Longrightarrow> vm_ok Q (f v)"
    and lift: "\<And>mem at ir. lift_block E mem at m = Some (Inr ir) \<Longrightarrow> Q ir"
  shows "\<exists>r vm'. resolve E B fs g at m vm = Some (r, vm') \<and> vm_ok Q vm' \<and>
    map_of (tc_map (vm_cache vm')) (block_key (pa at) m) = (case r of Inr b \<Rightarrow> Some b | Inl e \<Rightarrow> None)"
proof -
  let ?k = "block_key (pa at) m"
  obtain r v where l: "resolve_loop E B (pa at) m fs vm = Some (r, v)" "vm_ok Q v" "r \<noteq> Retry"
    "\<forall>b. r = Return b \<longrightarrow> map_of (tc_map (vm_cache v)) ?k = Some b" "r = Break \<longrightarrow> map_of (tc_map (vm_cache v)) ?k = None"
    using resolve_loop_ok [OF assms(1,2), of fs "pa at" m] assms(3) by auto
  show ?thesis
  proof (cases r)
    case Break
    obtain r' v' where m: "resolve_miss E B g at m v = Some (r', v')" "vm_ok Q v'"
      "case r' of Inl e \<Rightarrow> v' = v | Inr b \<Rightarrow> map_of (tc_map (vm_cache v')) ?k = Some b"
      using resolve_miss_ok [OF l(2) assms(2), of g m at] lift assms(3) by auto
    then show ?thesis using l Break by (cases r') (simp_all add: resolve_def)
  qed (use l in \<open>simp_all add: resolve_def\<close>)
qed

end

section \<open>Runs return\<close>

text \<open>The decoder and the lifter the dispatcher is run with.\<close>

definition env_ok :: "lift_env \<Rightarrow> bool" where
  "env_ok E \<longleftrightarrow> decoder_ok E \<and> decoder_typed E \<and> (\<exists>lv. insn_lift E = lift_insn lv \<and> vector_typed lv)"

text \<open>
  What a run relies on of compiled code: it never adds to the fuel it is handed, it returns one of the codes of the ABI, and
  it keeps guest memory well formed.
\<close>

definition arena_ok :: "'b JitArena \<Rightarrow> bool" where
  "arena_ok J \<longleftrightarrow> spends_fuel J \<and> (\<forall>p s. fst (call_block J p s) \<le> RET_PORTIO_DEFER \<and>
     (mem_inv (call_mem s) \<longrightarrow> mem_inv (call_mem (snd (call_block J p s)))))"

abbreviation run_safe :: "'b run_state \<Rightarrow> bool" where
  "run_safe rs \<equiv> vm_ok wt_block (rs_vm rs)"

definition continues :: "(run_next \<times> 'b run_state) option \<Rightarrow> bool" where
  "continues out \<longleftrightarrow> (\<exists>nx rs. out = Some (nx, rs) \<and> run_safe rs)"

lemma continues_Some [simp]: "continues (Some (nx, rs)) \<longleftrightarrow> run_safe rs"
  by (simp add: continues_def)

lemma run_safe_mem: "run_safe rs \<Longrightarrow> mem_inv (vm_mem (rs_vm rs))"
  by (rule vm_okD)

lemma run_safe_set_mem: "run_safe rs \<Longrightarrow> mem_inv mem \<Longrightarrow> vm_ok wt_block ((rs_vm rs)\<lparr>vm_mem := mem\<rparr>)"
  by (simp add: vm_ok_def)

lemma handle_smc_ok: "vm_ok Q vm \<Longrightarrow> vm_ok Q (handle_smc B vm)"
proof -
  assume ok: "vm_ok Q vm"
  obtain ps m where t: "take_dirty_code (vm_mem vm) = (ps, m)" by fastforce
  obtain iv v where f: "fold smc_page ps (False, vm\<lparr>vm_mem := m\<rparr>) = (iv, v)" by fastforce
  have "mem_inv m" using t ok take_dirty_code_inv vm_okD by blast
  moreover have "mem_inv (vm_mem v')" if "fold smc_page qs (i, u) = (i', v')" "mem_inv (vm_mem u)" for qs i i' and u v' :: "'a Vm"
    using that
  proof (induction qs arbitrary: i u)
    case (Cons q qs)
    then show ?case
      by (auto simp: smc_page_def [of q] vm_invalidate_def invalidate_overlapping_def Let_def clear_code_mem_inv split: prod.split_asm)
  qed simp
  ultimately have "mem_inv (vm_mem v)" using f by simp
  then have "mem_inv (vm_mem (handle_smc B vm))" using t f by (simp add: handle_smc_def)
  moreover have "Q ir" if "map_of (tc_map (vm_cache (handle_smc B vm))) k = Some (Interpreted ir)" for k ir
    using that ok handle_smc_shrinks(1) [of vm B] unfolding vm_ok_def shrinks_def by (metis option.distinct(1))
  ultimately show ?thesis by (simp add: vm_ok_def)
qed

lemma sync_caches_safe: "run_safe rs \<Longrightarrow> run_safe (sync_caches B rs)"
  by (simp add: sync_caches_def Let_def handle_smc_ok)

lemma step_one_safe:
  assumes "env_ok E" "mem_inv mem"
  obtains c' mem' info r where "step_one E m c mem = Some (c', mem', info, r)" "mem_inv mem'"
proof -
  obtain c' mem' info r where s: "step_one E m c mem = Some (c', mem', info, r)"
    using assms step_one_total unfolding env_ok_def by blast
  with inv_kept.step_one_closed [OF s assms(2)] that show ?thesis by blast
qed

lemma interpret_safe:
  assumes "wt_block ir" "mem_inv mem"
  obtains c' mem' info r where "interpret_block ir c mem = Some (c', mem', info, r)" "mem_inv mem'"
proof -
  obtain x where "interpret_block ir c mem = Some x" using interpret_block_ok [OF assms(1)] by blast
  moreover obtain c' mem' info r where "x = (c', mem', info, r)" by (cases x)
  ultimately have s: "interpret_block ir c mem = Some (c', mem', info, r)" by simp
  with inv_kept.interpret_block_closed [OF s assms(2)] that show ?thesis by blast
qed

lemma take_step_safe:
  assumes "run_safe rs" "mem_inv mem'" "take_step (c', mem', info, r) rs = (rs', i, x)"
  shows "run_safe rs'" "x = r"
  using assms by (auto simp: take_step_def Let_def vm_ok_def)

lemma deliver_vector_safe: "deliver_vector a v rs = (rs', r) \<Longrightarrow> run_safe rs \<Longrightarrow> run_safe rs'"
  using inv_kept.deliver_closed [of a v a "(cpu (rs_vcpu rs), vm_mem (rs_vm rs))"]
  by (auto simp: deliver_vector_def Let_def vm_ok_def split: prod.split_asm)

lemma set_shadow_safe [simp]: "rs_vm (set_shadow s rs) = rs_vm rs"
  by (simp add: set_shadow_def)

lemma charge_safe [simp]: "rs_vm (charge n rs) = rs_vm rs"
  by (simp add: charge_def)

lemma run_interpreted_safe:
  assumes "run_safe rs" "wt_block ir"
  shows "continues (run_interpreted ir rs)"
proof -
  obtain c' mem' info r where i: "interpret_block ir (cpu (rs_vcpu rs)) (vm_mem (rs_vm rs)) = Some (c', mem', info, r)" "mem_inv mem'"
    by (rule interpret_safe [OF assms(2) run_safe_mem [OF assms(1)]])
  obtain rs1 i1 x where t: "take_step (c', mem', info, r) rs = (rs1, i1, x)" by (cases "take_step (c', mem', info, r) rs")
  note rs1 = take_step_safe [OF assms(1) i(2) t]
  show ?thesis
    using i(1) t rs1
    by (auto simp: run_interpreted_def Let_def dest: deliver_vector_safe
        split: StepResult.split Exit.split prod.split)
qed

lemma resume_mmio_safe:
  assumes "run_safe rs" "env_ok E"
  shows "continues (resume_mmio E rs)" "continues (on_defer E rs)"
proof -
  obtain c' mem' info r where i: "step_one E (vcpu_mode (rs_vcpu rs)) (cpu (rs_vcpu rs)) (vm_mem (rs_vm rs)) = Some (c', mem', info, r)"
      "mem_inv mem'"
    by (rule step_one_safe [OF assms(2) run_safe_mem [OF assms(1)]])
  obtain rs1 i1 x where t: "take_step (c', mem', info, r) rs = (rs1, i1, x)" by (cases "take_step (c', mem', info, r) rs")
  note rs1 = take_step_safe [OF assms(1) i(2) t]
  show "continues (resume_mmio E rs)" "continues (on_defer E rs)"
    using i(1) t rs1 by (simp_all add: resume_mmio_def on_defer_def Let_def split: StepResult.split)
qed

lemma deliver_irq_safe: "run_safe rs \<Longrightarrow> continues (Some (deliver_irq v rs))"
  by (auto simp: deliver_irq_def Let_def dest!: deliver_vector_safe split: prod.split StepResult.split)

context backend_safe
begin

lemma resolve_block_safe:
  assumes "run_safe rs" "env_ok E"
  obtains r rs' where "resolve_block E B at rs = Some (r, rs')" "run_safe rs'" "\<forall>ir. r = Inr (Interpreted ir) \<longrightarrow> wt_block ir"
proof -
  have w: "wt_block ir" if "lift_block E mem a m = Some (Inr ir)" for mem a m ir
    using assms(2) lift_block_typed that unfolding env_ok_def by blast
  obtain r vm' where r: "resolve E B [] id at (vcpu_mode (rs_vcpu rs)) (rs_vm rs) = Some (r, vm')" "vm_ok wt_block vm'"
    "map_of (tc_map (vm_cache vm')) (block_key (pa at) (vcpu_mode (rs_vcpu rs))) = (case r of Inr b \<Rightarrow> Some b | Inl e \<Rightarrow> None)"
    using resolve_ok [OF assms(1), of E id "[]" "vcpu_mode (rs_vcpu rs)" at] assms(2) w by (auto simp: env_ok_def)
  then show ?thesis by (intro that [of r "rs\<lparr>rs_vm := vm'\<rparr>"]) (auto simp: resolve_block_def vm_ok_def)
qed

lemma dispatch_safe:
  assumes "run_safe rs" "env_ok E"
  shows "continues (dispatch E B rs)"
proof (cases "fast_get (rs_vcpu rs) (rip (cpu (rs_vcpu rs)))")
  case None
  let ?at = "fetch_for_mode (vcpu_mode (rs_vcpu rs)) (rip (cpu (rs_vcpu rs))) (cs_sel (cpu (rs_vcpu rs)))"
  obtain r rs' where r: "resolve_block E B ?at rs = Some (r, rs')" "run_safe rs'" "\<forall>ir. r = Inr (Interpreted ir) \<longrightarrow> wt_block ir"
    by (rule resolve_block_safe [OF assms])
  then show ?thesis
    using None run_interpreted_safe [OF r(2)] by (auto simp: dispatch_def Let_def split: sum.split CachedBlock.split)
qed (use assms in \<open>simp add: dispatch_def Let_def\<close>)

lemma outer_step_safe:
  assumes "run_safe rs" "env_ok E"
  shows "continues (outer_step E B budget rs)"
proof -
  note s = sync_caches_safe [OF assms(1), of B]
  show ?thesis
    using assms(1) resume_mmio_safe(1) [OF s assms(2)] dispatch_safe [OF s assms(2)] deliver_irq_safe [OF s]
    by (auto simp: outer_step_def Let_def split: option.split)
qed

lemma publish_slot_safe: "publish_slot J since slot v vm = (ok, vm') \<Longrightarrow> vm_ok Q vm \<Longrightarrow> vm_ok Q vm'"
  by (auto simp: publish_slot_def Let_def vm_ok_def split: prod.split_asm)

lemma on_link_safe:
  assumes "run_safe rs" "env_ok E"
  shows "continues (on_link E B J rs)"
proof -
  obtain r rs' where r: "resolve_block E B (fetch_flat (rip (cpu (rs_vcpu rs)))) rs = Some (r, rs')" "run_safe rs'"
    by (rule resolve_block_safe [OF assms])
  then show ?thesis
    by (auto simp: on_link_def Let_def dest: publish_slot_safe split: sum.split CachedBlock.split prod.split)
qed

lemma refill_ibtc_safe: "refill_ibtc J since p rs = (ok, rs') \<Longrightarrow> run_safe rs \<Longrightarrow> run_safe rs'"
  by (auto simp: refill_ibtc_def Let_def alloc_ibtc_descriptor_def vm_ok_def publish_slot_def split: prod.split_asm if_split_asm)

lemma on_ibtc_miss_safe:
  assumes "run_safe rs" "env_ok E"
  shows "continues (on_ibtc_miss E B J rs)"
proof -
  obtain r rs' where r: "resolve_block E B (fetch_flat (rip (cpu (rs_vcpu rs)))) rs = Some (r, rs')" "run_safe rs'"
    by (rule resolve_block_safe [OF assms])
  have fill: "continues (case refill_ibtc J since p rs1 of (ok, rs) \<Rightarrow> Some (if ok then Goto (Inner p) else Goto Outer, rs))"
    if "run_safe rs1" for since p and rs1 :: "'a run_state"
    using refill_ibtc_safe [of J since p rs1] that by (auto split: prod.split)
  show ?thesis
    using assms(1) r by (auto simp: on_ibtc_miss_def Let_def intro!: fill split: option.split sum.split CachedBlock.split)
qed

lemma on_code_safe:
  assumes "run_safe rs" "env_ok E" "code \<le> RET_PORTIO_DEFER"
  shows "continues (on_code E B J code rs)"
proof -
  have "unat code \<in> {0, 1, 2, 3, 4, 5, 6, 7, 8, 9}" using assms(3) by (simp add: word_le_nat_alt) arith
  then have "code \<in> {0, 1, 2, 3, 4, 5, 6, 7, 8, 9}" by (auto simp: word_unat_eq_iff)
  then show ?thesis
    using assms(1) on_link_safe [OF assms(1,2)] on_ibtc_miss_safe [OF assms(1,2)] resume_mmio_safe(2) [OF assms(1,2)]
    by (auto simp: on_code_def)
qed

lemma inner_step_safe:
  assumes "run_safe rs" "env_ok E" "arena_ok J"
  shows "continues (inner_step E B J budget p rs)"
proof -
  obtain code rs1 where e: "enter_block J budget p rs = (code, rs1)" by fastforce
  have c: "code \<le> RET_PORTIO_DEFER" and m: "run_safe rs1"
    using e assms(1,3) by (auto simp: enter_block_def Let_def arena_ok_def vm_ok_def charge_def split: prod.split_asm)
      (metis fst_conv, metis call_state.select_convs(3) snd_conv)
  obtain nx rs2 where o: "on_code E B J code rs1 = Some (nx, rs2)" "run_safe rs2"
    using on_code_safe [OF m assms(2) c, of J] by (auto simp: continues_def)
  show ?thesis using assms(1) e o by (auto simp: inner_step_def split: run_next.split loc.split)
qed

lemma run_step_safe:
  assumes "run_safe rs" "env_ok E" "arena_ok J"
  obtains nx rs' where "run_step E B J budget l rs = Some (nx, rs')" "run_safe rs'"
proof -
  have "continues (run_step E B J budget l rs)"
    using outer_step_safe [OF assms(1,2)] inner_step_safe [OF assms] by (simp add: run_step_def split: loc.split)
  then show ?thesis using that by (auto simp: continues_def)
qed

lemma run_loop_safe:
  assumes "env_ok E" "arena_ok J"
  shows "run_safe rs \<Longrightarrow> run_loop E B J budget n l rs = Some out \<Longrightarrow> \<exists>e rs'. out = Some (e, rs') \<and> run_safe rs'"
proof (induction n arbitrary: l rs)
  case (Suc n)
  obtain nx rs' where s: "run_step E B J budget l rs = Some (nx, rs')" "run_safe rs'"
    by (rule run_step_safe [OF Suc.prems(1) assms])
  then show ?case using Suc by (cases nx) auto
qed simp

end

section \<open>Properties\<close>

text \<open>
  Property C30: a run with a budget of \<open>b\<close> blocks returns an exit within \<open>3 * b + 2\<close> rounds of the dispatcher and never panics,
  for every guest program, register file and budget; and the machine it leaves can be run again.  It is relied on that
  the decoder and the lifter are well typed (\<open>env_ok\<close>), the backend honours its contract, compiled code never adds to the
  fuel it is handed, returns a code of the ABI and keeps guest memory well formed (\<open>arena_ok\<close>), and that the machine starts with a well-formed
  memory and well-typed interpreted units (a new machine does: its cache is empty).
\<close>
theorem budgeted_run_returns:
  assumes "backend_safe B" "env_ok E" "arena_ok J" "vm_ok wt_block vm"
  shows "\<exists>e v' vm'. vcpu_run E B J (Some b) (3 * unat b + 2) v vm = Some (Some (e, v', vm')) \<and> vm_ok wt_block vm'"
proof -
  let ?n = "3 * unat b + 2"
  have "run_loop E B J (Some b) ?n Outer (run_start v vm) \<noteq> None"
    by (rule run_loop_ends) (use assms(3) in \<open>simp_all add: arena_ok_def within_def rounds_left_def run_start_def\<close>)
  then obtain out where out: "run_loop E B J (Some b) ?n Outer (run_start v vm) = Some out" by blast
  have "run_safe (run_start v vm)" using assms(4) by (simp add: run_start_def)
  from backend_safe.run_loop_safe [OF assms(1-3) this out] obtain e rs' where "out = Some (e, rs')" "run_safe rs'" by blast
  then show ?thesis using out by (simp add: vcpu_run_def Let_def on_cache_def add_chained_def vm_ok_def)
qed

lemma div_env_safe: "env_ok div_env"
  using div_env_ok by (auto simp: env_ok_def)

lemma idle_arena_ok: "arena_ok idle_arena"
  by (simp add: arena_ok_def spends_fuel_def idle_arena_def)

lemma demo_vm_ok: "vm_ok Q demo_vm"
  by (simp add: vm_ok_def demo_vm_def from_mem_def set_tier_up_after_def cache_new_def demo_mem_inv)

theorem budgeted_run_returns_witness:
  "\<exists>e v' vm'. vcpu_run div_env interpreter_backend idle_arena (Some 5) 17 (new_vcpu demo_vm) demo_vm = Some (Some (e, v', vm')) \<and>
     vm_ok wt_block vm'"
  using budgeted_run_returns [OF safe_interp.backend_safe_axioms div_env_safe idle_arena_ok demo_vm_ok, of 5 "new_vcpu demo_vm"] by simp



end
