(* ===== verification/X86_Elf.thy ===== *)
theory X86_Elf
  imports X86_Vm
begin

text \<open>
  The ELF loader (\<^verbatim>\<open>x86jit-elf/src/lib.rs\<close>): mapping of load segments and the initial process stack.  Parsing is done
  by the \<^verbatim>\<open>goblin\<close> crate: \<open>parse\<close> and \<open>notes\<close> are its \<^verbatim>\<open>Elf::parse\<close> and \<^verbatim>\<open>iter_note_headers\<close> (the names of the notes that
  parse), arguments of the definitions that call them, and an \<open>Elf\<close> is the record of the fields the loader reads.  The
  type \<open>'e\<close> is that of the parser's errors.  A function of the stack returns its result with the machine, changed as far
  as it came; \<open>None\<close> on the outside is a panic.
\<close>

unbundle bit_operations_syntax

section \<open>Images\<close>

record ProgramHeader =
  p_type :: u32
  p_offset :: u64
  p_vaddr :: u64
  p_filesz :: u64
  p_memsz :: u64

record Elf =
  little_endian :: bool
  is_64 :: bool
  e_type :: u16
  e_machine :: u16
  e_phoff :: u64
  e_phentsize :: u16
  e_phnum :: u16
  elf_entry :: u64
  elf_interpreter :: "string option"
  program_headers :: "ProgramHeader list"

definition PT_LOAD :: u32 where "PT_LOAD = 1"
definition EM_386 :: u16 where "EM_386 = 3"
definition EM_X86_64 :: u16 where "EM_X86_64 = 62"
definition ET_DYN :: u16 where "ET_DYN = 3"

datatype 'e LoadError = NotElf 'e | Unsupported string | Truncated | MapFailed

text \<open>The operator \<^verbatim>\<open>?\<close>: an error ends the function, with the machine as it is by then.\<close>

definition and_then :: "('e + 'a) \<times> 's \<Rightarrow> ('a \<Rightarrow> 's \<Rightarrow> ('e + 'c) \<times> 's) \<Rightarrow> ('e + 'c) \<times> 's" where
  "and_then r f = (case fst r of Inl e \<Rightarrow> (Inl e, snd r) | Inr v \<Rightarrow> f v (snd r))"

definition vm_write_bytes :: "u64 \<Rightarrow> u8 list \<Rightarrow> 'b Vm \<Rightarrow> ('e LoadError + unit) \<times> 'b Vm" where
  "vm_write_bytes addr bytes vm =
     (case write_bytes addr bytes (vm_mem vm) of
        Inl _ \<Rightarrow> (Inl MapFailed, vm)
      | Inr mem \<Rightarrow> (Inr (), vm\<lparr>vm_mem := mem\<rparr>))"

definition reject_unless_x86_64 :: "Elf \<Rightarrow> 'e LoadError + unit" where
  "reject_unless_x86_64 elf =
     (if \<not> little_endian elf then Inl (Unsupported ''big-endian ELF: only little-endian x86 is supported'')
      else if \<not> is_64 elf then
        Inl (Unsupported ''32-bit ELF passed to the 64-bit loader: use load_static_elf_i386 for i386'')
      else if e_machine elf \<noteq> EM_X86_64 then
        Inl (Unsupported ''unsupported machine: only EM_X86_64 (x86-64 long mode) supported here'')
      else Inr ())"

definition reject_unless_i386 :: "Elf \<Rightarrow> 'e LoadError + unit" where
  "reject_unless_i386 elf =
     (if \<not> little_endian elf then Inl (Unsupported ''big-endian ELF: only little-endian x86 is supported'')
      else if is_64 elf then
        Inl (Unsupported ''64-bit ELF passed to the i386 loader: use load_static_elf for x86-64'')
      else if e_machine elf \<noteq> EM_386 then
        Inl (Unsupported ''unsupported 32-bit machine: only EM_386 (Linux i386) supported in compat mode'')
      else Inr ())"

definition PAGE :: u64 where "PAGE = 4096"

text \<open>One round of the validation loop, from the bounds \<open>(lo, hi)\<close> so far.\<close>

definition check_segment :: "u64 \<Rightarrow> nat \<Rightarrow> ProgramHeader \<Rightarrow> u64 \<times> u64 \<Rightarrow> 'e LoadError + u64 \<times> u64" where
  "check_segment base len ph b =
     (if p_filesz ph > p_memsz ph then Inl (Unsupported ''PT_LOAD with p_filesz > p_memsz'')
      else case checked_add base (p_vaddr ph) of
             None \<Rightarrow> Inl Truncated
           | Some vaddr \<Rightarrow>
               (case checked_add vaddr (p_memsz ph) of
                  None \<Rightarrow> Inl Truncated
                | Some end' \<Rightarrow>
                    (case checked_add (p_offset ph) (p_filesz ph) of
                       None \<Rightarrow> Inl Truncated
                     | Some fend \<Rightarrow>
                         if unat fend > len then Inl Truncated
                         else Inr (min (fst b) vaddr, max (snd b) end'))))"

primrec check_segments :: "u64 \<Rightarrow> nat \<Rightarrow> ProgramHeader list \<Rightarrow> u64 \<times> u64 \<Rightarrow> 'e LoadError + u64 \<times> u64" where
  "check_segments base len [] b = Inr b"
| "check_segments base len (ph # phs) b =
     (case check_segment base len ph b of Inl e \<Rightarrow> Inl e | Inr b \<Rightarrow> check_segments base len phs b)"

text \<open>The writes of the second loop; a file range outside \<open>bytes\<close> is a panic of the slice.\<close>

primrec write_segments ::
    "u64 \<Rightarrow> u8 list \<Rightarrow> ProgramHeader list \<Rightarrow> 'b Vm \<Rightarrow> (('e LoadError + unit) \<times> 'b Vm) option" where
  "write_segments base bytes [] vm = Some (Inr (), vm)"
| "write_segments base bytes (ph # phs) vm =
     (let fstart = p_offset ph; fend = fstart + p_filesz ph
      in if fstart \<le> fend \<and> unat fend \<le> length bytes then
           (case vm_write_bytes (base + p_vaddr ph) (take (unat (p_filesz ph)) (drop (unat fstart) bytes)) vm of
              (Inl e, vm) \<Rightarrow> Some (Inl e, vm)
            | (Inr _, vm) \<Rightarrow> write_segments base bytes phs vm)
         else None)"

definition load_headers :: "Elf \<Rightarrow> ProgramHeader list" where
  "load_headers elf = filter (\<lambda>p. p_type p = PT_LOAD) (program_headers elf)"

definition map_segments ::
    "'b Backend \<Rightarrow> Elf \<Rightarrow> u8 list \<Rightarrow> u64 \<Rightarrow> 'b Vm \<Rightarrow> (('e LoadError + unit) \<times> 'b Vm) option" where
  "map_segments B elf bytes base vm =
     (let loads = load_headers elf
      in if loads = [] then Some (Inl (Unsupported ''ELF has no PT_LOAD segments''), vm)
         else case check_segments base (length bytes) loads (- 1, 0) of
                Inl e \<Rightarrow> Some (Inl e, vm)
              | Inr (lo, hi) \<Rightarrow>
                  let start = lo AND NOT (PAGE - 1)
                  in (case checked_add hi (PAGE - 1) of
                        None \<Rightarrow> Some (Inl Truncated, vm)
                      | Some h \<Rightarrow>
                          let end' = div_ceil h PAGE * PAGE; span = end' - start
                          in do {
                               r \<leftarrow> vm_map B start span ProtRW Ram vm;
                               case r of
                                 Inl _ \<Rightarrow> Some (Inl MapFailed, vm)
                               | Inr vm \<Rightarrow> write_segments base bytes loads vm
                             }))"

section \<open>The loaders\<close>

record DynImage =
  img_entry :: u64
  img_phdr :: u64
  img_phent :: u64
  img_phnum :: u64
  img_base :: u64
  img_exec_entry :: u64

definition load_static ::
    "(u8 list \<Rightarrow> 'e + Elf) \<Rightarrow> (Elf \<Rightarrow> 'e LoadError + unit) \<Rightarrow> 'b Backend \<Rightarrow> u8 list \<Rightarrow> 'b Vm
     \<Rightarrow> (('e LoadError + u64) \<times> 'b Vm) option" where
  "load_static parse reject B bytes vm =
     (case parse bytes of
        Inl e \<Rightarrow> Some (Inl (NotElf e), vm)
      | Inr elf \<Rightarrow>
          (case reject elf of
             Inl e \<Rightarrow> Some (Inl e, vm)
           | Inr _ \<Rightarrow> do {
               r \<leftarrow> map_segments B elf bytes 0 vm;
               Some (and_then r (\<lambda>_ vm. (Inr (elf_entry elf), vm)))
             }))"

definition load_static_elf ::
    "(u8 list \<Rightarrow> 'e + Elf) \<Rightarrow> 'b Backend \<Rightarrow> u8 list \<Rightarrow> 'b Vm \<Rightarrow> (('e LoadError + u64) \<times> 'b Vm) option" where
  "load_static_elf parse = load_static parse reject_unless_x86_64"

definition load_static_elf_i386 ::
    "(u8 list \<Rightarrow> 'e + Elf) \<Rightarrow> 'b Backend \<Rightarrow> u8 list \<Rightarrow> 'b Vm \<Rightarrow> (('e LoadError + u64) \<times> 'b Vm) option" where
  "load_static_elf_i386 parse = load_static parse reject_unless_i386"

definition load_dynamic_elf ::
    "(u8 list \<Rightarrow> 'e + Elf) \<Rightarrow> 'b Backend \<Rightarrow> u8 list \<Rightarrow> u64 \<Rightarrow> u8 list \<Rightarrow> u64 \<Rightarrow> 'b Vm
     \<Rightarrow> (('e LoadError + DynImage) \<times> 'b Vm) option" where
  "load_dynamic_elf parse B exe_bytes exe_base interp_bytes interp_base vm =
     (case parse exe_bytes of
        Inl e \<Rightarrow> Some (Inl (NotElf e), vm)
      | Inr exe \<Rightarrow>
          (case parse interp_bytes of
             Inl e \<Rightarrow> Some (Inl (NotElf e), vm)
           | Inr interp \<Rightarrow>
               (case reject_unless_x86_64 exe of
                  Inl e \<Rightarrow> Some (Inl e, vm)
                | Inr _ \<Rightarrow> do {
                    r \<leftarrow> map_segments B exe exe_bytes exe_base vm;
                    case r of
                      (Inl e, vm) \<Rightarrow> Some (Inl e, vm)
                    | (Inr _, vm) \<Rightarrow> do {
                        r \<leftarrow> map_segments B interp interp_bytes interp_base vm;
                        Some (and_then r (\<lambda>_ vm.
                          (Inr \<lparr>img_entry = interp_base + elf_entry interp, img_phdr = exe_base + e_phoff exe,
                                img_phent = ucast (e_phentsize exe), img_phnum = ucast (e_phnum exe),
                                img_base = interp_base, img_exec_entry = exe_base + elf_entry exe\<rparr>, vm)))
                      }
                  })))"

definition load_static_pie_elf ::
    "(u8 list \<Rightarrow> 'e + Elf) \<Rightarrow> 'b Backend \<Rightarrow> u8 list \<Rightarrow> u64 \<Rightarrow> 'b Vm \<Rightarrow> (('e LoadError + DynImage) \<times> 'b Vm) option" where
  "load_static_pie_elf parse B bytes base vm =
     (case parse bytes of
        Inl e \<Rightarrow> Some (Inl (NotElf e), vm)
      | Inr elf \<Rightarrow>
          (case reject_unless_x86_64 elf of
             Inl e \<Rightarrow> Some (Inl e, vm)
           | Inr _ \<Rightarrow> do {
               r \<leftarrow> map_segments B elf bytes base vm;
               Some (and_then r (\<lambda>_ vm.
                 (Inr \<lparr>img_entry = base + elf_entry elf, img_phdr = base + e_phoff elf,
                       img_phent = ucast (e_phentsize elf), img_phnum = ucast (e_phnum elf),
                       img_base = 0, img_exec_entry = base + elf_entry elf\<rparr>, vm)))
             }))"

definition is_static_pie :: "(u8 list \<Rightarrow> 'e + Elf) \<Rightarrow> u8 list \<Rightarrow> bool" where
  "is_static_pie parse bytes =
     (case parse bytes of Inl _ \<Rightarrow> False | Inr e \<Rightarrow> e_type e = ET_DYN \<and> elf_interpreter e = None)"

definition interp_path :: "(u8 list \<Rightarrow> 'e + Elf) \<Rightarrow> u8 list \<Rightarrow> string option" where
  "interp_path parse bytes = (case parse bytes of Inl _ \<Rightarrow> None | Inr e \<Rightarrow> elf_interpreter e)"

definition load_span :: "(u8 list \<Rightarrow> 'e + Elf) \<Rightarrow> u8 list \<Rightarrow> (u64 \<times> u64) option" where
  "load_span parse bytes =
     (case parse bytes of
        Inl _ \<Rightarrow> None
      | Inr elf \<Rightarrow>
          let (lo, hi) = fold (\<lambda>p (lo, hi). (min lo (p_vaddr p), max hi (p_vaddr p + p_memsz p))) (load_headers elf) (- 1, 0)
          in if lo \<le> hi then Some (lo, hi) else None)"

text \<open>\<^verbatim>\<open>trim_end_matches('\0')\<close>.\<close>

definition trim_nul :: "string \<Rightarrow> string" where
  "trim_nul s = rev (dropWhile (\<lambda>c. c = CHR 0x00) (rev s))"

definition has_go_build_note ::
    "(u8 list \<Rightarrow> 'e + Elf) \<Rightarrow> (Elf \<Rightarrow> u8 list \<Rightarrow> string list option) \<Rightarrow> u8 list \<Rightarrow> bool" where
  "has_go_build_note parse notes bytes =
     (case parse bytes of
        Inl _ \<Rightarrow> False
      | Inr elf \<Rightarrow> (case notes elf bytes of None \<Rightarrow> False | Some ns \<Rightarrow> list_ex (\<lambda>n. trim_nul n = ''Go'') ns))"

section \<open>The initial stack\<close>

definition AT_NULL :: u64 where "AT_NULL = 0"
definition AT_PHDR :: u64 where "AT_PHDR = 3"
definition AT_PHENT :: u64 where "AT_PHENT = 4"
definition AT_PHNUM :: u64 where "AT_PHNUM = 5"
definition AT_PAGESZ :: u64 where "AT_PAGESZ = 6"
definition AT_BASE :: u64 where "AT_BASE = 7"
definition AT_ENTRY :: u64 where "AT_ENTRY = 9"
definition AT_UID :: u64 where "AT_UID = 11"
definition AT_EUID :: u64 where "AT_EUID = 12"
definition AT_GID :: u64 where "AT_GID = 13"
definition AT_EGID :: u64 where "AT_EGID = 14"
definition AT_HWCAP :: u64 where "AT_HWCAP = 16"
definition AT_CLKTCK :: u64 where "AT_CLKTCK = 17"
definition AT_SECURE :: u64 where "AT_SECURE = 23"
definition AT_RANDOM :: u64 where "AT_RANDOM = 25"

record ProcIdentity =
  random :: "u8 list"
  uid :: u64
  euid :: u64
  gid :: u64
  egid :: u64

definition deterministic :: ProcIdentity where
  "deterministic = \<lparr>random = replicate 16 0x5a, uid = 0, euid = 0, gid = 0, egid = 0\<rparr>"

text \<open>The addresses of the strings and the place below them.\<close>

primrec push_strings :: "u64 \<Rightarrow> u8 list list \<Rightarrow> 'b Vm \<Rightarrow> ('e LoadError + u64 list \<times> u64) \<times> 'b Vm" where
  "push_strings p [] vm = (Inr ([], p), vm)"
| "push_strings p (s # ss) vm =
     (let p = p - (of_nat (length s) + 1)
      in and_then (vm_write_bytes p s vm) (\<lambda>_ vm.
         and_then (vm_write_bytes (p + of_nat (length s)) [0] vm) (\<lambda>_ vm.
         and_then (push_strings p ss vm) (\<lambda>(ptrs, q) vm. (Inr (p # ptrs, q), vm)))))"

definition write_word :: "u64 \<Rightarrow> u64 \<Rightarrow> 'b Vm \<Rightarrow> ('e LoadError + u64) \<times> 'b Vm" where
  "write_word at val vm = and_then (vm_write_bytes at (to_le_bytes 8 val) vm) (\<lambda>_ vm. (Inr (at + 8), vm))"

definition write_word32 :: "u64 \<Rightarrow> u64 \<Rightarrow> 'b Vm \<Rightarrow> ('e LoadError + u64) \<times> 'b Vm" where
  "write_word32 at val vm =
     and_then (vm_write_bytes at (to_le_bytes 4 (ucast val :: u32)) vm) (\<lambda>_ vm. (Inr (at + 4), vm))"

text \<open>The loops that write words one after the other; \<open>put\<close> is \<open>write_word\<close> or \<open>write_word32\<close>.\<close>

primrec write_each ::
    "(u64 \<Rightarrow> u64 \<Rightarrow> 'b Vm \<Rightarrow> ('e LoadError + u64) \<times> 'b Vm) \<Rightarrow> u64 \<Rightarrow> u64 list \<Rightarrow> 'b Vm \<Rightarrow> ('e LoadError + u64) \<times> 'b Vm" where
  "write_each put at [] vm = (Inr at, vm)"
| "write_each put at (v # vs) vm = and_then (put at v vm) (\<lambda>at vm. write_each put at vs vm)"

primrec write_auxv ::
    "(u64 \<Rightarrow> u64 \<Rightarrow> 'b Vm \<Rightarrow> ('e LoadError + u64) \<times> 'b Vm) \<Rightarrow> u64 \<Rightarrow> (u64 \<times> u64) list \<Rightarrow> 'b Vm
     \<Rightarrow> ('e LoadError + u64) \<times> 'b Vm" where
  "write_auxv put at [] vm = (Inr at, vm)"
| "write_auxv put at (kv # kvs) vm =
     and_then (put at (fst kv) vm) (\<lambda>at vm.
     and_then (put at (snd kv) vm) (\<lambda>at vm. write_auxv put at kvs vm))"

definition write_vector ::
    "(u64 \<Rightarrow> u64 \<Rightarrow> 'b Vm \<Rightarrow> ('e LoadError + u64) \<times> 'b Vm) \<Rightarrow> u64 \<Rightarrow> nat \<Rightarrow> u64 list \<Rightarrow> u64 list \<Rightarrow> (u64 \<times> u64) list
     \<Rightarrow> 'b Vm \<Rightarrow> ('e LoadError + u64) \<times> 'b Vm" where
  "write_vector put at argc argv_ptrs envp_ptrs auxv vm =
     and_then (put at (of_nat argc) vm) (\<lambda>at vm.
     and_then (write_each put at argv_ptrs vm) (\<lambda>at vm.
     and_then (put at 0 vm) (\<lambda>at vm.
     and_then (write_each put at envp_ptrs vm) (\<lambda>at vm.
     and_then (put at 0 vm) (\<lambda>at vm. write_auxv put at auxv vm)))))"

definition base_auxv :: "u64 \<Rightarrow> ProcIdentity \<Rightarrow> (u64 \<times> u64) list" where
  "base_auxv random_at who =
     [(AT_PAGESZ, 4096), (AT_RANDOM, random_at), (AT_HWCAP, 0), (AT_CLKTCK, 100), (AT_SECURE, 0),
      (AT_UID, uid who), (AT_EUID, euid who), (AT_GID, gid who), (AT_EGID, egid who), (AT_NULL, 0)]"

text \<open>\<^verbatim>\<open>build_stack\<close> and \<^verbatim>\<open>setup_stack_i386\<close> differ in the width \<open>w\<close> of a word and how it is written.\<close>

definition stack_of ::
    "nat \<Rightarrow> (u64 \<Rightarrow> u64 \<Rightarrow> 'b Vm \<Rightarrow> ('e LoadError + u64) \<times> 'b Vm) \<Rightarrow> u64 \<Rightarrow> u8 list list \<Rightarrow> u8 list list
     \<Rightarrow> (u64 \<times> u64) list \<Rightarrow> ProcIdentity \<Rightarrow> 'b Vm \<Rightarrow> ('e LoadError + u64) \<times> 'b Vm" where
  "stack_of w put stack_top argv envp extra_aux who vm =
     and_then (push_strings stack_top argv vm) (\<lambda>(argv_ptrs, p) vm.
     and_then (push_strings p envp vm) (\<lambda>(envp_ptrs, p) vm.
       let random_at = p - 16
       in and_then (vm_write_bytes random_at (random who) vm) (\<lambda>_ vm.
            let auxv = extra_aux @ base_auxv random_at who;
                words = 1 + length argv_ptrs + 1 + length envp_ptrs + 1 + length auxv * 2;
                sp = (random_at - of_nat words * of_nat w) AND NOT 0xf
            in and_then (write_vector put sp (length argv) argv_ptrs envp_ptrs auxv vm) (\<lambda>_ vm. (Inr sp, vm)))))"

definition build_stack ::
    "u64 \<Rightarrow> u8 list list \<Rightarrow> u8 list list \<Rightarrow> (u64 \<times> u64) list \<Rightarrow> ProcIdentity \<Rightarrow> 'b Vm \<Rightarrow> ('e LoadError + u64) \<times> 'b Vm" where
  "build_stack = stack_of 8 write_word"

definition setup_stack_as ::
    "u64 \<Rightarrow> u8 list list \<Rightarrow> u8 list list \<Rightarrow> ProcIdentity \<Rightarrow> 'b Vm \<Rightarrow> ('e LoadError + u64) \<times> 'b Vm" where
  "setup_stack_as stack_top argv envp who = build_stack stack_top argv envp [] who"

definition setup_stack :: "u64 \<Rightarrow> u8 list list \<Rightarrow> u8 list list \<Rightarrow> 'b Vm \<Rightarrow> ('e LoadError + u64) \<times> 'b Vm" where
  "setup_stack stack_top argv envp = build_stack stack_top argv envp [] deterministic"

definition dyn_aux :: "DynImage \<Rightarrow> (u64 \<times> u64) list" where
  "dyn_aux img =
     [(AT_PHDR, img_phdr img), (AT_PHENT, img_phent img), (AT_PHNUM, img_phnum img), (AT_BASE, img_base img),
      (AT_ENTRY, img_exec_entry img)]"

definition setup_stack_dyn_as ::
    "u64 \<Rightarrow> u8 list list \<Rightarrow> u8 list list \<Rightarrow> DynImage \<Rightarrow> ProcIdentity \<Rightarrow> 'b Vm \<Rightarrow> ('e LoadError + u64) \<times> 'b Vm" where
  "setup_stack_dyn_as stack_top argv envp img who = build_stack stack_top argv envp (dyn_aux img) who"

definition setup_stack_dyn ::
    "u64 \<Rightarrow> u8 list list \<Rightarrow> u8 list list \<Rightarrow> DynImage \<Rightarrow> 'b Vm \<Rightarrow> ('e LoadError + u64) \<times> 'b Vm" where
  "setup_stack_dyn stack_top argv envp img = build_stack stack_top argv envp (dyn_aux img) deterministic"

definition setup_stack_i386 :: "u64 \<Rightarrow> u8 list list \<Rightarrow> u8 list list \<Rightarrow> 'b Vm \<Rightarrow> ('e LoadError + u64) \<times> 'b Vm" where
  "setup_stack_i386 stack_top argv envp = stack_of 4 write_word32 stack_top argv envp [] deterministic"

end
