(* ===== verification/X86_Elf_Correct.thy ===== *)
theory X86_Elf_Correct
  imports X86_Vm_Correct X86_Elf
begin

text \<open>
  Correctness of the ELF loader: the initial stack has the layout a process expects, and loading a static image either
  leaves the machine alone or maps one region that holds the image.
\<close>

unbundle bit_operations_syntax

section \<open>Writes into a mapped span\<close>


definition overlay :: "u64 \<Rightarrow> u8 list \<Rightarrow> (u64 \<Rightarrow> u8) \<Rightarrow> u64 \<Rightarrow> u8" where
  "overlay a bs f x = (if unat (x - a) < length bs then bs ! unat (x - a) else f x)"










section \<open>Overlays\<close>


lemma overlay_Nil [simp]: "overlay a [] f = f"
  by (simp add: overlay_def fun_eq_iff)







section \<open>Strings and words\<close>

definition need :: "u8 list list \<Rightarrow> nat" where
  "need ss = sum_list (map (\<lambda>s. length s + 1) ss)"



lemma need_simps [simp]: "need [] = 0" "need (s # ss) = length s + 1 + need ss"
  by (simp_all add: need_def)






section \<open>The vector of words\<close>











section \<open>The stack\<close>












section \<open>Segments\<close>









section \<open>Images\<close>









section \<open>Properties\<close>








definition demo_elf :: Elf where
  "demo_elf = \<lparr>little_endian = True, is_64 = True, e_type = 2, e_machine = 62, e_phoff = 64, e_phentsize = 56, e_phnum = 1,
     elf_entry = 0x1000, elf_interpreter = None,
     program_headers = [\<lparr>p_type = 1, p_offset = 0, p_vaddr = 0x1000, p_filesz = 2, p_memsz = 0x10\<rparr>]\<rparr>"

definition empty_vm :: "unit Vm" where
  "empty_vm = from_mem (the (memory_new (Flat 0x8000) 0)) () Fast"

lemma empty_vm_ok: "mem_inv (vm_mem empty_vm)" "model (vm_mem empty_vm) = Flat 0x8000" "regions (vm_mem empty_vm) = []"
  "guest_base (vm_mem empty_vm) = 0" "mem_size (vm_mem empty_vm) = 0x8000"
proof -
  obtain m where m: "memory_new (Flat 0x8000) 0 = Some m"
    by (auto simp: memory_new_def from_backing_def fresh_code_pages_def MAX_TRACKED_SPAN_def CODE_PAGE_BITS_def saturating_add_def)
  have e: "vm_mem empty_vm = m" by (simp add: empty_vm_def from_mem_def m)
  show "mem_inv (vm_mem empty_vm)" unfolding e by (rule reachable_inv) (rule reach_new [OF m])
  have f: "model m = Flat 0x8000" "regions m = []" "guest_base m = 0"
    using m by (auto simp: memory_new_def from_backing_def bind_eq_Some_conv Let_def)
  then show "model (vm_mem empty_vm) = Flat 0x8000" "regions (vm_mem empty_vm) = []"
    "guest_base (vm_mem empty_vm) = 0" "mem_size (vm_mem empty_vm) = 0x8000"
    by (simp_all add: e mem_size_def)
qed



text \<open>
  The bound on the end of a segment is needed.  The end of the image is rounded up to a page twice; for an image that ends in the last page
  it wraps to 0, the region is mapped with size 0, and the write of the file bytes fails with that region left behind, or, without file bytes, loading
  succeeds with nothing mapped.
\<close>
lemma wrapped_image_leaves_region:
  "\<exists>vm'. map_segments interpreter_backend
       (demo_elf\<lparr>program_headers := [\<lparr>p_type = 1, p_offset = 0, p_vaddr = 0, p_filesz = 1, p_memsz = 0xFFFFFFFFFFFFF000\<rparr>]\<rparr>)
       [0x90] 0 empty_vm = Some (Inl MapFailed :: unit LoadError + unit, vm') \<and>
     regions (vm_mem empty_vm) = [] \<and>
     regions (vm_mem vm') = [\<lparr>region_start = 0, region_size = 0, region_prot = ProtRW, region_kind = Ram\<rparr>] \<and>
   (\<exists>vm''. map_segments interpreter_backend
       (demo_elf\<lparr>program_headers := [\<lparr>p_type = 1, p_offset = 0, p_vaddr = 0, p_filesz = 0, p_memsz = 0xFFFFFFFFFFFFF000\<rparr>]\<rparr>)
       [] 0 empty_vm = Some (Inr () :: unit LoadError + unit, vm'') \<and> \<not> mem_readable (vm_mem vm'') 0 1)"
proof -
  let ?r = "\<lparr>region_start = 0, region_size = 0, region_prot = ProtRW, region_kind = Ram\<rparr>"
  obtain vm1 where vm1: "vm_map interpreter_backend 0 0 ProtRW Ram empty_vm = Some (Inr vm1)" "regions (vm_mem vm1) = [?r]"
    by (auto simp: vm_map_def mem_map_def empty_vm_ok checked_add_def reprotect_def)
  have w: "write_bytes 0 [0x90] (vm_mem vm1) = Inl MemUnmapped"
    by (simp add: write_bytes_def region_for_def checked_add_def vm1(2) region_contains_def region_end_def)
  obtain mem2 where w2: "write_bytes 0 [] (vm_mem vm1) = Inr mem2" "regions mem2 = [?r]"
    by (auto simp: write_bytes_def region_for_def checked_add_def vm1(2) region_contains_def region_end_def)
  have z: "(18446744073709551616 :: u64) = 0" by (simp add: word_unat_eq_iff)
  note defs = z map_segments_def load_headers_def PT_LOAD_def check_segment_def checked_add_def PAGE_def div_ceil_def Let_def
  show ?thesis
    by (auto simp: defs vm1 w w2 vm_write_bytes_def empty_vm_ok mem_readable_def lookup_region_def region_for_def
        region_contains_def region_end_def)
qed

end
