(* ===== verification/X86_F80.thy ===== *)
theory X86_F80
  imports X86_Memory
begin

text \<open>
  The software 80-bit extended float (\<^verbatim>\<open>f80.rs\<close>): encodings, conversions, the arithmetic with its rounding and
  exception flags, and comparison.  An \<^verbatim>\<open>i32\<close> exponent is an \<open>int\<close>: operands have exponents between -16446 and 16383, so
  no sum or difference of two of them leaves the range of the type.
\<close>

unbundle bit_operations_syntax

section \<open>Values, control word and exceptions\<close>

datatype Class = ClZero | ClNormal | ClInf | ClNan | ClUnsupported

record F80 =
  f_sign :: bool
  f_class :: Class
  f_exp :: int
  f_sig :: u64

text \<open>\<^verbatim>\<open>core::cmp::Ordering\<close>.\<close>

datatype Ordering = OrdLess | OrdEqual | OrdGreater

definition ord_of :: "'a::linorder \<Rightarrow> 'a \<Rightarrow> Ordering" where
  "ord_of a b = (if a < b then OrdLess else if a = b then OrdEqual else OrdGreater)"

text \<open>\<^verbatim>\<open>Ctl\<close> is the control word itself; \<^verbatim>\<open>Ctl::RESET\<close> is \<open>CTL_RESET\<close>.\<close>

type_synonym Ctl = u16

definition ctl_rc :: "Ctl \<Rightarrow> nat" where
  "ctl_rc c = unat (drop_bit 10 c AND 3)"

definition masks_underflow :: "Ctl \<Rightarrow> bool" where
  "masks_underflow c \<longleftrightarrow> c AND push_bit 4 1 \<noteq> 0"

definition sig_bits :: "Ctl \<Rightarrow> nat" where
  "sig_bits c = (let pc = drop_bit 8 c AND 3 in if pc = 0 then 24 else if pc = 2 then 53 else 64)"

type_synonym Exc = u16

definition EXC_NONE :: Exc where "EXC_NONE = 0"
definition EXC_IE :: Exc where "EXC_IE = push_bit 0 1"
definition EXC_DE :: Exc where "EXC_DE = push_bit 1 1"
definition EXC_ZE :: Exc where "EXC_ZE = push_bit 2 1"
definition EXC_OE :: Exc where "EXC_OE = push_bit 3 1"
definition EXC_UE :: Exc where "EXC_UE = push_bit 4 1"
definition EXC_PE :: Exc where "EXC_PE = push_bit 5 1"
definition EXC_SF :: Exc where "EXC_SF = push_bit 6 1"

definition BIAS :: int where "BIAS = 16383"
definition EXP_MAX :: int where "EXP_MAX = 0x7fff"
definition EMAX :: int where "EMAX = EXP_MAX - 1 - BIAS"
definition EMIN :: int where "EMIN = 1 - BIAS"

definition f80_inf :: "bool \<Rightarrow> F80" where
  "f80_inf s = \<lparr>f_sign = s, f_class = ClInf, f_exp = 0, f_sig = 0\<rparr>"

definition f80_zero :: "bool \<Rightarrow> F80" where
  "f80_zero s = \<lparr>f_sign = s, f_class = ClZero, f_exp = 0, f_sig = 0\<rparr>"

definition indefinite :: F80 where
  "indefinite = \<lparr>f_sign = True, f_class = ClNan, f_exp = 0, f_sig = 0xC000000000000000\<rparr>"

definition is_snan :: "F80 \<Rightarrow> bool" where
  "is_snan a \<longleftrightarrow> f_class a = ClNan \<and> f_sig a AND 0x4000000000000000 = 0"

definition operand_raises_invalid :: "F80 \<Rightarrow> bool" where
  "operand_raises_invalid a \<longleftrightarrow> is_snan a \<or> f_class a = ClUnsupported"

definition binary_operand_exc :: "F80 \<Rightarrow> F80 \<Rightarrow> Exc" where
  "binary_operand_exc a b =
     (if operand_raises_invalid a \<or> operand_raises_invalid b then EXC_IE else EXC_NONE)"

definition quieted :: "F80 \<Rightarrow> F80" where
  "quieted a = a\<lparr>f_sig := f_sig a OR 0x4000000000000000\<rparr>"

definition binary_nan :: "F80 \<Rightarrow> F80 \<Rightarrow> F80 option" where
  "binary_nan a b =
     (if f_class a = ClUnsupported \<or> f_class b = ClUnsupported then Some indefinite
      else case (f_class a = ClNan, f_class b = ClNan) of
             (False, False) \<Rightarrow> None
           | (True, False) \<Rightarrow> Some (quieted a)
           | (False, True) \<Rightarrow> Some (quieted b)
           | (True, True) \<Rightarrow>
               Some (quieted (case (is_snan a, is_snan b) of
                                (True, False) \<Rightarrow> b
                              | (False, True) \<Rightarrow> a
                              | _ \<Rightarrow> if f_sig b > f_sig a then b else a)))"

definition unary_nan :: "F80 \<Rightarrow> F80 option" where
  "unary_nan a =
     (case f_class a of ClUnsupported \<Rightarrow> Some indefinite | ClNan \<Rightarrow> Some (quieted a) | _ \<Rightarrow> None)"

section \<open>Encodings\<close>

definition INT_BIT :: u64 where "INT_BIT = 0x8000000000000000"

definition f80_from_bytes :: "u8 list \<Rightarrow> F80" where
  "f80_from_bytes b =
     (let sg = from_le_bytes (take 8 b) :: u64;
          se = from_le_bytes (take 2 (drop 8 b)) :: u16;
          s = (drop_bit 15 se AND 1 \<noteq> 0);
          biased = uint (se AND 0x7fff);
          integer_bit = (sg AND INT_BIT \<noteq> 0)
      in if biased = EXP_MAX then
           if \<not> integer_bit then \<lparr>f_sign = s, f_class = ClUnsupported, f_exp = biased, f_sig = sg\<rparr>
           else if sg = INT_BIT then f80_inf s
           else \<lparr>f_sign = s, f_class = ClNan, f_exp = 0, f_sig = sg\<rparr>
         else if biased = 0 then
           if sg = 0 then f80_zero s
           else let shift = leading_zeros sg
                in \<lparr>f_sign = s, f_class = ClNormal, f_exp = EMIN - int shift, f_sig = push_bit shift sg\<rparr>
         else if \<not> integer_bit then \<lparr>f_sign = s, f_class = ClUnsupported, f_exp = biased, f_sig = sg\<rparr>
         else \<lparr>f_sign = s, f_class = ClNormal, f_exp = biased - BIAS, f_sig = sg\<rparr>)"

definition encode_normal :: "F80 \<Rightarrow> u64 \<times> u16" where
  "encode_normal a =
     (let e = f_exp a + BIAS
      in if e \<ge> EXP_MAX then (INT_BIT, 0x7fff)
         else if e \<le> 0 then
           let shift = nat (1 - e) in if shift \<ge> 64 then (0, 0) else (drop_bit shift (f_sig a), 0)
         else (f_sig a, of_int e))"

definition f80_to_bytes :: "F80 \<Rightarrow> u8 list" where
  "f80_to_bytes a =
     (let (sg, biased) =
        (case f_class a of
           ClZero \<Rightarrow> (0, 0)
         | ClInf \<Rightarrow> (INT_BIT, 0x7fff)
         | ClNan \<Rightarrow> (f_sig a OR INT_BIT, 0x7fff)
         | ClUnsupported \<Rightarrow> (f_sig a, of_int (f_exp a))
         | ClNormal \<Rightarrow> encode_normal a);
          se = push_bit 15 (of_flag (f_sign a)) OR (biased AND 0x7fff) :: u16
      in to_le_bytes 8 sg @ to_le_bytes 2 se)"

text \<open>\<^verbatim>\<open>v >> n\<close> rounded to nearest, ties to even.\<close>

definition round_shift :: "u64 \<Rightarrow> nat \<Rightarrow> u64" where
  "round_shift v n =
     (if n = 0 then v
      else if n \<ge> 64 then 0
      else let dropped = v AND (push_bit n 1 - 1); half = push_bit (n - 1) 1; r = drop_bit n v
           in if dropped > half \<or> (dropped = half \<and> r AND 1 \<noteq> 0) then r + 1 else r)"

definition f80_from_f64 :: "u64 \<Rightarrow> F80" where
  "f80_from_f64 v =
     (let s = (drop_bit 63 v AND 1 \<noteq> 0);
          e = uint (drop_bit 52 v AND 0x7ff);
          frac = v AND 0xfffffffffffff
      in if e = 0x7ff then
           if frac = 0 then f80_inf s
           else \<lparr>f_sign = s, f_class = ClNan, f_exp = 0, f_sig = push_bit 11 frac OR 0xC000000000000000\<rparr>
         else if e = 0 then
           if frac = 0 then f80_zero s
           else let shift = leading_zeros frac - 11
                in \<lparr>f_sign = s, f_class = ClNormal, f_exp = (1 - 1023) - int shift, f_sig = push_bit (shift + 11) frac\<rparr>
         else \<lparr>f_sign = s, f_class = ClNormal, f_exp = e - 1023, f_sig = push_bit 63 1 OR push_bit 11 frac\<rparr>)"

definition f80_to_f64 :: "F80 \<Rightarrow> u64" where
  "f80_to_f64 a =
     (let sgn = push_bit 63 (of_flag (f_sign a))
      in case f_class a of
           ClZero \<Rightarrow> sgn
         | ClInf \<Rightarrow> sgn OR push_bit 52 0x7ff
         | ClNan \<Rightarrow> sgn OR push_bit 52 0x7ff OR max (drop_bit 11 (f_sig a) AND 0xfffffffffffff) 1
         | ClUnsupported \<Rightarrow> 0xFFF8000000000000
         | ClNormal \<Rightarrow>
             let m0 = round_shift (f_sig a) 11;
                 carry = (drop_bit 53 m0 \<noteq> 0);
                 m = (if carry then drop_bit 1 m0 else m0);
                 e = (if carry then f_exp a + 1 else f_exp a);
                 biased = e + 1023
             in if biased \<ge> 0x7ff then sgn OR push_bit 52 0x7ff
                else if biased \<le> 0 then
                  let shift = nat (1 - biased) + 11
                  in if shift \<ge> 64 then sgn else sgn OR round_shift (f_sig a) shift
                else sgn OR push_bit 52 (of_int biased) OR (m AND 0xfffffffffffff))"

section \<open>Integers\<close>

text \<open>An \<^verbatim>\<open>i64\<close> is its 64-bit pattern.\<close>

definition f80_from_i64 :: "u64 \<Rightarrow> F80" where
  "f80_from_i64 v =
     (if v = 0 then f80_zero False
      else let s = (sint v < 0);
               mag = (if s then - v else v);
               shift = leading_zeros mag
           in \<lparr>f_sign = s, f_class = ClNormal, f_exp = 63 - int shift, f_sig = push_bit shift mag\<rparr>)"

definition apply_sign :: "u64 \<Rightarrow> bool \<Rightarrow> u64" where
  "apply_sign mag s = (if s then - mag else mag)"

definition decide_round :: "u64 \<Rightarrow> u64 \<Rightarrow> u64 \<Rightarrow> bool \<Rightarrow> nat \<Rightarrow> bool" where
  "decide_round i frac half s rc =
     (if rc = 1 then s \<and> frac \<noteq> 0
      else if rc = 2 then \<not> s \<and> frac \<noteq> 0
      else if rc = 3 then False
      else frac > half \<or> (frac = half \<and> i AND 1 \<noteq> 0))"

definition round_fraction_up :: "bool \<Rightarrow> nat \<Rightarrow> bool" where
  "round_fraction_up s rc = (if rc = 1 then s else if rc = 2 then \<not> s else False)"

definition to_i64_rc :: "F80 \<Rightarrow> nat \<Rightarrow> u64" where
  "to_i64_rc a rc =
     (case f_class a of
        ClZero \<Rightarrow> 0
      | ClNormal \<Rightarrow>
          let e = f_exp a
          in if e \<ge> 63 then INT_BIT
             else if e < -1 then if round_fraction_up (f_sign a) rc then apply_sign 1 (f_sign a) else 0
             else if e = -1 then apply_sign (of_flag (decide_round 0 (f_sig a) (push_bit 63 1) (f_sign a) rc)) (f_sign a)
             else let shift = nat (63 - e);
                      i = drop_bit shift (f_sig a);
                      frac = f_sig a AND (push_bit shift 1 - 1);
                      half = push_bit (shift - 1) 1
                  in apply_sign (i + of_flag (decide_round i frac half (f_sign a) rc)) (f_sign a)
      | _ \<Rightarrow> INT_BIT)"

section \<open>Rounding\<close>

definition max_finite :: "bool \<Rightarrow> F80" where
  "max_finite s = \<lparr>f_sign = s, f_class = ClNormal, f_exp = EMAX, f_sig = - 1\<rparr>"

definition overflow_to_inf :: "Ctl \<Rightarrow> bool \<Rightarrow> bool" where
  "overflow_to_inf ctl s =
     (if ctl_rc ctl = 0 then True else if ctl_rc ctl = 1 then s else if ctl_rc ctl = 2 then \<not> s else False)"

definition finish_exc :: "bool \<Rightarrow> int \<Rightarrow> u64 \<Rightarrow> Ctl \<Rightarrow> bool \<Rightarrow> F80 \<times> Exc" where
  "finish_exc s e sg ctl inexact =
     (let exc = (if inexact then EXC_PE else EXC_NONE)
      in if e > EMAX then
           (if overflow_to_inf ctl s then f80_inf s else max_finite s, exc OR EXC_OE OR EXC_PE)
         else
           let shift = nat (EMIN - e);
               loses = (shift \<ge> 64 \<or> sg AND (push_bit shift 1 - 1) \<noteq> 0);
               tiny_inexact = (inexact \<or> loses);
               exc1 = (if tiny_inexact then exc OR EXC_PE else exc);
               exc2 = (if \<not> masks_underflow ctl \<or> tiny_inexact then exc1 OR EXC_UE else exc1);
               v = \<lparr>f_sign = s, f_class = ClNormal, f_exp = e, f_sig = sg\<rparr>
           in if e < EMIN then (if e < EMIN - 64 then f80_zero s else v, exc2) else (v, exc))"

definition pack_normal_exc :: "bool \<Rightarrow> int \<Rightarrow> u64 \<Rightarrow> Ctl \<Rightarrow> bool \<Rightarrow> F80 \<times> Exc" where
  "pack_normal_exc s e sg ctl inexact =
     (if sg = 0 then (f80_zero s, if inexact then EXC_PE else EXC_NONE)
      else if drop_bit 63 sg = 0 then
        let sh = leading_zeros sg in finish_exc s (e - int sh) (push_bit sh sg) ctl inexact
      else finish_exc s e sg ctl inexact)"

definition rounds_up :: "nat \<Rightarrow> bool \<Rightarrow> bool \<Rightarrow> Ordering \<Rightarrow> bool \<Rightarrow> bool" where
  "rounds_up rc s lsb_odd cmp_half inexact =
     (if rc = 0 then cmp_half = OrdGreater \<or> (cmp_half = OrdEqual \<and> lsb_odd)
      else if rc = 1 then inexact \<and> s
      else if rc = 2 then inexact \<and> \<not> s
      else False)"

text \<open>The kept bits, how the discarded part compares with half of the last kept bit, and whether there is one.\<close>

definition kept_part :: "u128 \<Rightarrow> Ordering option \<Rightarrow> int \<Rightarrow> u64 \<times> Ordering \<times> bool" where
  "kept_part m frac excess =
     (if excess > 0 then
        let sh = nat excess;
            dropped = m AND (push_bit sh 1 - 1);
            cmp = ord_of dropped (push_bit (sh - 1) 1)
        in (ucast (drop_bit sh m), if cmp = OrdEqual \<and> frac \<noteq> None then OrdGreater else cmp, dropped \<noteq> 0 \<or> frac \<noteq> None)
      else
        let sh = nat (- excess)
        in (ucast (push_bit sh m),
            (case frac of None \<Rightarrow> OrdLess | Some ord \<Rightarrow> if sh > 0 then OrdLess else ord), frac \<noteq> None))"

text \<open>The increment of the kept bits, with the carry out of the field.\<close>

definition round_kept :: "nat \<Rightarrow> bool \<Rightarrow> u64 \<Rightarrow> int \<Rightarrow> u64 \<times> int" where
  "round_kept p up kept e =
     (if \<not> up then (kept, e)
      else if p \<ge> 64 then if kept = - 1 then (push_bit 63 1, e + 1) else (kept + 1, e)
      else if drop_bit p (kept + 1) \<noteq> 0 then (drop_bit 1 (kept + 1), e + 1) else (kept + 1, e))"

definition normalize_round_frac_exc ::
    "bool \<Rightarrow> int \<Rightarrow> u128 \<Rightarrow> Ordering option \<Rightarrow> Ctl \<Rightarrow> F80 \<times> Exc" where
  "normalize_round_frac_exc s ref_exp m frac ctl =
     (if m = 0 then (f80_zero s, EXC_NONE)
      else
        let p = sig_bits ctl;
            hb = 127 - int (leading_zeros m);
            e = ref_exp - (127 - hb);
            (kept, cmp_half, inexact) = kept_part m frac (hb - (int p - 1));
            (kept, e) = round_kept p (rounds_up (ctl_rc ctl) s (kept AND 1 \<noteq> 0) cmp_half inexact) kept e
        in pack_normal_exc s e (push_bit (64 - p) kept) ctl inexact)"

definition normalize_round_exc :: "bool \<Rightarrow> int \<Rightarrow> u128 \<Rightarrow> Ctl \<Rightarrow> F80 \<times> Exc" where
  "normalize_round_exc s ref_exp m ctl = normalize_round_frac_exc s ref_exp m None ctl"

section \<open>Arithmetic\<close>

definition with_exc :: "Exc \<Rightarrow> F80 \<times> Exc \<Rightarrow> F80 \<times> Exc" where
  "with_exc base r = (fst r, base OR snd r)"

text \<open>The smaller operand shifted to the exponent of the larger, with a sticky bit for what fell off.\<close>

definition align_low :: "u64 \<Rightarrow> nat \<Rightarrow> u128" where
  "align_low lo shift =
     (if shift \<ge> 128 then if lo \<noteq> 0 then 1 else 0
      else
        let base = push_bit 64 (ucast lo); shifted = drop_bit shift base
        in if shift > 0 \<and> base AND (push_bit shift 1 - 1) \<noteq> 0 then shifted OR 1 else shifted)"

definition add_normals :: "F80 \<Rightarrow> F80 \<Rightarrow> Ctl \<Rightarrow> F80 \<times> Exc" where
  "add_normals a b ctl =
     (let (hi, lo) = (if f_exp a \<ge> f_exp b then (a, b) else (b, a));
          hm = push_bit 64 (ucast (f_sig hi)) :: u128;
          lm = align_low (f_sig lo) (nat (f_exp hi - f_exp lo))
      in if f_sign hi = f_sign lo then
           let sum = hm + lm
           in if sum < hm then normalize_round_exc (f_sign hi) (f_exp hi + 1) (drop_bit 1 sum OR push_bit 127 1) ctl
              else normalize_round_exc (f_sign hi) (f_exp hi) sum ctl
         else if hm \<ge> lm then
           if hm - lm = 0 then (f80_zero False, EXC_NONE)
           else normalize_round_exc (f_sign hi) (f_exp hi) (hm - lm) ctl
         else normalize_round_exc (f_sign lo) (f_exp hi) (lm - hm) ctl)"

definition add_sub :: "F80 \<Rightarrow> F80 \<Rightarrow> bool \<Rightarrow> Ctl \<Rightarrow> F80 \<times> Exc" where
  "add_sub a b0 subtract ctl =
     (let base = binary_operand_exc a b0
      in case binary_nan a b0 of
           Some n \<Rightarrow> (n, base)
         | None \<Rightarrow>
             let b = (if subtract then b0\<lparr>f_sign := \<not> f_sign b0\<rparr> else b0)
             in (case (f_class a, f_class b) of
                   (ClInf, ClInf) \<Rightarrow>
                     if f_sign a = f_sign b then (f80_inf (f_sign a), base) else (indefinite, base OR EXC_IE)
                 | (ClInf, ClZero) \<Rightarrow> (f80_inf (f_sign a), base)
                 | (ClInf, ClNormal) \<Rightarrow> (f80_inf (f_sign a), base)
                 | (ClZero, ClInf) \<Rightarrow> (f80_inf (f_sign b), base)
                 | (ClNormal, ClInf) \<Rightarrow> (f80_inf (f_sign b), base)
                 | (ClZero, ClZero) \<Rightarrow> (f80_zero (f_sign a \<and> f_sign b), base)
                 | (ClZero, ClNormal) \<Rightarrow> (b, base)
                 | (ClNormal, ClZero) \<Rightarrow> (a, base)
                 | (ClNormal, ClNormal) \<Rightarrow> with_exc base (add_normals a b ctl)
                 | _ \<Rightarrow> (indefinite, base OR EXC_IE)))"

definition mul_ctl :: "F80 \<Rightarrow> F80 \<Rightarrow> Ctl \<Rightarrow> F80 \<times> Exc" where
  "mul_ctl a b ctl =
     (let s = (f_sign a \<noteq> f_sign b); base = binary_operand_exc a b
      in case binary_nan a b of
           Some n \<Rightarrow> (n, base)
         | None \<Rightarrow>
             (case (f_class a, f_class b) of
                (ClInf, ClZero) \<Rightarrow> (indefinite, base OR EXC_IE)
              | (ClZero, ClInf) \<Rightarrow> (indefinite, base OR EXC_IE)
              | (ClInf, ClInf) \<Rightarrow> (f80_inf s, base)
              | (ClInf, ClNormal) \<Rightarrow> (f80_inf s, base)
              | (ClNormal, ClInf) \<Rightarrow> (f80_inf s, base)
              | (ClZero, ClZero) \<Rightarrow> (f80_zero s, base)
              | (ClZero, ClNormal) \<Rightarrow> (f80_zero s, base)
              | (ClNormal, ClZero) \<Rightarrow> (f80_zero s, base)
              | (ClNormal, ClNormal) \<Rightarrow>
                  with_exc base
                    (normalize_round_exc s (f_exp a + f_exp b + 1) (ucast (f_sig a) * ucast (f_sig b)) ctl)
              | _ \<Rightarrow> (indefinite, base OR EXC_IE)))"

definition div_ctl :: "F80 \<Rightarrow> F80 \<Rightarrow> Ctl \<Rightarrow> F80 \<times> Exc" where
  "div_ctl a b ctl =
     (let s = (f_sign a \<noteq> f_sign b); base = binary_operand_exc a b
      in case binary_nan a b of
           Some n \<Rightarrow> (n, base)
         | None \<Rightarrow>
             (case (f_class a, f_class b) of
                (ClInf, ClInf) \<Rightarrow> (indefinite, base OR EXC_IE)
              | (ClZero, ClZero) \<Rightarrow> (indefinite, base OR EXC_IE)
              | (ClInf, ClZero) \<Rightarrow> (f80_inf s, base)
              | (ClInf, ClNormal) \<Rightarrow> (f80_inf s, base)
              | (ClZero, ClInf) \<Rightarrow> (f80_zero s, base)
              | (ClNormal, ClInf) \<Rightarrow> (f80_zero s, base)
              | (ClNormal, ClZero) \<Rightarrow> (f80_inf s, base OR EXC_ZE)
              | (ClZero, ClNormal) \<Rightarrow> (f80_zero s, base)
              | (ClNormal, ClNormal) \<Rightarrow>
                  let num = push_bit 64 (ucast (f_sig a)) :: u128;
                      q = num div ucast (f_sig b);
                      rem = num mod ucast (f_sig b);
                      frac = (if rem \<noteq> 0 then Some (ord_of (2 * rem) (ucast (f_sig b))) else None)
                  in with_exc base (normalize_round_frac_exc s (f_exp a - f_exp b + 63) q frac ctl)
              | _ \<Rightarrow> (indefinite, base OR EXC_IE)))"

text \<open>
  \<^verbatim>\<open>isqrt128\<close>: Newton's iteration from above, stopped when it no longer falls, and the final correction loop.
\<close>

function newton :: "u128 \<Rightarrow> u128 \<Rightarrow> u128" where
  "newton x r = (let nr = (r + x div r) div 2 in if nr \<ge> r then r else newton x nr)"
  by pat_completeness auto
termination
  by (relation "measure (\<lambda>(x, r). unat r)") (auto simp: not_le simp flip: word_less_nat_alt)

function isqrt_down :: "u128 \<Rightarrow> u128 \<Rightarrow> u128" where
  "isqrt_down x r = (if r * r > x then isqrt_down x (r - 1) else r)"
  by pat_completeness auto
termination
proof (relation "measure (\<lambda>(x, r). unat r)")
  fix x r :: u128
  assume "r * r > x"
  then have "r \<noteq> 0" by auto
  then show "((x, r - 1), (x, r)) \<in> measure (\<lambda>(x, r). unat r)" by (simp add: unat_minus_one unat_gt_0)
qed simp

definition isqrt128 :: "u128 \<Rightarrow> u128 \<times> u128" where
  "isqrt128 x =
     (if x = 0 then (0, 0)
      else let r = isqrt_down x (newton x (push_bit ((128 - leading_zeros x) div 2 + 1) 1))
           in (r, x - r * r))"

definition sqrt_ctl :: "F80 \<Rightarrow> Ctl \<Rightarrow> F80 \<times> Exc" where
  "sqrt_ctl a ctl =
     (let base = (if operand_raises_invalid a then EXC_IE else EXC_NONE)
      in case unary_nan a of
           Some n \<Rightarrow> (n, base)
         | None \<Rightarrow>
             if f_class a = ClNan \<or> f_class a = ClUnsupported then (indefinite, base OR EXC_IE)
             else if f_class a = ClZero then (f80_zero (f_sign a), base)
             else if f_sign a then (indefinite, base OR EXC_IE)
             else if f_class a = ClInf then (f80_inf False, base)
             else
               let e2 = f_exp a - 63;
                   s = (if even e2 then 64 else 63);
                   x = push_bit s (ucast (f_sig a)) :: u128;
                   (root, rem) = isqrt128 x;
                   frac = (if rem \<noteq> 0 then Some (if rem > root then OrdGreater else OrdLess) else None)
               in with_exc base (normalize_round_frac_exc False ((e2 - int s) div 2 + 127) root frac ctl))"

definition f80_add :: "F80 \<Rightarrow> F80 \<Rightarrow> F80" where
  "f80_add a b = fst (add_sub a b False CTL_RESET)"

definition f80_sub :: "F80 \<Rightarrow> F80 \<Rightarrow> F80" where
  "f80_sub a b = fst (add_sub a b True CTL_RESET)"

definition f80_mul :: "F80 \<Rightarrow> F80 \<Rightarrow> F80" where
  "f80_mul a b = fst (mul_ctl a b CTL_RESET)"

definition f80_div :: "F80 \<Rightarrow> F80 \<Rightarrow> F80" where
  "f80_div a b = fst (div_ctl a b CTL_RESET)"

definition f80_rem :: "F80 \<Rightarrow> F80 \<Rightarrow> F80" where
  "f80_rem a b =
     (case binary_nan a b of
        Some n \<Rightarrow> n
      | None \<Rightarrow>
          if f_class a = ClInf \<or> f_class b = ClZero then indefinite
          else if f_class a = ClZero \<or> f_class b = ClInf then a
          else f80_sub a (f80_mul (f80_from_i64 (to_i64_rc (f80_div a b) 3)) b))"

section \<open>Comparison and signs\<close>

text \<open>
  \<^verbatim>\<open>ordered_key\<close> is an \<^verbatim>\<open>i128\<close>; \<open>exp << 64\<close> and \<open>or\<close> of the unsigned significand stay within it.
\<close>

definition ordered_key :: "F80 \<Rightarrow> int" where
  "ordered_key a =
     (let mag = (case f_class a of
                   ClInf \<Rightarrow> (2 ^ 127 - 1) div 2
                 | ClNormal \<Rightarrow> push_bit 64 (f_exp a) OR uint (f_sig a)
                 | _ \<Rightarrow> 0)
      in if f_sign a then - mag else mag)"

definition f80_compare :: "F80 \<Rightarrow> F80 \<Rightarrow> bool \<times> bool \<times> bool" where
  "f80_compare a b =
     (if f_class a = ClNan \<or> f_class b = ClNan then (True, True, True)
      else let av = ordered_key a; bv = ordered_key b
           in if av = bv then (True, False, False)
              else if av < bv then (False, False, True)
              else (False, False, False))"

definition f80_abs :: "F80 \<Rightarrow> F80" where
  "f80_abs a = a\<lparr>f_sign := False\<rparr>"

definition f80_neg :: "F80 \<Rightarrow> F80" where
  "f80_neg a = a\<lparr>f_sign := \<not> f_sign a\<rparr>"

end
