(* ===== verification/Spec2Isabelle.thy ===== *)
theory Spec2Isabelle
  imports X86_Elide_Correct X86_Mem_Reach X86_Crypto_Correct X86_Run_Safe X86_Elf_Correct X86_F80
begin

text \<open>
  \<^bold>\<open>x86jit, an embeddable x86 emulator: a verification development.\<close>

  \<^bold>\<open>The program.\<close>  An embedder creates a machine (\<^verbatim>\<open>Vm\<close>, \<^verbatim>\<open>src/x86jit-core/src/vm.rs\<close>), maps guest memory
  (\<^verbatim>\<open>memory.rs\<close>) and runs virtual CPUs (\<^verbatim>\<open>Vcpu\<close>).  A virtual CPU asks the machine for a translation of the code at its
  program counter.  The machine looks in the translation cache (\<^verbatim>\<open>cache.rs\<close>); on a miss the lifter (\<^verbatim>\<open>lift/\<close>) decodes
  guest instructions with the \<^verbatim>\<open>iced-x86\<close> crate into blocks of intermediate operations (\<^verbatim>\<open>ir.rs\<close>), narrows their flag
  masks, and a backend turns the block into something to run: the interpreter (\<^verbatim>\<open>interp/\<close>) keeps it as it is, the
  Cranelift crate compiles it.  Stores to memory that holds translated code are noticed through page tags, reported to
  the dispatcher and answered with an invalidation of the cache.

  \<^bold>\<open>Conventions.\<close>  A Rust integer is a word of its width; arithmetic wraps as in a release build, and the arithmetic of
  \<^verbatim>\<open>i128\<close> and \<^verbatim>\<open>i32\<close> values that are known to be in range is on \<open>int\<close>.  Operand sizes are numbers of bytes.  A struct is
  a \<open>record\<close>, an enum a \<open>datatype\<close>.  A method that changes its receiver returns the changed record.  An \<^verbatim>\<open>Err\<close> is the left
  of a sum; \<open>None\<close> is a panic of the source, except in the lifting functions of \<open>X86_Lift_Ops\<close>, \<open>X86_Lift_Int\<close> and
  \<open>X86_Lift_Ctl\<close>, where it is the one error they return.  The byte copies of \<^verbatim>\<open>plain_read\<close> and \<^verbatim>\<open>plain_write\<close> are defined for
  every width; above 8 bytes the source runs past its buffer, and the properties about values loaded or stored assume a width of 1, 2, 4 or 8.
  Code of other crates is an argument: the decoder, the ELF parser, the backend and compiled code, the host allocator, and what other virtual CPUs do between two locked sections.

  \<^bold>\<open>Theories and what they model.\<close>

  \<^item> \<open>X86_Prelude\<close>: integer types, the operations of the standard library on them, fallible list access.
  \<^item> \<open>X86_Features\<close> (\<^verbatim>\<open>features.rs\<close>), \<open>X86_State\<close> (\<^verbatim>\<open>state.rs\<close>), \<open>X86_Ir\<close> (\<^verbatim>\<open>ir.rs\<close>, \<^verbatim>\<open>exit.rs\<close>): feature sets and CPUID, the
    register file with lazily stored flags, the operations and exits.
  \<^item> \<open>X86_Memory\<close> (\<^verbatim>\<open>memory.rs\<close>): regions over one buffer, scalar, bulk and atomic access, code tags and their watermark,
    watched pages, guard-page calls, forks.  \<open>X86_Mem_Access\<close>, \<open>X86_Mem_Pages\<close> and \<open>X86_Mem_Reach\<close> prove it correct;
    \<open>X86_Mem_Pages\<close> also holds the store barrier that \<^verbatim>\<open>x86jit-cranelift\<close> emits.
  \<^item> \<open>X86_Alu\<close> and \<open>X86_Alu_Correct\<close> (\<^verbatim>\<open>interp/mod.rs\<close>): the integer helpers and their meaning on \<open>int\<close>.
  \<^item> \<open>X86_Exec_Int\<close> (\<^verbatim>\<open>interp/integer.rs\<close>), \<open>X86_Exec_Ctl\<close> (\<^verbatim>\<open>interp/control.rs\<close>), \<open>X86_Interp\<close> (\<^verbatim>\<open>interp/mod.rs\<close>): one
    function per operation body, the string loop, the walk over a block.
  \<^item> \<open>X86_Insn\<close>, \<open>X86_Lift_Ops\<close>, \<open>X86_Lift_Int\<close>, \<open>X86_Lift_Ctl\<close>, \<open>X86_Lift\<close> (\<^verbatim>\<open>lift/mod.rs\<close>, \<^verbatim>\<open>lift/integer.rs\<close>,
    \<^verbatim>\<open>lift/control.rs\<close>): decoded instructions, operand lowering, one function per lifting function, the dispatch on the
    mnemonic, blocks, regions and the single step.
  \<^item> \<open>X86_Elide\<close> (\<^verbatim>\<open>elide_dead_flags\<close>) with \<open>X86_Flag_Agree\<close> and \<open>X86_Elide_Correct\<close>.
  \<^item> \<open>X86_Cache\<close> (\<^verbatim>\<open>cache.rs\<close>, \<^verbatim>\<open>codemap.rs\<close>), \<open>X86_Vm\<close> (\<^verbatim>\<open>vm.rs\<close>, \<^verbatim>\<open>Vm\<close>), \<open>X86_Vcpu\<close> (\<^verbatim>\<open>vm.rs\<close>, \<^verbatim>\<open>Vcpu\<close>, and
    \<^verbatim>\<open>jit_abi.rs\<close>), with \<open>X86_Coherence\<close>, \<open>X86_Resolve\<close> and \<open>X86_Vm_Correct\<close>.
  \<^item> \<open>X86_Typing\<close> and \<open>X86_Lift_Typed\<close>: a type system for blocks, its soundness for the interpreter, and that the lifter
    makes only well-typed blocks.  \<open>X86_Run_Safe\<close>: resolution and runs neither panic nor hang.
  \<^item> \<open>X86_Crypto\<close> and \<open>X86_Crypto_Correct\<close> (\<^verbatim>\<open>aes.rs\<close>, \<^verbatim>\<open>sha.rs\<close>, \<^verbatim>\<open>gfni.rs\<close>, \<^verbatim>\<open>pclmul.rs\<close>).
  \<^item> \<open>X86_Elf\<close> and \<open>X86_Elf_Correct\<close> (\<^verbatim>\<open>src/x86jit-elf/src/lib.rs\<close>): loading of segments and the initial stack; the parser
    (\<^verbatim>\<open>goblin\<close>) is an argument.
  \<^item> \<open>X86_F80\<close> (\<^verbatim>\<open>f80.rs\<close>): the 80-bit float without the transcendental functions.
\<close>

text \<open>
  \<^bold>\<open>What is shown.\<close>

  \<^item> \<^emph>\<open>Integer helpers\<close>: results and all six flags of addition and subtraction, division with its error cases, the
    conditions after a compare, rotation through carry, bit deposit and extract.
  \<^item> \<^emph>\<open>Guest memory\<close>: a store changes exactly the addressed bytes, a load returns them, traps change nothing (the locale
    \<open>guest_ram\<close>, interpreted by \<open>mem_read\<close> and \<open>mem_write\<close>); every reachable memory satisfies the invariant of the tables;
    stores into tagged pages and watched pages are reported; a fork answers as its parent; the barrier of compiled code
    has the effect of the hook of the interpreter except for one kind of store, named exactly.  The code watermark is coherent for tables of at most
    \<open>TRACKED_WORDS\<close> words, a bound that is shown to be sharp.
  \<^item> \<^emph>\<open>Flag elimination\<close>: the narrowed block behaves as the original one.  The proviso names the operations that read flags
    which the pass does not know of; at an exit in the middle of a block only the live flags agree.  Two lemmas show that neither limit can be
    dropped.
  \<^item> \<^emph>\<open>Lifting and interpretation\<close>: lifting ends on any bytes, every lifted block is well typed, and a well-typed block is
    interpreted without a panic from every state; so a single step returns at every program counter.
  \<^item> \<^emph>\<open>The machine\<close>: in every state reached by whole operations with flat fetches, inline tier-up and whole-page unmaps (the relation \<open>vm_step\<close>) each cached
    translation is of the bytes now in memory once the reported pages have been handled; two lemmas show executions outside that relation in which a
    translation outlives its code.  Resolution returns what the cache holds, for every fetch address, mode and tier-up policy and
    whatever other virtual CPUs do between its locked sections; old epochs publish only live units; a run with a block budget ends in an exit without a panic and
    leaves a machine that can be run again.  What a backend owes is in the locales \<open>backend_contract\<close> and \<open>backend_safe\<close>, interpreted by the
    interpreter's backend; what compiled code owes is \<open>arena_ok\<close>.  The locale \<open>access_closed\<close> shows once that interpreting a
    block keeps whatever the memory accessors keep, and the memory invariant interprets it.
  \<^item> \<^emph>\<open>The ELF loader\<close>: the initial stack has the System V layout, and loading a static image is all or nothing.
  \<^item> \<^emph>\<open>Cryptography\<close>: AES rounds and their inverses, the S-box as the affine image of the field inverse, SHA-256
    against its standard, the carry-less product.

  \<^bold>\<open>Fuel.\<close>  The decode loop has one unit of fuel more than the bytes of its window, and the decoder consumes a byte per
  instruction.  A repeated string operation has one unit per value of its counter.  A retry of \<^verbatim>\<open>resolve\<close> needs an
  intervention of another virtual CPU, and the model takes the list of interventions.  The dispatcher has three rounds per block of the budget.  For each of
  them a lemma shows that the fuel is enough; the other loops of the source are structural recursions, or have
  termination proofs.

  \<^bold>\<open>Not modelled.\<close>

  \<^item> The SIMD instruction set (\<^verbatim>\<open>interp/vector.rs\<close>, \<^verbatim>\<open>lift/vector.rs\<close>) and the x87 unit (\<^verbatim>\<open>x87.rs\<close>): some four hundred
    operations whose bodies are lane-wise host floating point; lifting takes their arms as an argument, and the typing
    theorems state what that argument has to keep.  The transcendental functions of \<^verbatim>\<open>f80.rs\<close> are approximations without a
    specification in the source.
  \<^item> Code generation (\<^verbatim>\<open>x86jit-cranelift\<close>) apart from the store barrier: it builds code through Cranelift, whose semantics
    is not part of the repository.  A compiled block is an argument of the dispatcher.
  \<^item> Memory orderings: an operation on an atomic or under a lock is one step, and steps of different virtual CPUs
    interleave.
  \<^item> Lockstep tracing and disassembly (output through the formatter of \<^verbatim>\<open>iced-x86\<close>), the
    test harnesses and the benchmarks.
\<close>

end
